(* ===== verification/Prelude.thy ===== *)
theory Prelude
  imports Main
begin

text \<open>
  Shared ground of the development: the type of Python text, the exceptions that the
  service raises and catches, results that may be an exception, and the generic lemmas on
  lists that the components use.

  A Python \<^verbatim>\<open>str\<close> is a sequence of Unicode code points, so \<open>pystr\<close> is a list of
  numbers; \<open>lit ''...''\<close> is the text of an ASCII literal.  An exception is a value: a
  function that may raise returns \<open>exn + 'a\<close>, with \<open>Inl\<close> for the exception.
\<close>

section \<open>Collections of facts\<close>

named_theorems py_eval \<open>equations that evaluate the Python text and byte operations on closed terms\<close>
named_theorems res_simps \<open>equations of the result combinators\<close>

section \<open>Text\<close>

type_synonym pystr = "nat list"

definition lit :: "string \<Rightarrow> pystr" where
  "lit s = map of_char s"

lemma lit_Nil [simp]: "lit [] = []"
  by (simp add: lit_def)

lemma lit_Cons [py_eval]: "lit (c # s) = of_char c # lit s"
  by (simp add: lit_def)

lemma length_lit [simp]: "length (lit s) = length s"
  by (simp add: lit_def)

lemma lit_eq_Nil [simp]: "lit s = [] \<longleftrightarrow> s = []"
  by (simp add: lit_def)

lemma Nil_eq_lit [simp]: "[] = lit s \<longleftrightarrow> s = []"
  by (auto simp add: lit_def)

lemma lit_inject [simp]: "lit s = lit t \<longleftrightarrow> s = t"
  by (auto simp: lit_def inj_map_eq_map [OF inj_of_char])

section \<open>Exceptions\<close>

datatype rpc_status =
    RPC_NOT_FOUND
  | RPC_UNAVAILABLE
  | RPC_OTHER nat

text \<open>
  The exceptions named in the source, each with the data the source reads from it:
  \<open>ApplicationError\<close> has its message, its \<open>type\<close> and its \<open>non_retryable\<close> flag,
  \<open>APIError\<close> its status code, code and message.  \<open>CancelledError\<close> is the one of
  \<^verbatim>\<open>asyncio\<close>, which is a \<open>BaseException\<close> and not an \<open>Exception\<close>;
  \<open>OtherException\<close> and \<open>OtherBaseException\<close> stand for whatever else a library call may
  raise, by class name and message.
\<close>

datatype exn =
    ValueError
  | KeyError pystr
  | TypeError
  | UnicodeEncodeError
  | FileNotFoundError
  | NotImplementedError pystr
  | CancelledError
  | SandboxInfraError pystr
  | SandboxPolicyViolation pystr
  | ApplicationError pystr pystr bool
  | APIError int pystr pystr
  | RPCError rpc_status
  | WorkflowAlreadyStartedError
  | OtherException pystr pystr
  | OtherBaseException pystr pystr

text \<open>The exceptions that \<^verbatim>\<open>except Exception\<close> catches.\<close>

fun is_Exception :: "exn \<Rightarrow> bool" where
  "is_Exception CancelledError = False"
| "is_Exception (OtherBaseException n m) = False"
| "is_Exception _ = True"

section \<open>Results\<close>

type_synonym 'a result = "exn + 'a"

definition rbind :: "'a result \<Rightarrow> ('a \<Rightarrow> 'b result) \<Rightarrow> 'b result" where
  "rbind r f = (case r of Inl e \<Rightarrow> Inl e | Inr x \<Rightarrow> f x)"

definition rmap :: "('a \<Rightarrow> 'b) \<Rightarrow> 'a result \<Rightarrow> 'b result" where
  "rmap f r = (case r of Inl e \<Rightarrow> Inl e | Inr x \<Rightarrow> Inr (f x))"

lemma rbind_simps [simp, res_simps]:
  "rbind (Inl e) f = Inl e"
  "rbind (Inr x) f = f x"
  by (simp_all add: rbind_def)

lemma rmap_simps [simp, res_simps]:
  "rmap f (Inl e) = Inl e"
  "rmap f (Inr x) = Inr (f x)"
  by (simp_all add: rmap_def)

lemma rbind_eq_Inr: "rbind r f = Inr y \<longleftrightarrow> (\<exists>x. r = Inr x \<and> f x = Inr y)"
  by (cases r) auto

lemma rmap_eq_Inr: "rmap f r = Inr y \<longleftrightarrow> (\<exists>x. r = Inr x \<and> y = f x)"
  by (cases r) auto

lemma rmap_eq_Inl [simp]: "rmap f r = Inl e \<longleftrightarrow> r = Inl e"
  by (cases r) auto

lemma rbind_assoc [res_simps]: "rbind (rbind r f) g = rbind r (\<lambda>x. rbind (f x) g)"
  by (cases r) auto

section \<open>Optional texts\<close>

text \<open>\<^verbatim>\<open>x or default\<close> on an optional text.\<close>

definition or_default :: "pystr option \<Rightarrow> pystr \<Rightarrow> pystr" where
  "or_default x d = (case x of None \<Rightarrow> d | Some t \<Rightarrow> if t = [] then d else t)"

section \<open>Lists\<close>

text \<open>
  \<open>last_n n xs\<close> is the tail of \<open>xs\<close> of at most \<open>n\<close> elements, the Python
  \<^verbatim>\<open>xs[-n:]\<close> for a positive \<open>n\<close>.
\<close>

definition last_n :: "nat \<Rightarrow> 'a list \<Rightarrow> 'a list" where
  "last_n n xs = drop (length xs - n) xs"

lemma length_last_n [simp]: "length (last_n n xs) = min n (length xs)"
  by (simp add: last_n_def)

lemma last_n_Nil [simp]: "last_n n [] = []"
  by (simp add: last_n_def)

lemma last_n_all: "length xs \<le> n \<Longrightarrow> last_n n xs = xs"
  by (simp add: last_n_def)

lemma last_n_append_last_n: "last_n n (last_n n xs @ ys) = last_n n (xs @ ys)"
proof (cases "length xs \<le> n")
  case True
  then show ?thesis by (simp add: last_n_all)
next
  case False
  then show ?thesis
    by (cases "length ys \<le> n") (auto simp: last_n_def add.commute)
qed

lemma last_n_suffix: "\<exists>ps. xs = ps @ last_n n xs"
  by (metis append_take_drop_id last_n_def)

end
