(* ===== verification/PyText.thy ===== *)
theory PyText
  imports Prelude "HOL-Library.Sublist"
begin

text \<open>
  The operations of Python's \<^verbatim>\<open>str\<close> and of string formatting that the service uses:
  containment, lower case, strip, replace, slicing, splitting at the first separator,
  decimal integers and \<^verbatim>\<open>str.format\<close> with plain field names.
\<close>

section \<open>Containment, prefix, split\<close>

fun py_in :: "pystr \<Rightarrow> pystr \<Rightarrow> bool" where
  "py_in p [] = (p = [])"
| "py_in p (c # s) = (prefix p (c # s) \<or> py_in p s)"

lemma py_in_iff: "py_in p s \<longleftrightarrow> (\<exists>a b. s = a @ p @ b)"
proof (induction s)
  case Nil
  then show ?case by auto
next
  case (Cons c s)
  show ?case
    by (auto simp: Cons.IH prefix_def Cons_eq_append_conv)
qed

lemma py_in_sublist: "py_in p s \<longleftrightarrow> sublist p s"
  by (simp add: py_in_iff sublist_def)

lemma py_in_append: "py_in p s \<Longrightarrow> py_in p (a @ s @ b)"
  by (metis py_in_iff append.assoc)

lemma py_in_self [simp]: "py_in p (a @ p @ b)"
  by (auto simp: py_in_iff)

text \<open>\<^verbatim>\<open>s.split(sep, 1)[0]\<close> and \<^verbatim>\<open>s.split(sep, 1)[1]\<close> for a one-character separator
  that occurs in \<open>s\<close>.\<close>

definition split1_fst :: "nat \<Rightarrow> pystr \<Rightarrow> pystr" where
  "split1_fst sep s = takeWhile (\<lambda>c. c \<noteq> sep) s"

definition split1_snd :: "nat \<Rightarrow> pystr \<Rightarrow> pystr" where
  "split1_snd sep s = tl (dropWhile (\<lambda>c. c \<noteq> sep) s)"

lemma split1_join:
  "sep \<notin> set a \<Longrightarrow> split1_fst sep (a @ sep # b) = a"
  "sep \<notin> set a \<Longrightarrow> split1_snd sep (a @ sep # b) = b"
proof -
  assume "sep \<notin> set a"
  then have *: "\<And>c. c \<in> set a \<Longrightarrow> c \<noteq> sep" by auto
  show "split1_fst sep (a @ sep # b) = a"
    using * by (simp add: split1_fst_def takeWhile_append)
  show "split1_snd sep (a @ sep # b) = b"
    using * by (simp add: split1_snd_def dropWhile_append)
qed

section \<open>Lower case\<close>

text \<open>
  On ASCII letters lower case is fixed.  The lower case of any other code point is read from
  the interpreter's Unicode tables, and for the capital sigma it depends on the text around
  it; the table is a parameter that sees the text before, the code point and the text after.
\<close>

type_synonym case_table = "pystr \<Rightarrow> nat \<Rightarrow> pystr \<Rightarrow> pystr"

definition ascii_lower :: "nat \<Rightarrow> nat" where
  "ascii_lower c = (if 65 \<le> c \<and> c \<le> 90 then c + 32 else c)"

fun lower_from :: "case_table \<Rightarrow> pystr \<Rightarrow> pystr \<Rightarrow> pystr" where
  "lower_from tab before [] = []"
| "lower_from tab before (c # s) =
     (if c < 128 then [ascii_lower c] else tab before c s) @ lower_from tab (before @ [c]) s"

definition lower :: "case_table \<Rightarrow> pystr \<Rightarrow> pystr" where
  "lower tab s = lower_from tab [] s"

definition is_ascii :: "pystr \<Rightarrow> bool" where
  "is_ascii s = list_all (\<lambda>c. c < 128) s"

lemma is_ascii_simps [simp]:
  "is_ascii []"
  "is_ascii (c # s) \<longleftrightarrow> c < 128 \<and> is_ascii s"
  "is_ascii (s @ t) \<longleftrightarrow> is_ascii s \<and> is_ascii t"
  by (simp_all add: is_ascii_def)

lemma is_ascii_lit [simp]:
  "is_ascii (lit (c # s)) \<longleftrightarrow> (of_char c :: nat) < 128 \<and> is_ascii (lit s)"
  by (simp add: lit_Cons)

lemma is_ascii_set: "is_ascii s \<longleftrightarrow> (\<forall>c \<in> set s. c < 128)"
  by (simp add: is_ascii_def list_all_iff)

lemma lower_from_append:
  "is_ascii s \<Longrightarrow> lower_from tab b (s @ t) = map ascii_lower s @ lower_from tab (b @ s) t"
  by (induction s arbitrary: b) auto

lemma lower_ascii [simp]: "is_ascii s \<Longrightarrow> lower tab s = map ascii_lower s"
  using lower_from_append [of s tab "[]" "[]"] by (simp add: lower_def)

text \<open>An ASCII part of a text is lowered on its own, wherever it stands.\<close>

lemma lower_from_middle:
  "is_ascii m \<Longrightarrow>
     \<exists>x y. lower_from tab b (s @ m @ t) = x @ map ascii_lower m @ y"
proof (induction s arbitrary: b)
  case Nil
  then show ?case
    by (auto simp: lower_from_append intro: exI [of _ "[]"])
next
  case (Cons c s)
  then obtain x y
    where "lower_from tab (b @ [c]) (s @ m @ t) = x @ map ascii_lower m @ y"
    by meson
  then show ?case
    by (metis append.assoc append_Cons lower_from.simps(2))
qed

lemma py_in_lower_middle:
  assumes "is_ascii m"
  shows "py_in (map ascii_lower m) (lower tab (s @ m @ t))"
  using lower_from_middle [OF assms, of tab "[]" s t]
  by (auto simp: lower_def py_in_iff)

section \<open>Strip, replace, slice\<close>

text \<open>The code points for which \<^verbatim>\<open>str.isspace\<close> holds, which \<^verbatim>\<open>str.strip\<close> removes.\<close>

definition is_space :: "nat \<Rightarrow> bool" where
  "is_space c =
     ((9 \<le> c \<and> c \<le> 13) \<or> (28 \<le> c \<and> c \<le> 32) \<or> c = 133 \<or> c = 160 \<or> c = 5760 \<or>
      (8192 \<le> c \<and> c \<le> 8202) \<or> c = 8232 \<or> c = 8233 \<or> c = 8239 \<or> c = 8287 \<or> c = 12288)"

definition strip :: "pystr \<Rightarrow> pystr" where
  "strip s = rev (dropWhile is_space (rev (dropWhile is_space s)))"

definition replace1 :: "nat \<Rightarrow> nat \<Rightarrow> pystr \<Rightarrow> pystr" where
  "replace1 a b s = map (\<lambda>c. if c = a then b else c) s"

lemma length_replace1 [simp]: "length (replace1 a b s) = length s"
  by (simp add: replace1_def)

lemma replace1_notin: "a \<noteq> b \<Longrightarrow> a \<notin> set (replace1 a b s)"
  by (auto simp: replace1_def)

lemma strip_infix: "\<exists>a b. s = a @ strip s @ b"
proof -
  let ?m = "dropWhile is_space s"
  have 1: "s = takeWhile is_space s @ ?m" by simp
  have "rev ?m = takeWhile is_space (rev ?m) @ dropWhile is_space (rev ?m)" by simp
  then have 2: "?m = strip s @ rev (takeWhile is_space (rev ?m))"
    unfolding strip_def by (metis rev_append rev_rev_ident)
  show ?thesis using 1 2 by metis
qed

lemma length_strip: "length (strip s) \<le> length s"
  using strip_infix [of s] by (metis le_add1 le_add2 le_trans length_append)

section \<open>Decimal integers\<close>

fun str_nat :: "nat \<Rightarrow> pystr" where
  "str_nat n = (if n < 10 then [48 + n] else str_nat (n div 10) @ [48 + n mod 10])"

declare str_nat.simps [simp del, py_eval]

definition str_int :: "int \<Rightarrow> pystr" where
  "str_int i = (if i < 0 then 45 # str_nat (nat (- i)) else str_nat (nat i))"

text \<open>Reading the digits back, which shows that no two numbers print alike.\<close>

definition int_of_digits :: "pystr \<Rightarrow> nat" where
  "int_of_digits s = foldl (\<lambda>n c. 10 * n + (c - 48)) 0 s"

lemma undec_str_nat [simp]: "int_of_digits (str_nat n) = n"
proof (induction n rule: str_nat.induct)
  case (1 n)
  show ?case
  proof (cases "n < 10")
    case True
    then show ?thesis by (simp add: str_nat.simps [of n] int_of_digits_def)
  next
    case False
    with 1 have "int_of_digits (str_nat (n div 10)) = n div 10" by simp
    with False show ?thesis by (simp add: str_nat.simps [of n] int_of_digits_def)
  qed
qed

lemma str_nat_inject [simp]: "str_nat m = str_nat n \<longleftrightarrow> m = n"
  by (metis undec_str_nat)

lemma str_nat_digits: "c \<in> set (str_nat n) \<Longrightarrow> 48 \<le> c \<and> c \<le> 57"
proof (induction n rule: str_nat.induct)
  case (1 n)
  then show ?case
    by (cases "n < 10") (auto simp: str_nat.simps [of n])
qed

lemma str_nat_not_Nil [simp]: "str_nat n \<noteq> []"
  by (subst str_nat.simps) simp

lemma hd_str_nat: "hd (str_nat n) \<noteq> 45"
proof -
  have "hd (str_nat n) \<in> set (str_nat n)" by simp
  then have "48 \<le> hd (str_nat n)" by (blast dest: str_nat_digits)
  then show ?thesis by simp
qed

lemma str_int_inject [simp]: "str_int i = str_int j \<longleftrightarrow> i = j"
  using hd_str_nat by (auto simp: str_int_def nat_eq_iff2 split: if_splits dest!: arg_cong [where f = hd])

lemma str_int_chars: "c \<in> set (str_int i) \<Longrightarrow> c = 45 \<or> 48 \<le> c \<and> c \<le> 57"
  by (auto simp: str_int_def dest: str_nat_digits split: if_splits)

lemma is_ascii_str_int [simp]: "is_ascii (str_int i)"
  by (auto simp: is_ascii_set dest!: str_int_chars)

lemma str_int_not_Nil [simp]: "str_int i \<noteq> []"
  by (simp add: str_int_def)

section \<open>Replacement fields\<close>

text \<open>
  \<^verbatim>\<open>template.format(name=value, ...)\<close> with plain names: a doubled brace is a brace, a
  single opening brace starts a field name that runs to the closing brace and must be among
  the arguments, and a lone closing brace is an error.  A field name with an attribute, an
  index, a conversion or a format specification is outside this reading.
\<close>

function py_format :: "(pystr \<rightharpoonup> pystr) \<Rightarrow> pystr \<Rightarrow> pystr result" where
  "py_format args [] = Inr []"
| "py_format args (c # s) =
     (if c = 123 then
        (case s of
           [] \<Rightarrow> Inl ValueError
         | d # s' \<Rightarrow>
             if d = 123 then rmap (Cons 123) (py_format args s')
             else if 125 \<notin> set s then Inl ValueError
             else (case args (split1_fst 125 s) of
                     None \<Rightarrow> Inl (KeyError (split1_fst 125 s))
                   | Some v \<Rightarrow> rmap (append v) (py_format args (split1_snd 125 s))))
      else if c = 125 then
        (case s of
           [] \<Rightarrow> Inl ValueError
         | d # s' \<Rightarrow>
             if d = 125 then rmap (Cons 125) (py_format args s') else Inl ValueError)
      else rmap (Cons c) (py_format args s))"
  by pat_completeness auto
termination
proof (relation "measure (length \<circ> snd)", goal_cases)
  case (3 args c s d s' v)
  have "length (split1_snd 125 s) \<le> length (dropWhile (\<lambda>c. c \<noteq> 125) s)"
    by (simp add: split1_snd_def)
  also have "\<dots> \<le> length s" by (rule length_dropWhile_le)
  finally show ?case by simp
qed auto

declare py_format.simps [py_eval]

end
