(* ===== verification/PyBytes.thy ===== *)
theory PyBytes
  imports PyText "HOL-Library.Word"
begin

text \<open>
  Bytes and UTF-8.  \<open>char_codec\<close> is the interface of a code that writes one character as a
  non-empty block and reads the first block of a stream back; \<open>total_codec\<close> adds that
  reading never gets stuck.  UTF-8 with the error handler \<^verbatim>\<open>replace\<close> is a total codec; the
  escapes of a string literal (theory \<open>PyJson\<close>) are a codec.
\<close>

section \<open>Reading a stream of encoded characters\<close>

text \<open>
  \<open>read_all stop dec fuel bs\<close> reads characters with \<open>dec\<close> until \<open>stop\<close> recognises the end
  of the text and gives what follows it.
\<close>

fun read_all ::
  "('b list \<Rightarrow> 'b list option) \<Rightarrow> ('b list \<Rightarrow> ('a \<times> 'b list) option) \<Rightarrow> nat \<Rightarrow>
     'b list \<Rightarrow> ('a list \<times> 'b list) option" where
  "read_all stop dec 0 bs = map_option (Pair []) (stop bs)"
| "read_all stop dec (Suc n) bs =
     (case stop bs of
        Some r \<Rightarrow> Some ([], r)
      | None \<Rightarrow>
          (case dec bs of
             None \<Rightarrow> None
           | Some (c, r) \<Rightarrow>
               (case read_all stop dec n r of
                  None \<Rightarrow> None
                | Some (cs, r') \<Rightarrow> Some (c # cs, r'))))"

locale char_codec =
  fixes enc :: "'a \<Rightarrow> 'b list"
    and dec :: "'b list \<Rightarrow> ('a \<times> 'b list) option"
    and stop :: "'b list \<Rightarrow> 'b list option"
    and good :: "'a \<Rightarrow> bool"
  assumes dec_enc: "good c \<Longrightarrow> dec (enc c @ r) = Some (c, r)"
    and stop_enc: "good c \<Longrightarrow> stop (enc c @ r) = None"
    and dec_shorter: "dec bs = Some (c, r) \<Longrightarrow> length r < length bs"
    and stop_shorter: "stop bs = Some r \<Longrightarrow> length r \<le> length bs"
begin

text \<open>What was written is read back, up to the end mark.\<close>

lemma read_all_enc:
  assumes "list_all good s" and "stop t = Some r" and "length s \<le> n"
  shows "read_all stop dec n (concat (map enc s) @ t) = Some (s, r)"
  using assms(1,3)
proof (induction s arbitrary: n)
  case Nil
  then show ?case using assms(2) by (cases n) auto
next
  case (Cons c s)
  then obtain m where n: "n = Suc m" and "length s \<le> m" by (cases n) auto
  then have "read_all stop dec m (concat (map enc s) @ t) = Some (s, r)"
    using Cons by simp
  then show ?case using Cons.prems n by (simp add: dec_enc stop_enc)
qed

lemma enc_nonempty: "good c \<Longrightarrow> enc c \<noteq> []"
  using dec_enc [of c "[]"] dec_shorter by fastforce

lemma length_enc_ge: "list_all good s \<Longrightarrow> length s \<le> length (concat (map enc s))"
proof (induction s)
  case (Cons c s)
  then have "enc c \<noteq> []" by (simp add: enc_nonempty)
  with Cons show ?case by (cases "enc c") auto
qed simp

lemma enc_inject:
  assumes "list_all good s" and "list_all good s'" and "stop t = Some r"
    and "concat (map enc s) @ t = concat (map enc s') @ t"
  shows "s = s'"
proof -
  let ?n = "length s + length s'"
  have "read_all stop dec ?n (concat (map enc s) @ t) = Some (s, r)"
    by (rule read_all_enc [OF assms(1,3)]) simp
  moreover have "read_all stop dec ?n (concat (map enc s') @ t) = Some (s', r)"
    by (rule read_all_enc [OF assms(2,3)]) simp
  ultimately show ?thesis using assms(4) by (metis option.inject prod.inject)
qed

text \<open>Each character read uses at least one unit of the stream.\<close>

lemma read_all_length:
  "read_all stop dec n bs = Some (s, r) \<Longrightarrow> length s + length r \<le> length bs"
proof (induction n arbitrary: bs s)
  case 0
  then show ?case by (auto dest: stop_shorter)
next
  case (Suc n)
  show ?case
  proof (cases "stop bs")
    case None
    with Suc.prems obtain c bs' cs where d: "dec bs = Some (c, bs')"
      and "read_all stop dec n bs' = Some (cs, r)" and s: "s = c # cs"
      by (auto split: option.splits)
    then have "length cs + length r \<le> length bs'" using Suc.IH by blast
    with dec_shorter [OF d] s show ?thesis by simp
  next
    case (Some r')
    with Suc.prems show ?thesis using stop_shorter [OF Some] by simp
  qed
qed

end

locale total_codec = char_codec +
  assumes dec_total: "stop bs = None \<Longrightarrow> dec bs \<noteq> None"
    and stop_Nil: "stop [] \<noteq> None"
begin

lemma read_all_total: "length bs \<le> n \<Longrightarrow> read_all stop dec n bs \<noteq> None"
proof (induction n arbitrary: bs)
  case 0
  then show ?case by (simp add: stop_Nil)
next
  case (Suc n)
  show ?case
  proof (cases "stop bs")
    case None
    with dec_total obtain c r where d: "dec bs = Some (c, r)" by fastforce
    with Suc.prems have "length r \<le> n" using dec_shorter by fastforce
    then obtain x where "read_all stop dec n r = Some x" using Suc.IH by blast
    with None d show ?thesis by (cases x) simp
  qed simp
qed

end

section \<open>UTF-8\<close>

type_synonym byte = "8 word"

definition is_surrogate :: "nat \<Rightarrow> bool" where
  "is_surrogate c \<longleftrightarrow> 0xD800 \<le> c \<and> c < 0xE000"

definition is_scalar :: "nat \<Rightarrow> bool" where
  "is_scalar c \<longleftrightarrow> c < 0x110000 \<and> \<not> is_surrogate c"

definition utf8_units :: "nat \<Rightarrow> nat list" where
  "utf8_units c =
     (if c < 0x80 then [c]
      else if c < 0x800 then [192 + c div 64, 128 + c mod 64]
      else if c < 0x10000 then [224 + c div 4096, 128 + c div 64 mod 64, 128 + c mod 64]
      else [240 + c div 262144, 128 + c div 4096 mod 64, 128 + c div 64 mod 64, 128 + c mod 64])"

text \<open>\<^verbatim>\<open>s.encode("utf-8")\<close>: a surrogate code point cannot be encoded.\<close>

definition utf8_encode :: "pystr \<Rightarrow> byte list result" where
  "utf8_encode s =
     (if list_all is_scalar s then Inr (map word_of_nat (concat (map utf8_units s)))
      else Inl UnicodeEncodeError)"

definition is_cont :: "nat \<Rightarrow> bool" where
  "is_cont b \<longleftrightarrow> 128 \<le> b \<and> b < 192"

text \<open>The range of the second byte, which excludes overlong forms, surrogates and values
  beyond the last code point.\<close>

definition second_ok :: "nat \<Rightarrow> nat \<Rightarrow> bool" where
  "second_ok b b1 \<longleftrightarrow>
     is_cont b1 \<and> (b = 224 \<longrightarrow> 160 \<le> b1) \<and> (b = 237 \<longrightarrow> b1 < 160) \<and>
     (b = 240 \<longrightarrow> 144 \<le> b1) \<and> (b = 244 \<longrightarrow> b1 < 144)"

definition take_if :: "('a \<Rightarrow> bool) \<Rightarrow> 'a list \<Rightarrow> ('a \<times> 'a list) option" where
  "take_if P xs = (case xs of [] \<Rightarrow> None | x # r \<Rightarrow> if P x then Some (x, r) else None)"

abbreviation replacement_char :: nat where
  "replacement_char \<equiv> 0xFFFD"

text \<open>One character of \<^verbatim>\<open>bytes.decode("utf-8", "replace")\<close>: a malformed sequence becomes one
  replacement character for its longest well-formed beginning.\<close>

fun utf8_next :: "nat list \<Rightarrow> (nat \<times> nat list) option" where
  "utf8_next [] = None"
| "utf8_next (b # r) =
     (if b < 128 then Some (b, r)
      else if 194 \<le> b \<and> b < 224 then
        (case take_if is_cont r of
           None \<Rightarrow> Some (replacement_char, r)
         | Some (b1, r1) \<Rightarrow> Some ((b - 192) * 64 + (b1 - 128), r1))
      else if 224 \<le> b \<and> b < 240 then
        (case take_if (second_ok b) r of
           None \<Rightarrow> Some (replacement_char, r)
         | Some (b1, r1) \<Rightarrow>
             (case take_if is_cont r1 of
                None \<Rightarrow> Some (replacement_char, r1)
              | Some (b2, r2) \<Rightarrow>
                  Some ((b - 224) * 4096 + (b1 - 128) * 64 + (b2 - 128), r2)))
      else if 240 \<le> b \<and> b < 245 then
        (case take_if (second_ok b) r of
           None \<Rightarrow> Some (replacement_char, r)
         | Some (b1, r1) \<Rightarrow>
             (case take_if is_cont r1 of
                None \<Rightarrow> Some (replacement_char, r1)
              | Some (b2, r2) \<Rightarrow>
                  (case take_if is_cont r2 of
                     None \<Rightarrow> Some (replacement_char, r2)
                   | Some (b3, r3) \<Rightarrow>
                       Some ((b - 240) * 262144 + (b1 - 128) * 4096 + (b2 - 128) * 64 + (b3 - 128),
                             r3))))
      else Some (replacement_char, r))"

definition end_of_bytes :: "nat list \<Rightarrow> nat list option" where
  "end_of_bytes bs = (if bs = [] then Some [] else None)"

definition utf8_decode :: "byte list \<Rightarrow> pystr" where
  "utf8_decode bs =
     (case read_all end_of_bytes utf8_next (length bs) (map unat bs) of
        None \<Rightarrow> []
      | Some (s, r) \<Rightarrow> s)"

lemma take_if_simps [simp]:
  "take_if P [] = None"
  "take_if P (x # r) = (if P x then Some (x, r) else None)"
  by (simp_all add: take_if_def)

lemma take_if_Some: "take_if P xs = Some (x, r) \<longleftrightarrow> xs = x # r \<and> P x"
  by (cases xs) auto

lemma utf8_next_shorter: "utf8_next bs = Some (c, r) \<Longrightarrow> length r < length bs"
  by (cases bs) (auto simp: take_if_Some split: if_splits option.splits)

lemma utf8_next_total: "bs \<noteq> [] \<Longrightarrow> utf8_next bs \<noteq> None"
  by (cases bs) (auto split: option.splits)

lemma utf8_units_lt: "c < 0x110000 \<Longrightarrow> b \<in> set (utf8_units c) \<Longrightarrow> b < 256"
  by (auto simp: utf8_units_def split: if_splits)

lemma length_utf8_units: "1 \<le> length (utf8_units c)" "length (utf8_units c) \<le> 4"
  by (simp_all add: utf8_units_def)

lemma utf8_next_2:
  "2 \<le> q \<Longrightarrow> q < 32 \<Longrightarrow> m < 64 \<Longrightarrow>
     utf8_next ((192 + q) # (128 + m) # r) = Some (q * 64 + m, r)"
  by (simp add: is_cont_def)

lemma utf8_next_3:
  "q < 16 \<Longrightarrow> second_ok (224 + q) (128 + m1) \<Longrightarrow> m2 < 64 \<Longrightarrow>
     utf8_next ((224 + q) # (128 + m1) # (128 + m2) # r) = Some (q * 4096 + m1 * 64 + m2, r)"
  by (simp add: is_cont_def)

lemma utf8_next_4:
  "q < 5 \<Longrightarrow> second_ok (240 + q) (128 + m1) \<Longrightarrow> m2 < 64 \<Longrightarrow> m3 < 64 \<Longrightarrow>
     utf8_next ((240 + q) # (128 + m1) # (128 + m2) # (128 + m3) # r)
       = Some (q * 262144 + m1 * 4096 + m2 * 64 + m3, r)"
  by (simp add: is_cont_def)

text \<open>The base-64 digits of a code point.\<close>

lemma base64_digits:
  fixes c :: nat
  shows base64_3: "c div 4096 * 4096 + c div 64 mod 64 * 64 + c mod 64 = c"
    and base64_4: "c div 262144 * 262144 + c div 4096 mod 64 * 4096 + c div 64 mod 64 * 64 + c mod 64 = c"
proof -
  have 1: "c div 4096 = c div 64 div 64" and 2: "c div 262144 = c div 64 div 64 div 64"
    by (simp_all add: div_mult2_eq [symmetric])
  have 3: "c div 64 * 64 + c mod 64 = c" "c div 64 div 64 * 64 + c div 64 mod 64 = c div 64"
    "c div 64 div 64 div 64 * 64 + c div 64 div 64 mod 64 = c div 64 div 64"
    by (rule div_mult_mod_eq)+
  show "c div 4096 * 4096 + c div 64 mod 64 * 64 + c mod 64 = c"
    unfolding 1 using 3(1,2) by linarith
  show "c div 262144 * 262144 + c div 4096 mod 64 * 4096 + c div 64 mod 64 * 64 + c mod 64 = c"
    unfolding 1 2 using 3 by linarith
qed

lemma utf8_next_units:
  assumes "is_scalar c"
  shows "utf8_next (utf8_units c @ r) = Some (c, r)"
proof -
  have m: "c mod 64 < 64" "c div 64 mod 64 < 64" "c div 4096 mod 64 < 64" by simp_all
  consider "c < 0x80" | "0x80 \<le> c" "c < 0x800" | "0x800 \<le> c" "c < 0x10000"
    | "0x10000 \<le> c" "c < 0x110000"
    using assms by (force simp: is_scalar_def)
  then show ?thesis
  proof cases
    case 1
    then show ?thesis by (simp add: utf8_units_def)
  next
    case 2
    then have "2 \<le> c div 64" "c div 64 < 32"
      by (simp_all add: less_eq_div_iff_mult_less_eq less_mult_imp_div_less)
    from utf8_next_2 [OF this m(1), of r] 2 show ?thesis by (simp add: utf8_units_def)
  next
    case 3
    then have d: "c div 4096 < 16" by (simp add: less_mult_imp_div_less)
    have s: "second_ok (224 + c div 4096) (128 + c div 64 mod 64)"
      using 3 assms m base64_3 [of c]
      unfolding second_ok_def is_cont_def is_scalar_def is_surrogate_def by linarith
    from utf8_next_3 [OF d s m(1), of r] 3 show ?thesis
      by (simp add: utf8_units_def base64_3)
  next
    case 4
    then have d: "c div 262144 < 5" by (simp add: less_mult_imp_div_less)
    have s: "second_ok (240 + c div 262144) (128 + c div 4096 mod 64)"
      using 4 m base64_4 [of c] unfolding second_ok_def is_cont_def by linarith
    from utf8_next_4 [OF d s m(2,1), of r] 4 show ?thesis
      by (simp add: utf8_units_def base64_4)
  qed
qed

interpretation utf8: total_codec utf8_units utf8_next end_of_bytes is_scalar
proof unfold_locales
  show "is_scalar c \<Longrightarrow> utf8_next (utf8_units c @ r) = Some (c, r)" for c r
    by (rule utf8_next_units)
  show "is_scalar c \<Longrightarrow> end_of_bytes (utf8_units c @ r) = None" for c r
    using length_utf8_units(1) [of c] by (auto simp: end_of_bytes_def)
  show "utf8_next bs = Some (c, r) \<Longrightarrow> length r < length bs" for bs c r
    by (rule utf8_next_shorter)
  show "end_of_bytes bs = Some r \<Longrightarrow> length r \<le> length bs" for bs r
    by (simp add: end_of_bytes_def split: if_splits)
  show "end_of_bytes bs = None \<Longrightarrow> utf8_next bs \<noteq> None" for bs
    using utf8_next_total by (auto simp: end_of_bytes_def split: if_splits)
  show "end_of_bytes [] \<noteq> None" by (simp add: end_of_bytes_def)
qed

lemma is_scalar_ascii: "is_ascii s \<Longrightarrow> list_all is_scalar s"
  by (auto simp: is_ascii_set list_all_iff is_scalar_def is_surrogate_def)

lemma map_unat_units:
  "list_all is_scalar s \<Longrightarrow>
     map unat (map (word_of_nat :: nat \<Rightarrow> byte) (concat (map utf8_units s))) = concat (map utf8_units s)"
  by (rule map_idI [where f = "unat \<circ> (word_of_nat :: nat \<Rightarrow> byte)", unfolded map_map [symmetric]])
    (auto simp: list_all_iff is_scalar_def unat_of_nat take_bit_eq_mod dest!: utf8_units_lt)

text \<open>Encoding and decoding again gives the same text.\<close>

lemma utf8_decode_encode: "utf8_encode s = Inr bs \<Longrightarrow> utf8_decode bs = s"
proof -
  assume e: "utf8_encode s = Inr bs"
  then have g: "list_all is_scalar s"
    and bs: "bs = map word_of_nat (concat (map utf8_units s))"
    by (auto simp: utf8_encode_def split: if_splits)
  have u: "map unat bs = concat (map utf8_units s)"
    unfolding bs by (rule map_unat_units [OF g])
  then have "length s \<le> length bs"
    using utf8.length_enc_ge [OF g] by (metis length_map)
  then show ?thesis
    using utf8.read_all_enc [OF g, of "[]" "[]" "length bs"]
    by (simp add: utf8_decode_def u end_of_bytes_def)
qed

lemma utf8_encode_inject:
  "utf8_encode s = Inr bs \<Longrightarrow> utf8_encode t = Inr bs \<Longrightarrow> s = t"
  by (metis utf8_decode_encode)

lemma utf8_encode_ascii: "is_ascii s \<Longrightarrow> utf8_encode s = Inr (map word_of_nat s)"
  by (induction s) (auto simp: utf8_encode_def is_scalar_ascii utf8_units_def is_scalar_def
      is_surrogate_def list_all_iff split: if_splits)

text \<open>Decoding bounds the text by the bytes.\<close>

lemma length_utf8_decode: "length (utf8_decode bs) \<le> length bs"
proof (cases "read_all end_of_bytes utf8_next (length bs) (map unat bs)")
  case (Some x)
  then show ?thesis
    using utf8.read_all_length [of "length bs" "map unat bs" "fst x" "snd x"]
    by (cases x) (simp add: utf8_decode_def)
qed (simp add: utf8_decode_def)

lemma utf8_decode_Nil [simp]: "utf8_decode [] = []"
  using length_utf8_decode [of "[]"] by simp

end
