(* ===== verification/PyJson.thy ===== *)
theory PyJson
  imports PyBytes "HOL-Library.List_Lexorder"
begin

text \<open>
  \<^verbatim>\<open>json.dumps\<close> with its default separators and \<^verbatim>\<open>ensure_ascii\<close>, with and without
  \<^verbatim>\<open>sort_keys\<close>, and the reading of a double-quoted Python string literal, which is how the
  interpreter reads a JSON string that is pasted into a program.
\<close>

section \<open>Escapes\<close>

definition hex_digit :: "nat \<Rightarrow> nat" where
  "hex_digit d = (if d < 10 then 48 + d else 87 + d)"

definition hex4 :: "nat \<Rightarrow> pystr" where
  "hex4 n = [hex_digit (n div 4096 mod 16), hex_digit (n div 256 mod 16),
             hex_digit (n div 16 mod 16), hex_digit (n mod 16)]"

text \<open>The escape of one UTF-16 unit: quote, backslash and control characters are escaped, and
  whatever is not printable ASCII is written with four hexadecimal digits.\<close>

definition json_unit :: "nat \<Rightarrow> pystr" where
  "json_unit c =
     (if c = 34 then [92, 34]
      else if c = 92 then [92, 92]
      else if c = 10 then [92, 110]
      else if c = 13 then [92, 114]
      else if c = 9 then [92, 116]
      else if c = 12 then [92, 102]
      else if c = 8 then [92, 98]
      else if 32 \<le> c \<and> c \<le> 126 then [c]
      else [92, 117] @ hex4 c)"

text \<open>A code point beyond the basic plane is written as two surrogates.\<close>

definition utf16_units :: "nat \<Rightarrow> nat list" where
  "utf16_units c =
     (if c < 0x10000 then [c]
      else [0xD800 + (c - 0x10000) div 1024, 0xDC00 + (c - 0x10000) mod 1024])"

definition utf16 :: "pystr \<Rightarrow> pystr" where
  "utf16 s = concat (map utf16_units s)"

definition json_str :: "pystr \<Rightarrow> pystr" where
  "json_str s = [34] @ concat (map json_unit (utf16 s)) @ [34]"

section \<open>Values\<close>

datatype json =
    JNull
  | JBool bool
  | JInt int
  | JStr pystr
  | JArr "json list"
  | JObj "(pystr \<times> json) list"

fun join :: "pystr \<Rightarrow> pystr list \<Rightarrow> pystr" where
  "join sep [] = []"
| "join sep [x] = x"
| "join sep (x # y # xs) = x @ sep @ join sep (y # xs)"

fun dumps :: "json \<Rightarrow> pystr" where
  "dumps JNull = lit ''null''"
| "dumps (JBool b) = (if b then lit ''true'' else lit ''false'')"
| "dumps (JInt i) = str_int i"
| "dumps (JStr s) = json_str s"
| "dumps (JArr vs) = lit ''['' @ join (lit '', '') (map dumps vs) @ lit '']''"
| "dumps (JObj kvs) =
     lit ''{'' @ join (lit '', '') (map (\<lambda>(k, v). json_str k @ lit '': '' @ dumps v) kvs) @ lit ''}''"

fun sort_keys :: "json \<Rightarrow> json" where
  "sort_keys (JArr vs) = JArr (map sort_keys vs)"
| "sort_keys (JObj kvs) = JObj (sort_key fst (map (\<lambda>(k, v). (k, sort_keys v)) kvs))"
| "sort_keys v = v"

section \<open>Reading a string literal\<close>

definition hex_value :: "nat \<Rightarrow> nat option" where
  "hex_value c =
     (if 48 \<le> c \<and> c \<le> 57 then Some (c - 48)
      else if 97 \<le> c \<and> c \<le> 102 then Some (c - 87)
      else if 65 \<le> c \<and> c \<le> 70 then Some (c - 55) else None)"

definition unhex4 :: "pystr \<Rightarrow> (nat \<times> pystr) option" where
  "unhex4 s =
     (case s of
        a # b # c # d # r \<Rightarrow>
          (case (hex_value a, hex_value b, hex_value c, hex_value d) of
             (Some a', Some b', Some c', Some d') \<Rightarrow>
               Some (a' * 4096 + b' * 256 + c' * 16 + d', r)
           | _ \<Rightarrow> None)
      | _ \<Rightarrow> None)"

definition simple_escape :: "nat \<Rightarrow> nat option" where
  "simple_escape c =
     (if c = 34 then Some 34
      else if c = 92 then Some 92
      else if c = 110 then Some 10
      else if c = 114 then Some 13
      else if c = 116 then Some 9
      else if c = 102 then Some 12
      else if c = 98 then Some 8 else None)"

text \<open>
  One character inside a double-quoted literal: a character that is neither quote, backslash
  nor line break stands for itself, a backslash starts one of the escapes that
  \<^verbatim>\<open>json.dumps\<close> writes.  Python knows further escapes; those are outside this reading and
  give \<open>None\<close>.
\<close>

definition literal_char :: "pystr \<Rightarrow> (nat \<times> pystr) option" where
  "literal_char s =
     (case s of
        [] \<Rightarrow> None
      | c # r \<Rightarrow>
          if c = 34 \<or> c = 10 \<or> c = 13 then None
          else if c = 92 then
            (case r of
               [] \<Rightarrow> None
             | e # r' \<Rightarrow>
                 if e = 117 then unhex4 r'
                 else map_option (\<lambda>x. (x, r')) (simple_escape e))
          else Some (c, r))"

definition literal_end :: "pystr \<Rightarrow> pystr option" where
  "literal_end s = (case s of [] \<Rightarrow> None | c # r \<Rightarrow> if c = 34 then Some r else None)"

text \<open>The value of a double-quoted literal at the start of \<open>s\<close>, and the program text after it.\<close>

definition read_literal :: "pystr \<Rightarrow> (pystr \<times> pystr) option" where
  "read_literal s =
     (case s of
        [] \<Rightarrow> None
      | c # r \<Rightarrow>
          if c = 34 then read_all literal_end literal_char (length r) r else None)"

section \<open>Facts\<close>

lemma hex_value_digit [simp]: "d < 16 \<Longrightarrow> hex_value (hex_digit d) = Some d"
  by (auto simp: hex_value_def hex_digit_def)

lemma hex_digits_value:
  fixes n :: nat
  assumes "n < 0x10000"
  shows "n div 4096 mod 16 * 4096 + n div 256 mod 16 * 256 + n div 16 mod 16 * 16 + n mod 16 = n"
proof -
  have 1: "n div 256 = n div 16 div 16" and 2: "n div 4096 = n div 16 div 16 div 16"
    by (simp_all add: div_mult2_eq [symmetric])
  have 3: "n div 16 * 16 + n mod 16 = n" "n div 16 div 16 * 16 + n div 16 mod 16 = n div 16"
    "n div 16 div 16 div 16 * 16 + n div 16 div 16 mod 16 = n div 16 div 16"
    by (rule div_mult_mod_eq)+
  have "n div 4096 < 16" using assms by (simp add: less_mult_imp_div_less)
  then have "n div 4096 mod 16 = n div 4096" by simp
  with 3 show ?thesis unfolding 1 2 by linarith
qed

lemma unhex4_hex4: "n < 0x10000 \<Longrightarrow> unhex4 (hex4 n @ r) = Some (n, r)"
  using hex_digits_value [of n] by (simp add: unhex4_def hex4_def)

lemma unhex4_shorter: "unhex4 s = Some (c, r) \<Longrightarrow> length r < length s"
  by (auto simp: unhex4_def split: list.splits option.splits)

lemma literal_char_unit: "c < 0x10000 \<Longrightarrow> literal_char (json_unit c @ r) = Some (c, r)"
  by (auto simp: literal_char_def json_unit_def simple_escape_def unhex4_hex4)

lemma literal_char_shorter: "literal_char s = Some (c, r) \<Longrightarrow> length r < length s"
  by (auto simp: literal_char_def split: list.splits if_splits dest!: unhex4_shorter)

interpretation literal: char_codec json_unit literal_char literal_end "\<lambda>c. c < 0x10000"
proof unfold_locales
  show "c < 0x10000 \<Longrightarrow> literal_char (json_unit c @ r) = Some (c, r)" for c r
    by (rule literal_char_unit)
  show "c < 0x10000 \<Longrightarrow> literal_end (json_unit c @ r) = None" for c r
    by (simp add: literal_end_def json_unit_def)
  show "literal_char bs = Some (c, r) \<Longrightarrow> length r < length bs" for bs c r
    by (rule literal_char_shorter)
  show "literal_end bs = Some r \<Longrightarrow> length r \<le> length bs" for bs r
    by (auto simp: literal_end_def split: list.splits if_splits)
qed

definition is_code_point :: "nat \<Rightarrow> bool" where
  "is_code_point c \<longleftrightarrow> c < 0x110000"

lemma utf16_units_lt: "is_code_point c \<Longrightarrow> u \<in> set (utf16_units c) \<Longrightarrow> u < 0x10000"
  by (auto simp: utf16_units_def is_code_point_def split: if_splits)

lemma utf16_bmp: "list_all (\<lambda>c. c < 0x10000) s \<Longrightarrow> utf16 s = s"
  by (induction s) (simp_all add: utf16_def utf16_units_def)

text \<open>The interpreter reads a JSON string as the UTF-16 units of the text, and stops at its end.\<close>

lemma read_literal_json_str:
  assumes "list_all is_code_point s"
  shows "read_literal (json_str s @ t) = Some (utf16 s, t)"
proof -
  let ?us = "utf16 s"
  have g: "list_all (\<lambda>c. c < 0x10000) ?us"
    using assms utf16_units_lt by (auto simp: utf16_def list_all_iff)
  have e: "literal_end (34 # t) = Some t" by (simp add: literal_end_def)
  have "length ?us \<le> length (concat (map json_unit ?us) @ 34 # t)"
    using literal.length_enc_ge [OF g] by simp
  from literal.read_all_enc [OF g e this] show ?thesis
    by (simp add: read_literal_def json_str_def del: read_all.simps)
qed

subsection \<open>The output is ASCII and of bounded length\<close>

lemma is_ascii_hex4 [simp]: "is_ascii (hex4 n)"
proof -
  have "hex_digit (d mod 16) < 128" for d
    using mod_less_divisor [of 16 d] unfolding hex_digit_def by simp linarith
  then show ?thesis by (simp add: hex4_def)
qed

lemma is_ascii_json_unit [simp]: "is_ascii (json_unit c)"
  by (simp add: json_unit_def)

lemma is_ascii_concat: "(\<And>x. x \<in> set xs \<Longrightarrow> is_ascii (f x)) \<Longrightarrow> is_ascii (concat (map f xs))"
  by (induction xs) auto

lemma is_ascii_json_str [simp]: "is_ascii (json_str s)"
  by (simp add: json_str_def is_ascii_concat)

lemma length_json_unit: "length (json_unit c) \<le> 6"
  by (simp add: json_unit_def hex4_def)

lemma length_json_code_point:
  "length (concat (map json_unit (utf16_units c))) \<le> 6 * length (utf8_units c)"
proof (cases "c < 0x10000")
  case True
  then show ?thesis
    using length_json_unit [of c] length_utf8_units(1) [of c]
    by (simp add: utf16_units_def)
next
  case False
  then show ?thesis
    using length_json_unit [of "0xD800 + (c - 0x10000) div 1024"]
      length_json_unit [of "0xDC00 + (c - 0x10000) mod 1024"]
    by (simp add: utf16_units_def utf8_units_def)
qed

lemma length_json_str:
  "length (json_str s) \<le> 6 * length (concat (map utf8_units s)) + 2"
proof -
  have "length (concat (map json_unit (utf16 s))) \<le> 6 * length (concat (map utf8_units s))"
  proof (induction s)
    case (Cons c s)
    then show ?case using length_json_code_point [of c] by (simp add: utf16_def)
  qed (simp add: utf16_def)
  then show ?thesis by (simp add: json_str_def)
qed

end
