(* ===== verification/Schemas.thy ===== *)
theory Schemas
  imports PyJson
begin

text \<open>
  The request and response models of the API (\<^verbatim>\<open>app/api/schemas.py\<close>): a record per model, the
  declared constraints of the fields as a predicate on a request, and the dumps of the response
  models as JSON values, field by field in declaration order.
\<close>

section \<open>Requests\<close>

record RunParams =
  sandbox_timeout_s :: "int option"

record RunRequest =
  rq_task :: pystr
  rq_params :: RunParams
  rq_tenant_id :: pystr
  rq_idempotency_key :: "pystr option"

text \<open>\<^verbatim>\<open>^[a-z0-9][a-z0-9-]*$\<close>.\<close>

definition tenant_char :: "nat \<Rightarrow> bool" where
  "tenant_char c \<longleftrightarrow> 97 \<le> c \<and> c \<le> 122 \<or> 48 \<le> c \<and> c \<le> 57"

fun tenant_pattern :: "pystr \<Rightarrow> bool" where
  "tenant_pattern [] = False"
| "tenant_pattern (c # cs) = (tenant_char c \<and> list_all (\<lambda>x. tenant_char x \<or> x = 45) cs)"

definition valid_RunParams :: "RunParams \<Rightarrow> bool" where
  "valid_RunParams p \<longleftrightarrow>
     (case sandbox_timeout_s p of None \<Rightarrow> True | Some t \<Rightarrow> 1 \<le> t \<and> t \<le> 120)"

definition valid_RunRequest :: "RunRequest \<Rightarrow> bool" where
  "valid_RunRequest r \<longleftrightarrow>
     1 \<le> length (rq_task r) \<and> length (rq_task r) \<le> 8192
     \<and> valid_RunParams (rq_params r)
     \<and> 1 \<le> length (rq_tenant_id r) \<and> length (rq_tenant_id r) \<le> 64
     \<and> tenant_pattern (rq_tenant_id r)
     \<and> (case rq_idempotency_key r of None \<Rightarrow> True | Some k \<Rightarrow> length k \<le> 128)"

section \<open>Responses\<close>

record RunAccepted =
  ra_run_id :: pystr
  ra_status :: pystr
  ra_tenant_id :: pystr

record StepModel =
  sm_name :: pystr
  sm_state :: pystr
  sm_detail :: "pystr option"

record SandboxModel =
  sx_runtime :: pystr
  sx_exit_code :: int
  sx_ok :: bool
  sx_failure_reason :: "pystr option"
  sx_wall_ms :: int
  sx_oom_killed :: bool
  sx_wall_clock_exceeded :: bool
  sx_truncated :: bool
  sx_stdout_tail :: pystr
  sx_stderr_tail :: pystr

record RunResultModel =
  rm_summary :: "pystr option"
  rm_code :: "pystr option"
  rm_sandbox :: "SandboxModel option"

record ErrorDetail =
  ed_code :: pystr
  ed_step :: "pystr option"
  ed_message :: pystr
  ed_retryable :: bool

record RunStatusResponse =
  rsr_run_id :: pystr
  rsr_status :: pystr
  rsr_stage :: pystr
  rsr_current_step :: "pystr option"
  rsr_completed_steps :: "pystr list"
  rsr_steps :: "StepModel list"
  rsr_result :: "RunResultModel option"
  rsr_error :: "ErrorDetail option"

section \<open>Dumps\<close>

definition JOpt :: "('a \<Rightarrow> json) \<Rightarrow> 'a option \<Rightarrow> json" where
  "JOpt f x = (case x of None \<Rightarrow> JNull | Some y \<Rightarrow> f y)"

definition dump_RunParams :: "RunParams \<Rightarrow> json" where
  "dump_RunParams p = JObj [(lit ''sandbox_timeout_s'', JOpt JInt (sandbox_timeout_s p))]"

definition dump_RunAccepted :: "RunAccepted \<Rightarrow> json" where
  "dump_RunAccepted r =
     JObj [(lit ''run_id'', JStr (ra_run_id r)), (lit ''status'', JStr (ra_status r)),
           (lit ''tenant_id'', JStr (ra_tenant_id r))]"

definition dump_StepModel :: "StepModel \<Rightarrow> json" where
  "dump_StepModel x =
     JObj [(lit ''name'', JStr (sm_name x)), (lit ''state'', JStr (sm_state x)),
           (lit ''detail'', JOpt JStr (sm_detail x))]"

definition dump_SandboxModel :: "SandboxModel \<Rightarrow> json" where
  "dump_SandboxModel x =
     JObj [(lit ''runtime'', JStr (sx_runtime x)), (lit ''exit_code'', JInt (sx_exit_code x)),
           (lit ''ok'', JBool (sx_ok x)), (lit ''failure_reason'', JOpt JStr (sx_failure_reason x)),
           (lit ''wall_ms'', JInt (sx_wall_ms x)), (lit ''oom_killed'', JBool (sx_oom_killed x)),
           (lit ''wall_clock_exceeded'', JBool (sx_wall_clock_exceeded x)),
           (lit ''truncated'', JBool (sx_truncated x)),
           (lit ''stdout_tail'', JStr (sx_stdout_tail x)),
           (lit ''stderr_tail'', JStr (sx_stderr_tail x))]"

definition dump_RunResultModel :: "RunResultModel \<Rightarrow> json" where
  "dump_RunResultModel x =
     JObj [(lit ''summary'', JOpt JStr (rm_summary x)), (lit ''code'', JOpt JStr (rm_code x)),
           (lit ''sandbox'', JOpt dump_SandboxModel (rm_sandbox x))]"

definition dump_ErrorDetail :: "ErrorDetail \<Rightarrow> json" where
  "dump_ErrorDetail x =
     JObj [(lit ''code'', JStr (ed_code x)), (lit ''step'', JOpt JStr (ed_step x)),
           (lit ''message'', JStr (ed_message x)), (lit ''retryable'', JBool (ed_retryable x))]"

definition dump_RunStatusResponse :: "RunStatusResponse \<Rightarrow> json" where
  "dump_RunStatusResponse x =
     JObj [(lit ''run_id'', JStr (rsr_run_id x)), (lit ''status'', JStr (rsr_status x)),
           (lit ''stage'', JStr (rsr_stage x)),
           (lit ''current_step'', JOpt JStr (rsr_current_step x)),
           (lit ''completed_steps'', JArr (map JStr (rsr_completed_steps x))),
           (lit ''steps'', JArr (map dump_StepModel (rsr_steps x))),
           (lit ''result'', JOpt dump_RunResultModel (rsr_result x)),
           (lit ''error'', JOpt dump_ErrorDetail (rsr_error x))]"

section \<open>Facts\<close>

lemma tenant_no_colon: "tenant_pattern t \<Longrightarrow> 58 \<notin> set t"
  by (cases t) (auto simp: tenant_char_def list_all_iff)

text \<open>A dump is one line of printable ASCII: it has no line break, whatever texts it holds.\<close>

lemma join_chars:
  "c \<in> set (join sep xs) \<Longrightarrow> c \<in> set sep \<or> (\<exists>x \<in> set xs. c \<in> set x)"
  by (induction sep xs rule: join.induct) auto

lemma hex_digit_printable: "32 \<le> hex_digit (d mod 16) \<and> hex_digit (d mod 16) \<le> 126"
  using mod_less_divisor [of 16 d] unfolding hex_digit_def by simp linarith

lemma json_unit_printable: "c \<in> set (json_unit u) \<Longrightarrow> 32 \<le> c \<and> c \<le> 126"
  using hex_digit_printable by (auto simp: json_unit_def hex4_def split: if_splits)

lemma json_str_printable: "c \<in> set (json_str s) \<Longrightarrow> 32 \<le> c \<and> c \<le> 126"
  using json_unit_printable by (auto simp: json_str_def)

lemma str_int_printable: "c \<in> set (str_int i) \<Longrightarrow> 32 \<le> c \<and> c \<le> 126"
  using str_int_chars by fastforce

lemma dumps_printable: "c \<in> set (dumps v) \<Longrightarrow> 32 \<le> c \<and> c \<le> 126"
proof (induction v arbitrary: c rule: dumps.induct)
  case (5 vs)
  then show ?case by (auto simp: lit_Cons dest!: join_chars)
next
  case (6 kvs)
  then show ?case
    by (auto simp: lit_Cons dest!: join_chars json_str_printable split: prod.splits)
qed (auto simp: lit_Cons json_str_printable str_int_printable split: if_splits)

end
