(* ===== verification/PyFloat.thy ===== *)
theory PyFloat
  imports PyJson "HOL-Library.Log_Nat"
begin

text \<open>
  Python floats are IEEE doubles.  Every finite double is an integer multiple of
  \<open>2 ^ -1074\<close>, so a \<open>pyfloat\<close> is that integer: comparison and conversion from an int are
  exact, and a sum, difference or product is the exact one rounded to 53 significant bits,
  ties to even.  Overflow to infinity is left out: the values here are clock readings and
  limits of seconds.
\<close>

type_synonym pyfloat = int

definition float_scale :: int where
  "float_scale = 2 ^ 1074"

lemma float_scale_pos [simp]: "0 < float_scale"
  by (simp add: float_scale_def)

definition round_nat :: "nat \<Rightarrow> nat" where
  "round_nat n =
     (let b = floorlog 2 n - 53; q = n div 2 ^ b; r = n mod 2 ^ b in
      if 2 * r > 2 ^ b \<or> (2 * r = 2 ^ b \<and> odd q) then (q + 1) * 2 ^ b else q * 2 ^ b)"

definition round_double :: "int \<Rightarrow> pyfloat" where
  "round_double x = sgn x * int (round_nat (nat \<bar>x\<bar>))"

definition float_of_int :: "int \<Rightarrow> pyfloat" where
  "float_of_int i = round_double (i * float_scale)"

definition fadd :: "pyfloat \<Rightarrow> pyfloat \<Rightarrow> pyfloat" where
  "fadd x y = round_double (x + y)"

definition fsub :: "pyfloat \<Rightarrow> pyfloat \<Rightarrow> pyfloat" where
  "fsub x y = round_double (x - y)"

text \<open>Multiplication by an int of at most 53 bits, which is exact as a double.\<close>

definition fmul_int :: "pyfloat \<Rightarrow> int \<Rightarrow> pyfloat" where
  "fmul_int x k = round_double (x * k)"

text \<open>\<^verbatim>\<open>int(x)\<close>: truncation towards zero.\<close>

definition int_of_float :: "pyfloat \<Rightarrow> int" where
  "int_of_float x = sgn x * (\<bar>x\<bar> div float_scale)"

section \<open>Rounding\<close>

lemma round_nat_0 [simp]: "round_nat 0 = 0"
  by (simp add: round_nat_def floorlog_def)

lemma round_double_0 [simp]: "round_double 0 = 0"
  by (simp add: round_double_def)

text \<open>The error of a rounding is at most half a unit in the last place.\<close>

lemma nearest_multiple:
  fixes q r m :: int
  assumes "0 \<le> r" and "r < m"
  shows "\<bar>(if 2 * r > m \<or> 2 * r = m \<and> odd q then (q + 1) * m else q * m) - (q * m + r)\<bar> * 2 \<le> m"
  using assms by (auto simp: distrib_right)

lemma round_nat_error:
  "\<bar>int (round_nat n) - int n\<bar> * 2 \<le> 2 ^ (floorlog 2 n - 53)"
proof -
  define m q r where "m = (2::nat) ^ (floorlog 2 n - 53)" and "q = n div m" and "r = n mod m"
  have "r < m" by (simp add: m_def r_def)
  have n: "int n = int q * int m + int r"
    unfolding q_def r_def by (metis div_mult_mod_eq of_nat_add of_nat_mult)
  have "round_nat n = (if 2 * r > m \<or> 2 * r = m \<and> odd q then (q + 1) * m else q * m)"
    by (simp add: round_nat_def Let_def m_def q_def r_def)
  then have "int (round_nat n) =
      (if 2 * int r > int m \<or> 2 * int r = int m \<and> odd (int q)
       then (int q + 1) * int m else int q * int m)"
    by (auto simp: distrib_right)
  moreover have "int m = 2 ^ (floorlog 2 n - 53)" by (simp add: m_def)
  ultimately show ?thesis
    using nearest_multiple [of "int r" "int m" "int q"] \<open>r < m\<close> unfolding n by simp
qed

lemma pow_floorlog_le: "0 < n \<Longrightarrow> 2 ^ (floorlog 2 n - 1) \<le> n"
  using floorlog_bounds [of n 2] by simp

text \<open>The relative error: at most one part in \<open>2 ^ 53\<close>.\<close>

lemma round_nat_relative:
  "\<bar>int (round_nat n) - int n\<bar> * 2 ^ 53 \<le> int n"
proof (cases "floorlog 2 n \<le> 53")
  case True
  then show ?thesis by (simp add: round_nat_def)
next
  case False
  have "n \<noteq> 0"
  proof
    assume "n = 0"
    then have "floorlog 2 n = 0" by (simp add: floorlog_def)
    with False show False by simp
  qed
  then have "0 < n" by simp
  have "\<bar>int (round_nat n) - int n\<bar> * 2 ^ 53 \<le> 2 ^ (floorlog 2 n - 53) * 2 ^ 52"
    using mult_right_mono [OF round_nat_error [of n], of "2 ^ 52"] by simp
  also have "\<dots> = 2 ^ (floorlog 2 n - 1)"
    by (subst power_add [symmetric]) (use False in simp)
  also have "\<dots> \<le> int n"
    using pow_floorlog_le [OF \<open>0 < n\<close>] by (metis of_nat_le_iff of_nat_numeral of_nat_power)
  finally show ?thesis .
qed

lemma round_double_relative:
  "\<bar>round_double x - x\<bar> * 2 ^ 53 \<le> \<bar>x\<bar>"
proof (cases "x \<ge> 0")
  case True
  then show ?thesis
    using round_nat_relative [of "nat x"] by (cases "x = 0") (auto simp: round_double_def)
next
  case False
  then show ?thesis
    using round_nat_relative [of "nat (- x)"] by (auto simp: round_double_def abs_if split: if_splits)
qed

lemma round_double_sgn_nonneg: "0 \<le> round_double x \<longleftrightarrow> 0 \<le> x"
proof -
  have "\<bar>round_double x - x\<bar> * 2 ^ 53 \<le> \<bar>x\<bar>" by (rule round_double_relative)
  then show ?thesis by (auto simp: abs_if split: if_splits)
qed

lemma round_double_le_0_iff: "round_double x \<le> 0 \<longleftrightarrow> x \<le> 0"
proof -
  have "\<bar>round_double x - x\<bar> * 2 ^ 53 \<le> \<bar>x\<bar>" by (rule round_double_relative)
  then show ?thesis by (auto simp: abs_if split: if_splits)
qed

lemma int_of_float_nonneg: "0 \<le> x \<Longrightarrow> 0 \<le> int_of_float x"
  by (cases "x = 0") (simp_all add: int_of_float_def pos_imp_zdiv_nonneg_iff)

text \<open>A value with at most 53 significant bits is not changed; so ints of that size are exact.\<close>

lemma round_nat_exact: "2 ^ (floorlog 2 n - 53) dvd n \<Longrightarrow> round_nat n = n"
  by (auto simp: round_nat_def Let_def dvd_eq_mod_eq_0)

lemma float_of_int_exact:
  assumes "0 \<le> i" and "i < 2 ^ 53"
  shows "float_of_int i = i * float_scale"
proof (cases "i = 0")
  case False
  define m where "m = nat i"
  have m: "0 < m" "m < 2 ^ 53" "i = int m"
    using assms False by (auto simp: m_def nat_less_iff)
  then have "floorlog 2 m \<le> 53" by (intro floorlog_leI) simp_all
  then have "floorlog 2 (m * 2 ^ 1074) - 53 \<le> 1074"
    using m floorlog_power [of m 2 1074] by simp
  then have "round_nat (m * 2 ^ 1074) = m * 2 ^ 1074"
    by (intro round_nat_exact dvd_mult) (rule le_imp_power_dvd)
  moreover have "nat \<bar>i * float_scale\<bar> = m * 2 ^ 1074"
    by (simp add: m float_scale_def nat_mult_distrib nat_power_eq)
  moreover have "sgn (i * float_scale) = 1" using m by simp
  ultimately show ?thesis
    unfolding float_of_int_def round_double_def by (simp add: m float_scale_def)
qed (simp add: float_of_int_def)

lemma round_double_int:
  "0 \<le> i \<Longrightarrow> i < 2 ^ 53 \<Longrightarrow> round_double (i * float_scale) = i * float_scale"
  using float_of_int_exact [of i] by (simp add: float_of_int_def)

end
