(* ===== verification/Contracts.thy ===== *)
theory Contracts
  imports PyFloat
begin

text \<open>
  The typed values shared by the API, the workflow, the activities and the sandbox
  (\<^verbatim>\<open>app/contracts.py\<close>).  Every dataclass is a record; its field names carry a prefix, since
  several classes have fields of the same name.  \<open>ok\<close> and \<open>failure_reason\<close> are computed
  from the stored fields, as the properties of the source are.
\<close>

section \<open>Run inputs and limits\<close>

record ResourceLimits =
  cpus :: pyfloat
  memory_mb :: int
  pids :: int
  wall_clock_s :: int
  output_max_bytes :: int
  tmpfs_mb :: int
  nofile :: int

text \<open>The defaults of the dataclass.\<close>

definition default_limits :: ResourceLimits where
  "default_limits =
     \<lparr>cpus = float_of_int 1, memory_mb = 256, pids = 128, wall_clock_s = 30,
      output_max_bytes = 1048576, tmpfs_mb = 64, nofile = 256\<rparr>"

record RunInput =
  ri_run_id :: pystr
  ri_tenant_id :: pystr
  ri_task :: pystr
  ri_limits :: ResourceLimits
  ri_sandbox_runtime :: pystr

section \<open>Pipeline artifacts\<close>

record Plan =
  pl_task :: pystr
  pl_directive :: pystr
  pl_steps :: "pystr list"

record RunSandboxArgs =
  rs_run_id :: pystr
  rs_tenant_id :: pystr
  rs_code :: pystr
  rs_limits :: ResourceLimits
  rs_runtime :: pystr

record SandboxResult =
  sb_runtime :: pystr
  exit_code :: int
  stdout_tail :: pystr
  stderr_tail :: pystr
  wall_ms :: int
  oom_killed :: bool
  wall_clock_exceeded :: bool
  image_digest :: "pystr option"
  truncated :: bool

definition ok :: "SandboxResult \<Rightarrow> bool" where
  "ok r \<longleftrightarrow> exit_code r = 0 \<and> \<not> oom_killed r \<and> \<not> wall_clock_exceeded r"

definition failure_reason :: "SandboxResult \<Rightarrow> pystr option" where
  "failure_reason r =
     (if ok r then None
      else if wall_clock_exceeded r then Some (lit ''wall_clock_exceeded'')
      else if oom_killed r then Some (lit ''oom_killed'')
      else Some (lit ''nonzero_exit:'' @ str_int (exit_code r)))"

record SummarizeArgs =
  sa_plan :: Plan
  sa_sandbox :: SandboxResult

section \<open>Status and result\<close>

record StepStatus =
  st_name :: pystr
  st_state :: pystr
  st_detail :: "pystr option"

record RunStatus =
  rst_run_id :: pystr
  rst_stage :: pystr
  rst_steps :: "StepStatus list"

record RunResult =
  rr_run_id :: pystr
  rr_status :: pystr
  rr_summary :: "pystr option"
  rr_code :: "pystr option"
  rr_sandbox :: "SandboxResult option"
  rr_failure_reason :: "pystr option"

definition RunResult_completed :: "pystr \<Rightarrow> pystr \<Rightarrow> pystr \<Rightarrow> SandboxResult \<Rightarrow> RunResult" where
  "RunResult_completed run_id summary code sandbox =
     \<lparr>rr_run_id = run_id, rr_status = lit ''completed'', rr_summary = Some summary,
      rr_code = Some code, rr_sandbox = Some sandbox, rr_failure_reason = None\<rparr>"

definition RunResult_failed ::
  "pystr \<Rightarrow> pystr \<Rightarrow> SandboxResult option \<Rightarrow> pystr option \<Rightarrow> RunResult" where
  "RunResult_failed run_id reason sandbox code =
     \<lparr>rr_run_id = run_id, rr_status = lit ''failed'', rr_summary = None,
      rr_code = code, rr_sandbox = sandbox, rr_failure_reason = Some reason\<rparr>"

section \<open>Facts\<close>

lemma failure_reason_None_iff [simp]: "failure_reason r = None \<longleftrightarrow> ok r"
  by (simp add: failure_reason_def)

text \<open>The number behind a reason of the third kind can be read back: the prefix has no digit
  after the colon to confuse it with.\<close>

lemma nonzero_exit_reason_inject:
  "lit ''nonzero_exit:'' @ str_int i = lit ''nonzero_exit:'' @ str_int j \<longleftrightarrow> i = j"
  by simp

text \<open>
  The failure reason is a faithful verdict on a sandbox outcome: there is none exactly when
  the program exited with 0 and was neither killed for memory nor for time; otherwise the
  wall clock takes precedence over the memory kill, which takes precedence over the exit code,
  and each of the three texts names exactly its own cause.
\<close>

theorem failure_reason_verdict:
  "(failure_reason r = None) = (exit_code r = 0 \<and> \<not> oom_killed r \<and> \<not> wall_clock_exceeded r)
   \<and> (failure_reason r = Some (lit ''wall_clock_exceeded'')) = wall_clock_exceeded r
   \<and> (failure_reason r = Some (lit ''oom_killed'')) = (oom_killed r \<and> \<not> wall_clock_exceeded r)
   \<and> (failure_reason r = Some (lit ''nonzero_exit:'' @ str_int n))
       = (exit_code r = n \<and> n \<noteq> 0 \<and> \<not> oom_killed r \<and> \<not> wall_clock_exceeded r)"
  by (auto simp: failure_reason_def ok_def lit_Cons)

end
