(* ===== verification/Codegen.thy ===== *)
theory Codegen
  imports Contracts
begin

text \<open>
  The deterministic stand-in for the code-generation model (\<^verbatim>\<open>app/agents/codegen.py\<close>): the
  directives, the seven program texts and \<open>generate_program\<close>, which pastes the task into the
  first of them as a JSON string.  A program text is written line by line; \<open>unlines\<close> ends each
  line with a line feed.
\<close>

definition unlines :: "pystr list \<Rightarrow> pystr" where
  "unlines ls = concat (map (\<lambda>l. l @ [10]) ls)"

lemma unlines_simps [py_eval]:
  "unlines [] = []"
  "unlines (l # ls) = l @ 10 # unlines ls"
  by (simp_all add: unlines_def)

lemma is_ascii_unlines: "is_ascii (unlines ls) \<longleftrightarrow> list_all is_ascii ls"
  by (induction ls) (auto simp: unlines_def)

definition DIRECTIVES :: "pystr list" where
  "DIRECTIVES =
     [lit ''normal'', lit ''fail'', lit ''hang'', lit ''oom'', lit ''net'', lit ''fork'',
      lit ''bigout'']"

definition NORMAL_program :: pystr where
  \<open>NORMAL_program = unlines
     [lit ''import json, hashlib'',
      lit ''TASK = {task}'',
      lit ''result = {{'',
      lit ''    "task_len": len(TASK),'',
      lit ''    "word_count": len(TASK.split()),'',
      lit ''    "sha256": hashlib.sha256(TASK.encode()).hexdigest(),'',
      lit ''}}'',
      lit ''print(json.dumps(result))'']\<close>

definition FAIL_program :: pystr where
  \<open>FAIL_program = unlines
     [lit ''import sys'',
      lit ''print("intentional failure (directive=fail)")'',
      lit ''sys.exit(3)'']\<close>

definition HANG_program :: pystr where
  \<open>HANG_program = unlines
     [lit ''# Spin forever; the sandbox wall-clock must kill this.'',
      lit ''while True:'',
      lit ''    pass'']\<close>

definition OOM_program :: pystr where
  \<open>OOM_program = unlines
     [lit ''# Grow memory until the cgroup OOM-killer fires.'',
      lit ''buf = bytearray()'',
      lit ''chunk = bytes(10 * 1024 * 1024)'',
      lit ''while True:'',
      lit ''    buf += chunk'']\<close>

definition NET_program :: pystr where
  \<open>NET_program = unlines
     [lit ''# Attempt egress; the sandbox has NO network interface, so this must fail.'',
      lit ''# Fail CLOSED: if the connection ever succeeds, exit non-zero so a broken isolation'',
      lit ''# surfaces as a FAILED run (not an ok run), not merely a printed warning.'',
      lit ''import socket, sys'',
      lit ''try:'',
      lit ''    s = socket.create_connection(("1.1.1.1", 80), timeout=5)'',
      lit ''    print("NETWORK REACHABLE - ISOLATION FAILED")'',
      lit ''    s.close()'',
      lit ''    sys.exit(99)'',
      lit ''except OSError as e:'',
      lit ''    print("network blocked:", e)'',
      lit ''    sys.exit(42)'']\<close>

definition FORK_program :: pystr where
  \<open>FORK_program = unlines
     [lit ''# Try to exceed the PID cap; the limit must contain this.'',
      lit ''import os, sys, time'',
      lit ''children = []'',
      lit ''try:'',
      lit ''    for _ in range(1000):'',
      lit ''        pid = os.fork()'',
      lit ''        if pid == 0:'',
      lit ''            time.sleep(60)'',
      lit ''            os._exit(0)'',
      lit ''        children.append(pid)'',
      lit ''except OSError as e:'',
      lit ''    print("pid limit hit:", e)'',
      lit ''    sys.exit(7)'',
      lit ''print("forked", len(children))'',
      lit ''sys.exit(0)'']\<close>

definition BIGOUT_program :: pystr where
  \<open>BIGOUT_program = unlines
     [lit ''# Emit more than the output cap; the runner must truncate.'',
      lit ''import sys'',
      lit ''line = "A" * 1024'',
      lit ''for _ in range(5000):'',
      lit ''    sys.stdout.write(line)'',
      lit ''sys.stdout.write("'' @ [92] @ lit ''n")'']\<close>

definition TEMPLATES :: "(pystr \<times> pystr) list" where
  "TEMPLATES =
     [(lit ''fail'', FAIL_program), (lit ''hang'', HANG_program), (lit ''oom'', OOM_program),
      (lit ''net'', NET_program), (lit ''fork'', FORK_program), (lit ''bigout'', BIGOUT_program)]"

definition generate_program :: "pystr \<Rightarrow> pystr \<Rightarrow> pystr result" where
  "generate_program directive task =
     (if directive = lit ''normal'' then
        py_format [lit ''task'' \<mapsto> json_str task] NORMAL_program
      else
        (case map_of TEMPLATES directive of
           None \<Rightarrow> Inl (KeyError directive)
         | Some t \<Rightarrow> Inr t))"

section \<open>The normal program around the pasted task\<close>

definition NORMAL_head :: pystr where
  \<open>NORMAL_head = unlines [lit ''import json, hashlib''] @ lit ''TASK = ''\<close>

definition NORMAL_tail :: pystr where
  \<open>NORMAL_tail = [10] @ unlines
     [lit ''result = {'',
      lit ''    "task_len": len(TASK),'',
      lit ''    "word_count": len(TASK.split()),'',
      lit ''    "sha256": hashlib.sha256(TASK.encode()).hexdigest(),'',
      lit ''}'',
      lit ''print(json.dumps(result))'']\<close>

lemma py_format_plain:
  "123 \<notin> set p \<Longrightarrow> 125 \<notin> set p \<Longrightarrow>
     py_format args (p @ s) = rmap (append p) (py_format args s)"
proof (induction p)
  case Nil
  then show ?case by (cases "py_format args s") simp_all
next
  case (Cons c p)
  then show ?case by (cases "py_format args s") (auto simp: py_format.simps)
qed

lemma py_format_NORMAL:
  "py_format [lit ''task'' \<mapsto> v] NORMAL_program = Inr (NORMAL_head @ v @ NORMAL_tail)"
  by (simp add: NORMAL_program_def NORMAL_head_def NORMAL_tail_def py_eval
      split1_fst_def split1_snd_def)

lemma generate_program_normal [simp]:
  "generate_program (lit ''normal'') task = Inr (NORMAL_head @ json_str task @ NORMAL_tail)"
  by (simp add: generate_program_def py_format_NORMAL)

lemma is_ascii_programs [simp]:
  "is_ascii NORMAL_head" "is_ascii NORMAL_tail" "is_ascii FAIL_program" "is_ascii HANG_program"
  "is_ascii OOM_program" "is_ascii NET_program" "is_ascii FORK_program" "is_ascii BIGOUT_program"
  by (simp_all add: NORMAL_head_def NORMAL_tail_def FAIL_program_def HANG_program_def
      OOM_program_def NET_program_def FORK_program_def BIGOUT_program_def
      is_ascii_unlines py_eval)

text \<open>The templates in the table, by their directive.\<close>

lemma TEMPLATES_cases:
  "map_of TEMPLATES d = Some t \<longleftrightarrow>
     (d, t) \<in> {(lit ''fail'', FAIL_program), (lit ''hang'', HANG_program),
               (lit ''oom'', OOM_program), (lit ''net'', NET_program),
               (lit ''fork'', FORK_program), (lit ''bigout'', BIGOUT_program)}"
  by (auto simp: TEMPLATES_def)

lemma TEMPLATES_None:
  "d \<noteq> lit ''normal'' \<Longrightarrow> map_of TEMPLATES d = None \<longleftrightarrow> d \<notin> set DIRECTIVES"
  by (auto simp: TEMPLATES_def DIRECTIVES_def)

lemma generate_program_cases:
  assumes "generate_program d task = Inr p"
  obtains (normal) "d = lit ''normal''" "p = NORMAL_head @ json_str task @ NORMAL_tail"
  | (template) "d \<noteq> lit ''normal''" "map_of TEMPLATES d = Some p"
  using assms
  by (cases "d = lit ''normal''") (auto simp: generate_program_def py_format_NORMAL split: option.splits)

lemma length_programs:
  "length NORMAL_head + length NORMAL_tail \<le> 512"
  "map_of TEMPLATES d = Some t \<Longrightarrow> length t \<le> 512"
  by (auto simp: TEMPLATES_cases NORMAL_head_def NORMAL_tail_def FAIL_program_def HANG_program_def
      OOM_program_def NET_program_def FORK_program_def BIGOUT_program_def unlines_def)

lemma generate_program_known: "d \<in> set DIRECTIVES \<Longrightarrow> \<exists>p. generate_program d task = Inr p"
  using TEMPLATES_None by (cases "d = lit ''normal''")
    (auto simp: generate_program_def py_format_NORMAL split: option.split)

lemma generated_bounds:
  assumes "generate_program d task = Inr p"
  shows "is_ascii p \<and> length p \<le> 6 * length (concat (map utf8_units task)) + 514"
  using assms
proof (cases rule: generate_program_cases)
  case normal
  then show ?thesis using length_json_str [of task] length_programs(1) by simp
next
  case template
  then show ?thesis
    using length_programs(2) [of d p] by (auto simp: TEMPLATES_cases)
qed

section \<open>Properties\<close>

text \<open>
  Program generation is defined on exactly the listed directives: for each of them it
  returns a program whatever the task is, and for any other text it raises the \<open>KeyError\<close> of
  the template table.
\<close>

theorem generate_program_total:
  "(case generate_program d task of
      Inr p \<Rightarrow> d \<in> set DIRECTIVES
    | Inl e \<Rightarrow> d \<notin> set DIRECTIVES \<and> e = KeyError d)"
proof (cases "d = lit ''normal''")
  case True
  then show ?thesis by (simp add: DIRECTIVES_def)
next
  case False
  then show ?thesis
    using TEMPLATES_None [OF False] by (auto simp: generate_program_def split: option.splits)
qed

text \<open>
  C25. The task cannot break out of its string literal.  The normal program is a fixed head, a
  literal and a fixed tail; an interpreter that reads the literal after the head consumes
  exactly the pasted text, gets the UTF-16 units of the task as its value and goes on with the
  fixed tail, for every task made of code points, with quotes, backslashes and line breaks.
\<close>

theorem task_literal_contained:
  assumes "list_all is_code_point task"
  shows "\<exists>p. generate_program (lit ''normal'') task = Inr p
      \<and> take (length NORMAL_head) p = NORMAL_head
      \<and> read_literal (drop (length NORMAL_head) p) = Some (utf16 task, NORMAL_tail)"
  using assms by (simp add: read_literal_json_str)

theorem task_literal_contained_witness:
  "list_all is_code_point [34, 41, 92, 10, 0x1F600]
   \<and> (\<exists>p. generate_program (lit ''normal'') [34, 41, 92, 10, 0x1F600] = Inr p
      \<and> take (length NORMAL_head) p = NORMAL_head
      \<and> read_literal (drop (length NORMAL_head) p)
          = Some (utf16 [34, 41, 92, 10, 0x1F600], NORMAL_tail))"
proof
  show h: "list_all is_code_point [34, 41, 92, 10, 0x1F600]"
    by (simp add: is_code_point_def)
  show "\<exists>p. generate_program (lit ''normal'') [34, 41, 92, 10, 0x1F600] = Inr p
      \<and> take (length NORMAL_head) p = NORMAL_head
      \<and> read_literal (drop (length NORMAL_head) p)
          = Some (utf16 [34, 41, 92, 10, 0x1F600], NORMAL_tail)"
    by (rule task_literal_contained [OF h])
qed

lemma utf16_has_surrogate:
  assumes "c \<in> set s" and "0x10000 \<le> c" and "c < 0x110000"
  shows "\<not> list_all is_scalar (utf16 s)"
proof -
  have "0xD800 + (c - 0x10000) div 1024 \<in> set (utf16 s)"
    using assms by (force simp: utf16_def utf16_units_def)
  moreover have "(c - 0x10000) div 1024 < 1024"
    using assms by (simp add: less_mult_imp_div_less)
  then have "\<not> is_scalar (0xD800 + (c - 0x10000) div 1024)"
    by (simp add: is_scalar_def is_surrogate_def)
  ultimately show ?thesis by (auto simp only: list_all_iff)
qed

text \<open>
  C35. The value that the normal program gives to \<^verbatim>\<open>TASK\<close> is the task, and its statement
  \<^verbatim>\<open>TASK.encode()\<close> succeeds, exactly when the task stays within the basic multilingual plane.
  A task with a code point beyond it (an emoji) reaches the program as two surrogates, so the
  program raises \<open>UnicodeEncodeError\<close> instead of printing its result.
\<close>

theorem normal_program_encodes_task:
  assumes "list_all is_scalar task"
  shows "\<exists>p v. generate_program (lit ''normal'') task = Inr p
      \<and> read_literal (drop (length NORMAL_head) p) = Some (v, NORMAL_tail)
      \<and> (v = task) = list_all (\<lambda>c. c < 0x10000) task
      \<and> (utf8_encode v = Inl UnicodeEncodeError) = (\<not> list_all (\<lambda>c. c < 0x10000) task)"
proof -
  have cp: "list_all is_code_point task"
    using assms by (auto simp: list_all_iff is_code_point_def is_scalar_def)
  have enc: "utf8_encode (utf16 task) = Inl UnicodeEncodeError \<longleftrightarrow> \<not> list_all is_scalar (utf16 task)"
    by (simp add: utf8_encode_def)
  show ?thesis
  proof (cases "list_all (\<lambda>c. c < 0x10000) task")
    case True
    with assms enc cp show ?thesis by (simp add: utf16_bmp read_literal_json_str)
  next
    case False
    then obtain c where "c \<in> set task" "0x10000 \<le> c" "c < 0x110000"
      using assms by (auto simp: list_all_iff is_scalar_def)
    then have "\<not> list_all is_scalar (utf16 task)" by (rule utf16_has_surrogate)
    with assms enc cp False show ?thesis by (auto simp: read_literal_json_str)
  qed
qed

theorem normal_program_encodes_task_witness:
  "list_all is_scalar [104, 105, 0x1F600]
   \<and> \<not> list_all (\<lambda>c. c < 0x10000) [104, 105, 0x1F600::nat]
   \<and> (\<exists>p v. generate_program (lit ''normal'') [104, 105, 0x1F600] = Inr p
      \<and> read_literal (drop (length NORMAL_head) p) = Some (v, NORMAL_tail)
      \<and> v \<noteq> [104, 105, 0x1F600] \<and> utf8_encode v = Inl UnicodeEncodeError)"
proof -
  have h: "list_all is_scalar [104, 105, 0x1F600]"
    by (simp add: is_scalar_def is_surrogate_def)
  have b: "\<not> list_all (\<lambda>c. c < 0x10000) [104, 105, 0x1F600::nat]" by simp
  show ?thesis using normal_program_encodes_task [OF h] h b by blast
qed

text \<open>
  A generated program is pure ASCII, so the activity's bound on the number of characters is
  a bound on bytes, and its length is at most six times the UTF-8 length of the task plus a
  constant.
\<close>

theorem generate_program_size:
  assumes "generate_program d task = Inr p"
  shows "is_ascii p \<and> length p \<le> 6 * length (concat (map utf8_units task)) + 514"
  using assms by (rule generated_bounds)

theorem generate_program_size_witness:
  "generate_program (lit ''hang'') [] = Inr HANG_program
   \<and> is_ascii HANG_program \<and> length HANG_program \<le> 6 * length (concat (map utf8_units [])) + 514"
proof -
  have h: "generate_program (lit ''hang'') [] = Inr HANG_program"
    by (simp add: generate_program_def TEMPLATES_def)
  show ?thesis using h generate_program_size [OF h] by blast
qed

end
