(* ===== verification/Pipeline.thy ===== *)
theory Pipeline
  imports Codegen
begin

text \<open>
  The pure transforms of the pipeline (\<^verbatim>\<open>app/agents/pipeline.py\<close>): the directive named in a
  task, the plan, the program and the summary.  The argument \<open>tab\<close> is the interpreter's
  lower-case table for code points outside ASCII.
\<close>

text \<open>The loop of \<open>parse_directive\<close> over the directives, on the lowered task.\<close>

fun find_directive :: "pystr \<Rightarrow> pystr list \<Rightarrow> pystr" where
  "find_directive low [] = lit ''normal''"
| "find_directive low (d # ds) =
     (if d = lit ''normal'' then find_directive low ds
      else if py_in (lit ''['' @ d @ lit '']'') low \<or> py_in (lit ''directive:'' @ d) low then d
      else find_directive low ds)"

definition parse_directive :: "case_table \<Rightarrow> pystr \<Rightarrow> pystr" where
  "parse_directive tab task = find_directive (lower tab task) DIRECTIVES"

definition plan :: "case_table \<Rightarrow> pystr \<Rightarrow> Plan" where
  "plan tab task =
     (let directive = parse_directive tab task in
      \<lparr>pl_task = task, pl_directive = directive,
       pl_steps =
         [lit ''analyze task'',
          lit ''emit '' @ [39] @ directive @ [39] @ lit '' program'',
          lit ''execute in sandbox'',
          lit ''summarize result'']\<rparr>)"

definition generate_code :: "Plan \<Rightarrow> pystr result" where
  "generate_code p = generate_program (pl_directive p) (pl_task p)"

text \<open>\<^verbatim>\<open>text.strip().replace("\n", " ")[:500]\<close>.\<close>

definition one_line :: "pystr \<Rightarrow> pystr" where
  "one_line s = take 500 (replace1 10 32 (strip s))"

text \<open>An optional text as it appears in a formatted string.\<close>

definition str_opt :: "pystr option \<Rightarrow> pystr" where
  "str_opt s = (case s of None \<Rightarrow> lit ''None'' | Some t \<Rightarrow> t)"

definition summarize :: "SummarizeArgs \<Rightarrow> pystr" where
  "summarize args =
     (let s = sa_sandbox args; head = one_line (stdout_tail s) in
      if ok s then
        lit ''Run completed (directive='' @ pl_directive (sa_plan args) @ lit '', exit=0, '' @
        str_int (wall_ms s) @ lit ''ms via '' @ sb_runtime s @ lit ''). Output: '' @ head
      else
        lit ''Run failed (directive='' @ pl_directive (sa_plan args) @ lit '', reason='' @
        str_opt (failure_reason s) @ lit '', exit='' @ str_int (exit_code s) @ lit '', '' @
        str_int (wall_ms s) @ lit ''ms via '' @ sb_runtime s @ lit ''). Stderr: '' @
        one_line (stderr_tail s))"

section \<open>Directives\<close>

definition marker :: "pystr \<Rightarrow> pystr \<Rightarrow> bool" where
  "marker d low \<longleftrightarrow> py_in (lit ''['' @ d @ lit '']'') low \<or> py_in (lit ''directive:'' @ d) low"

lemma find_directive_filter:
  "find_directive low ds =
     (case filter (\<lambda>d. d \<noteq> lit ''normal'' \<and> marker d low) ds of
        [] \<Rightarrow> lit ''normal'' | d # _ \<Rightarrow> d)"
  by (induction ds) (auto simp: marker_def)

lemma find_directive_earliest:
  "d \<in> set ds \<Longrightarrow> d \<noteq> lit ''normal'' \<Longrightarrow> marker d low \<Longrightarrow>
     find_directive low ds \<noteq> lit ''normal''
     \<and> find_directive low ds \<in> set (takeWhile (\<lambda>x. x \<noteq> d) ds @ [d])"
  by (induction ds) (auto simp: marker_def)

lemma parse_directive_in: "parse_directive tab task \<in> set DIRECTIVES"
proof -
  have n: "lit ''normal'' \<in> set DIRECTIVES" by (simp add: DIRECTIVES_def)
  have "find_directive low ds \<in> insert (lit ''normal'') (set ds)" for low ds
    by (induction ds) auto
  with n show ?thesis unfolding parse_directive_def by (metis insertE)
qed

lemma is_ascii_directive: "d \<in> set DIRECTIVES \<Longrightarrow> is_ascii d \<and> map ascii_lower d = d"
  by (auto simp: DIRECTIVES_def py_eval ascii_lower_def)

text \<open>A marker written in the task in any mixture of cases is seen in the lowered task.\<close>

lemma marker_in_task:
  assumes "map ascii_lower m = lit ''['' @ d @ lit '']'' \<or> map ascii_lower m = lit ''directive:'' @ d"
    and "is_ascii m"
  shows "marker d (lower tab (s @ m @ t))"
  using assms(1) py_in_lower_middle [OF assms(2), of tab s t] by (auto simp: marker_def)

lemma plan_simps [simp]:
  "pl_task (plan tab task) = task"
  "pl_directive (plan tab task) = parse_directive tab task"
  "length (pl_steps (plan tab task)) = 4"
  by (simp_all add: plan_def Let_def)

section \<open>Summaries\<close>

lemma one_line_bounds: "length (one_line s) \<le> 500" "10 \<notin> set (one_line s)"
  using replace1_notin [of 10 32 "strip s"] by (auto simp: one_line_def dest: in_set_takeD)

lemma no_newline_str_int [simp]: "10 \<notin> set (str_int i)"
  using str_int_chars by fastforce

lemma no_newline_failure_reason: "10 \<notin> set (str_opt (failure_reason s))"
  by (auto simp: failure_reason_def str_opt_def py_eval)

section \<open>Properties\<close>

text \<open>
  The directive of a task is the first one, in the fixed order, whose bracketed or
  prefixed marker occurs in the lowered task, and \<^verbatim>\<open>normal\<close> when none occurs; the word
  \<^verbatim>\<open>normal\<close> itself is never looked for.
\<close>

theorem parse_directive_first_marked:
  "parse_directive tab task =
     (case filter (\<lambda>d. marker d (lower tab task))
             [lit ''fail'', lit ''hang'', lit ''oom'', lit ''net'', lit ''fork'', lit ''bigout''] of
        [] \<Rightarrow> lit ''normal'' | d # _ \<Rightarrow> d)"
  by (simp add: parse_directive_def find_directive_filter DIRECTIVES_def)

text \<open>
  A marker is recognised in any mixture of upper and lower case, wherever it stands in the
  task and whatever text outside ASCII surrounds it: the task is then given that directive or
  one earlier in the order, and never runs as a normal task.
\<close>

theorem directive_marker_recognised:
  assumes "d \<in> set DIRECTIVES" and "d \<noteq> lit ''normal''" and "is_ascii m"
    and "map ascii_lower m = lit ''['' @ d @ lit '']'' \<or> map ascii_lower m = lit ''directive:'' @ d"
  shows "parse_directive tab (s @ m @ t) \<noteq> lit ''normal''
    \<and> parse_directive tab (s @ m @ t) \<in> set (takeWhile (\<lambda>x. x \<noteq> d) DIRECTIVES @ [d])"
  unfolding parse_directive_def
  by (rule find_directive_earliest [OF assms(1,2) marker_in_task [OF assms(4,3)]])

theorem directive_marker_recognised_witness:
  "parse_directive (\<lambda>b c a. [c]) ([0xE9, 32] @ lit ''[Oom]'' @ lit '' now'') \<noteq> lit ''normal''
   \<and> parse_directive (\<lambda>b c a. [c]) ([0xE9, 32] @ lit ''[Oom]'' @ lit '' now'')
      \<in> set (takeWhile (\<lambda>x. x \<noteq> lit ''oom'') DIRECTIVES @ [lit ''oom''])"
  by (rule directive_marker_recognised)
    (simp_all add: DIRECTIVES_def py_eval ascii_lower_def)

text \<open>
  The agent steps before the sandbox cannot fail on any task: planning keeps the task and
  emits four steps, its directive is one of the listed ones, and the code step turns the plan
  into a program without raising.
\<close>

theorem agent_steps_total:
  "\<exists>p. generate_code (plan tab task) = Inr p
     \<and> pl_task (plan tab task) = task
     \<and> pl_directive (plan tab task) \<in> set DIRECTIVES
     \<and> length (pl_steps (plan tab task)) = 4"
proof -
  have "generate_code (plan tab task) = Inl e \<Longrightarrow> False" for e
    using generate_program_total [of "parse_directive tab task" task]
      parse_directive_in [of tab task] by (auto simp: generate_code_def)
  then show ?thesis
    using parse_directive_in [of tab task] by (cases "generate_code (plan tab task)") auto
qed

text \<open>
  A summary is one line with a bounded quotation: when neither the directive nor the name of
  the runtime contains a line feed, the summary contains none, whatever the program printed, it
  ends in at most 500 characters of program output, and it says that the run completed exactly
  when the sandbox outcome is ok.
\<close>

theorem summary_one_line:
  assumes "10 \<notin> set (pl_directive (sa_plan a))" and "10 \<notin> set (sb_runtime (sa_sandbox a))"
  shows "10 \<notin> set (summarize a)
    \<and> prefix (lit ''Run completed'') (summarize a) = ok (sa_sandbox a)
    \<and> (\<exists>p q. summarize a = p @ q \<and> length q \<le> 500
          \<and> q = one_line ((if ok (sa_sandbox a) then stdout_tail else stderr_tail) (sa_sandbox a)))"
proof (intro conjI)
  show "10 \<notin> set (summarize a)"
    using assms no_newline_failure_reason [of "sa_sandbox a"]
    by (auto simp: summarize_def Let_def one_line_bounds py_eval)
  show "prefix (lit ''Run completed'') (summarize a) = ok (sa_sandbox a)"
    by (simp add: summarize_def Let_def py_eval)
  show "\<exists>p q. summarize a = p @ q \<and> length q \<le> 500
      \<and> q = one_line ((if ok (sa_sandbox a) then stdout_tail else stderr_tail) (sa_sandbox a))"
    by (rule exI [of _ "take (length (summarize a)
          - length (one_line ((if ok (sa_sandbox a) then stdout_tail else stderr_tail) (sa_sandbox a))))
          (summarize a)"])
      (simp add: summarize_def Let_def one_line_bounds)
qed

definition sample_result :: SandboxResult where
  "sample_result =
     \<lparr>sb_runtime = lit ''runsc'', exit_code = 3, stdout_tail = lit ''out'',
      stderr_tail = lit ''boom'', wall_ms = 12, oom_killed = False, wall_clock_exceeded = False,
      image_digest = None, truncated = False\<rparr>"

theorem summary_one_line_witness:
  "10 \<notin> set (summarize \<lparr>sa_plan = plan (\<lambda>b c a. [c]) (lit ''hello''), sa_sandbox = sample_result\<rparr>)"
proof -
  let ?a = "\<lparr>sa_plan = plan (\<lambda>b c a. [c]) (lit ''hello''), sa_sandbox = sample_result\<rparr>"
  have 1: "10 \<notin> set (pl_directive (sa_plan ?a))"
    using parse_directive_in [of "\<lambda>b c a. [c]" "lit ''hello''"]
    by (auto simp: DIRECTIVES_def py_eval)
  have 2: "10 \<notin> set (sb_runtime (sa_sandbox ?a))"
    by (simp add: sample_result_def py_eval)
  show ?thesis using summary_one_line [OF 1 2] by blast
qed

end
