(* ===== verification/Config.thy ===== *)
theory Config
  imports Contracts
begin

text \<open>
  The settings of the service (\<^verbatim>\<open>app/config.py\<close>): the record of all settings with the
  defaults of the class, the limits built from it, and the cached accessor.  How the settings
  class reads the environment and the \<^verbatim>\<open>.env\<close> file belongs to pydantic-settings and is the
  argument \<open>load\<close> of the accessor.
\<close>

record Settings =
  api_bearer_token :: pystr
  max_task_bytes :: int
  max_code_bytes :: int
  temporal_host :: pystr
  temporal_namespace :: pystr
  task_queue :: pystr
  workflow_run_timeout_s :: int
  agent_start_to_close_s :: int
  sandbox_start_to_close_s :: int
  sandbox_heartbeat_s :: int
  schedule_to_start_s :: int
  max_attempts :: int
  sandbox_runtime :: pystr
  sandbox_image :: pystr
  sandbox_cpus :: pyfloat
  sandbox_memory_mb :: int
  sandbox_pids :: int
  sandbox_wall_clock_s :: int
  sandbox_output_max_bytes :: int
  sandbox_tmpfs_mb :: int
  sandbox_nofile :: int
  sandbox_seccomp_path :: pystr
  sandbox_share_dir :: pystr
  otel_exporter_otlp_endpoint :: pystr
  otel_service_name :: pystr
  trace_payloads :: bool
  log_level :: pystr

definition default_settings :: Settings where
  "default_settings =
     \<lparr>api_bearer_token = lit ''dev-token-change-me'',
      max_task_bytes = 8192,
      max_code_bytes = 262144,
      temporal_host = lit ''temporal:7233'',
      temporal_namespace = lit ''default'',
      task_queue = lit ''agent-pipeline'',
      workflow_run_timeout_s = 300,
      agent_start_to_close_s = 10,
      sandbox_start_to_close_s = 60,
      sandbox_heartbeat_s = 10,
      schedule_to_start_s = 30,
      max_attempts = 3,
      sandbox_runtime = lit ''runsc'',
      sandbox_image = lit ''sandbox-runner:pinned'',
      sandbox_cpus = float_of_int 1,
      sandbox_memory_mb = 256,
      sandbox_pids = 128,
      sandbox_wall_clock_s = 30,
      sandbox_output_max_bytes = 1048576,
      sandbox_tmpfs_mb = 64,
      sandbox_nofile = 256,
      sandbox_seccomp_path = [],
      sandbox_share_dir = [],
      otel_exporter_otlp_endpoint = lit ''http://otel-collector:4317'',
      otel_service_name = lit ''agent-sandbox'',
      trace_payloads = False,
      log_level = lit ''INFO''\<rparr>"

definition resource_limits :: "Settings \<Rightarrow> ResourceLimits" where
  "resource_limits s =
     \<lparr>cpus = sandbox_cpus s, memory_mb = sandbox_memory_mb s, pids = sandbox_pids s,
      wall_clock_s = sandbox_wall_clock_s s, output_max_bytes = sandbox_output_max_bytes s,
      tmpfs_mb = sandbox_tmpfs_mb s, nofile = sandbox_nofile s\<rparr>"

text \<open>\<open>get_settings\<close> with its cache: the settings are loaded on the first call only.\<close>

definition get_settings ::
  "('env \<Rightarrow> Settings) \<Rightarrow> 'env \<Rightarrow> Settings option \<Rightarrow> Settings \<times> Settings option" where
  "get_settings load env cache =
     (case cache of
        Some s \<Rightarrow> (s, cache)
      | None \<Rightarrow> (load env, Some (load env)))"

text \<open>A sequence of calls, each in the environment of its moment.\<close>

fun get_settings_calls ::
  "('env \<Rightarrow> Settings) \<Rightarrow> 'env list \<Rightarrow> Settings option \<Rightarrow> Settings list" where
  "get_settings_calls load [] cache = []"
| "get_settings_calls load (env # envs) cache =
     (case get_settings load env cache of
        (s, cache') \<Rightarrow> s # get_settings_calls load envs cache')"

lemma get_settings_calls_cached:
  "get_settings_calls load envs (Some s) = replicate (length envs) s"
  by (induction envs) (simp_all add: get_settings_def)

lemma resource_limits_default: "resource_limits default_settings = default_limits"
  by (simp add: resource_limits_def default_settings_def default_limits_def)

text \<open>
  The settings a process sees are stable: however the environment changes between calls,
  every call returns the settings that the first call loaded, so the policies resolved from
  them at import agree with what the activities read later.
\<close>

theorem get_settings_stable:
  "get_settings_calls load (env # envs) None = replicate (Suc (length envs)) (load env)"
  by (simp add: get_settings_def get_settings_calls_cached)

end
