(* ===== verification/Effects.thy ===== *)
theory Effects
  imports PyFloat
begin

text \<open>
  Code with effects.  A computation is the list of the calls it issues to the outside, in
  order, and how it ends: it returns, it raises, or it is still pending where the description
  of the environment ends.  What the outside answers is an argument of each operation.  The
  record \<open>interp\<close> gathers what the code takes from the interpreter and its libraries.
\<close>

section \<open>The interpreter's tables and digests\<close>

record interp =
  case_tab :: case_table
  py_repr :: "pystr \<Rightarrow> pystr"
  float_str :: "pyfloat \<Rightarrow> pystr"
  sha1_hex :: "byte list \<Rightarrow> pystr"
  sha256_hex :: "byte list \<Rightarrow> pystr"

section \<open>Computations\<close>

datatype 'a outcome =
    Return 'a
  | Raise exn
  | Pending

type_synonym ('e, 'a) eff = "'e list \<times> 'a outcome"

definition ret :: "'a \<Rightarrow> ('e, 'a) eff" where
  "ret x = ([], Return x)"

definition throw :: "exn \<Rightarrow> ('e, 'a) eff" where
  "throw e = ([], Raise e)"

definition emit :: "'e \<Rightarrow> ('e, unit) eff" where
  "emit e = ([e], Return ())"

definition lift_res :: "'a result \<Rightarrow> ('e, 'a) eff" where
  "lift_res r = (case r of Inl e \<Rightarrow> throw e | Inr x \<Rightarrow> ret x)"

definition ebind :: "('e, 'a) eff \<Rightarrow> ('a \<Rightarrow> ('e, 'b) eff) \<Rightarrow> ('e, 'b) eff" where
  "ebind m f =
     (case m of
        (es, Return x) \<Rightarrow> (es @ fst (f x), snd (f x))
      | (es, Raise e) \<Rightarrow> (es, Raise e)
      | (es, Pending) \<Rightarrow> (es, Pending))"

definition eseq :: "('e, 'a) eff \<Rightarrow> ('e, 'b) eff \<Rightarrow> ('e, 'b) eff" where
  "eseq m n = ebind m (\<lambda>_. n)"

text \<open>\<^verbatim>\<open>try: m except ...: h\<close>, where the handler sees the exception.\<close>

definition catch :: "('e, 'a) eff \<Rightarrow> (exn \<Rightarrow> ('e, 'a) eff) \<Rightarrow> ('e, 'a) eff" where
  "catch m h =
     (case m of
        (es, Raise e) \<Rightarrow> (es @ fst (h e), snd (h e))
      | (es, r) \<Rightarrow> (es, r))"

text \<open>A context manager's exit: it happens when the body returns or raises.\<close>

definition ensure :: "('e, 'a) eff \<Rightarrow> 'e list \<Rightarrow> ('e, 'a) eff" where
  "ensure m es = (case m of (es', Pending) \<Rightarrow> (es', Pending) | (es', r) \<Rightarrow> (es' @ es, r))"

named_theorems eff_simps \<open>equations of the effect combinators\<close>

lemma ebind_simps [simp, eff_simps]:
  "ebind (es, Return x) f = (es @ fst (f x), snd (f x))"
  "ebind (es, Raise e) f = (es, Raise e)"
  "ebind (es, Pending) f = (es, Pending)"
  by (simp_all add: ebind_def)

lemma catch_simps [simp, eff_simps]:
  "catch (es, Return x) h = (es, Return x)"
  "catch (es, Raise e) h = (es @ fst (h e), snd (h e))"
  "catch (es, Pending) h = (es, Pending)"
  by (simp_all add: catch_def)

lemma ensure_simps [simp, eff_simps]:
  "ensure (es, Return x) c = (es @ c, Return x)"
  "ensure (es, Raise e) c = (es @ c, Raise e)"
  "ensure (es, Pending) c = (es, Pending)"
  by (simp_all add: ensure_def)

lemma ret_throw_emit [simp, eff_simps]:
  "ret x = ([], Return x)"
  "throw e = ([], Raise e)"
  "emit ev = ([ev], Return ())"
  "eseq m n = ebind m (\<lambda>_. n)"
  by (simp_all add: ret_def throw_def emit_def eseq_def)

lemma lift_res_simps [simp, eff_simps]:
  "lift_res (Inl e) = ([], Raise e)"
  "lift_res (Inr x) = ([], Return x)"
  by (simp_all add: lift_res_def)

section \<open>Properties of every call\<close>

text \<open>A property of events lifts to computations, combinator by combinator.\<close>

definition all_events :: "('e \<Rightarrow> bool) \<Rightarrow> ('e, 'a) eff \<Rightarrow> bool" where
  "all_events P m \<longleftrightarrow> list_all P (fst m)"

lemma all_events_pair [simp]: "all_events P (es, r) \<longleftrightarrow> list_all P es"
  by (simp add: all_events_def)

lemma all_events_lift_res [simp]: "all_events P (lift_res r)"
  by (cases r) simp_all

lemma all_events_ebind [intro]:
  assumes "all_events P m" and "\<And>x. snd m = Return x \<Longrightarrow> all_events P (f x)"
  shows "all_events P (ebind m f)"
proof -
  obtain es r where m: "m = (es, r)" by (cases m)
  with assms show ?thesis by (cases r) (auto simp: all_events_def)
qed

lemma all_events_catch [intro]:
  assumes "all_events P m" and "\<And>e. snd m = Raise e \<Longrightarrow> all_events P (h e)"
  shows "all_events P (catch m h)"
proof -
  obtain es r where m: "m = (es, r)" by (cases m)
  with assms show ?thesis by (cases r) (auto simp: all_events_def)
qed

lemma all_events_ensure [intro]:
  assumes "all_events P m" and "list_all P es"
  shows "all_events P (ensure m es)"
proof -
  obtain es' r where m: "m = (es', r)" by (cases m)
  with assms show ?thesis by (cases r) (auto simp: all_events_def)
qed

lemma ebind_Return: "snd (ebind m f) = Return y \<longleftrightarrow> (\<exists>x. snd m = Return x \<and> snd (f x) = Return y)"
  by (cases m; cases "snd m") auto

lemma ebind_Raise:
  "snd (ebind m f) = Raise e \<longleftrightarrow>
     snd m = Raise e \<or> (\<exists>x. snd m = Return x \<and> snd (f x) = Raise e)"
  by (cases m; cases "snd m") auto

lemma snd_ensure [simp]: "snd (ensure m es) = snd m"
  by (cases m; cases "snd m") auto

lemma lift_res_Return [simp]: "snd (lift_res r) = Return x \<longleftrightarrow> r = Inr x"
  by (cases r) auto

lemma lift_res_Raise [simp]: "snd (lift_res r) = Raise e \<longleftrightarrow> r = Inl e"
  by (cases r) auto

lemma fst_lift_res [simp]: "fst (lift_res r) = []"
  by (cases r) auto

section \<open>The calls and the end of a compound\<close>

lemma fst_ebind:
  "fst (ebind m f) = fst m @ (case snd m of Return x \<Rightarrow> fst (f x) | _ \<Rightarrow> [])"
  by (cases m; cases "snd m") auto

lemma snd_ebind:
  "snd (ebind m f) = (case snd m of Return x \<Rightarrow> snd (f x) | Raise e \<Rightarrow> Raise e | Pending \<Rightarrow> Pending)"
  by (cases m; cases "snd m") auto

lemma fst_catch:
  "fst (catch m h) = fst m @ (case snd m of Raise e \<Rightarrow> fst (h e) | _ \<Rightarrow> [])"
  by (cases m; cases "snd m") auto

lemma snd_catch:
  "snd (catch m h) = (case snd m of Raise e \<Rightarrow> snd (h e) | r \<Rightarrow> r)"
  by (cases m; cases "snd m") auto

lemma fst_ensure:
  "fst (ensure m es) = fst m @ (case snd m of Pending \<Rightarrow> [] | _ \<Rightarrow> es)"
  by (cases m; cases "snd m") auto

lemmas eff_unfold = fst_ebind snd_ebind fst_catch snd_catch fst_ensure

lemma snd_lift_res: "snd (lift_res r) = (case r of Inl e \<Rightarrow> Raise e | Inr x \<Rightarrow> Return x)"
  by (cases r) auto

section \<open>Postconditions\<close>

text \<open>
  \<open>ends Q P m\<close>: the computation ends, with a value that satisfies \<open>Q\<close> or an exception that
  satisfies \<open>P\<close>.  The equations compute this from the parts of a computation, as a calculus of
  weakest preconditions does.
\<close>

definition ends :: "('a \<Rightarrow> bool) \<Rightarrow> (exn \<Rightarrow> bool) \<Rightarrow> ('e, 'a) eff \<Rightarrow> bool" where
  "ends Q P m = (case snd m of Return x \<Rightarrow> Q x | Raise e \<Rightarrow> P e | Pending \<Rightarrow> False)"

lemma ends_pair [simp]:
  "ends Q P (es, Return x) = Q x"
  "ends Q P (es, Raise e) = P e"
  "\<not> ends Q P (es, Pending)"
  by (simp_all add: ends_def)

lemma ends_lift_res [simp]:
  "ends Q P (lift_res r) = (case r of Inl e \<Rightarrow> P e | Inr x \<Rightarrow> Q x)"
  by (cases r) simp_all

lemma ends_ebind [simp]: "ends Q P (ebind m f) = ends (\<lambda>x. ends Q P (f x)) P m"
  by (simp add: ends_def snd_ebind split: outcome.split)

lemma ends_catch [simp]: "ends Q P (catch m h) = ends Q (\<lambda>e. ends Q P (h e)) m"
  by (simp add: ends_def snd_catch split: outcome.split)

lemma ends_snd [simp]: "ends Q P (es, snd m) = ends Q P m"
  by (simp add: ends_def)

lemma ends_mono:
  "ends Q P m \<Longrightarrow> (\<And>x. Q x \<Longrightarrow> Q' x) \<Longrightarrow> (\<And>e. P e \<Longrightarrow> P' e) \<Longrightarrow> ends Q' P' m"
  by (simp add: ends_def split: outcome.splits)

lemma ends_Return: "ends Q P m \<Longrightarrow> snd m = Return x \<Longrightarrow> Q x"
  by (simp add: ends_def)

lemma ends_Raise: "ends Q P m \<Longrightarrow> snd m = Raise e \<Longrightarrow> P e"
  by (simp add: ends_def)

lemma ends_not_Pending: "ends Q P m \<Longrightarrow> snd m \<noteq> Pending"
  by (auto simp: ends_def)

end
