(* ===== verification/Runner.thy ===== *)
theory Runner
  imports Config Effects
begin

text \<open>
  The sandbox interface (\<^verbatim>\<open>app/sandbox/runner.py\<close>) and its production stub
  (\<^verbatim>\<open>app/sandbox/firecracker.py\<close>): the calls a runner issues, the runners there are, the
  selection by name, and the laws that the activity relies on, as the locale
  \<open>sandbox_runner\<close>.
\<close>

section \<open>The calls of a runner\<close>

text \<open>
  \<open>Control\<close> is a control command run to its end, \<open>Make_tmp\<close> and \<open>Remove_tmp\<close> the staging
  directory with its prefix and parent, \<open>Stage\<close> and \<open>Chmod\<close> the files in it, \<open>Launch\<close> the
  start of the container, \<open>Wait_exit\<close> a wait for its end with a timeout, \<open>Heartbeat\<close> the
  progress report with the elapsed milliseconds.
\<close>

datatype event =
    Control "pystr list"
  | Make_tmp pystr "pystr option"
  | Stage pystr "byte list"
  | Chmod pystr nat
  | Launch "pystr list"
  | Wait_exit pyfloat
  | Heartbeat int
  | Remove_tmp pystr

section \<open>The runners\<close>

datatype runner =
    GvisorRunner pystr
  | FirecrackerRunner

definition get_runner :: "interp \<Rightarrow> pystr \<Rightarrow> runner result" where
  "get_runner I runtime =
     (if runtime = lit ''runsc'' \<or> runtime = lit ''runc'' then Inr (GvisorRunner runtime)
      else if runtime = lit ''firecracker'' then Inr FirecrackerRunner
      else Inl (SandboxPolicyViolation (lit ''unknown sandbox runtime: '' @ py_repr I runtime)))"

definition firecracker_preflight :: "(event, unit) eff" where
  "firecracker_preflight =
     throw (SandboxPolicyViolation
       (lit ''firecracker runtime is the production target (Kata-Firecracker RuntimeClass on '' @
        lit ''KVM nodes) and is not available in this build; set SANDBOX_RUNTIME=runsc.''))"

definition firecracker_run :: "(event, SandboxResult) eff" where
  "firecracker_run =
     throw (NotImplementedError
       (lit ''FirecrackerRunner is the production target (Kata-Firecracker RuntimeClass on '' @
        lit ''KVM nodes) and is not implemented for local dev. Use SANDBOX_RUNTIME=runsc.''))"

definition firecracker_kill :: "(event, unit) eff" where
  "firecracker_kill = ret ()"

section \<open>The contract of a runner\<close>

text \<open>
  What a runner promises to its client, for the container name \<open>cname run_id attempt\<close>:
  checking and killing start nothing, a run starts at most one container, which is the one of
  its run and attempt and is contained, killing asks for the removal of that container and of
  no other, and a result carries the name of the runner's runtime.
\<close>

definition launches :: "event list \<Rightarrow> pystr list list" where
  "launches es = concat (map (\<lambda>e. case e of Launch argv \<Rightarrow> [argv] | _ \<Rightarrow> []) es)"

lemma launches_simps [simp]:
  "launches [] = []"
  "launches (Launch argv # es) = argv # launches es"
  "launches (es @ es') = launches es @ launches es'"
  by (simp_all add: launches_def)

lemma launches_other [simp]:
  "launches (Control c # es) = launches es"
  "launches (Make_tmp a b # es) = launches es"
  "launches (Stage f bs # es) = launches es"
  "launches (Chmod f m # es) = launches es"
  "launches (Wait_exit t # es) = launches es"
  "launches (Heartbeat ms # es) = launches es"
  "launches (Remove_tmp f # es) = launches es"
  by (simp_all add: launches_def)

locale sandbox_runner =
  fixes preflight :: "'env \<Rightarrow> (event, unit) eff"
    and run :: "'env \<Rightarrow> RunSandboxArgs \<Rightarrow> int \<Rightarrow> bool \<Rightarrow> (event, SandboxResult) eff"
    and kill :: "'env \<Rightarrow> pystr \<Rightarrow> int \<Rightarrow> (event, unit) eff"
    and runs_container :: "pystr \<Rightarrow> int \<Rightarrow> pystr list \<Rightarrow> bool"
    and contained :: "pystr list \<Rightarrow> bool"
    and runtime_of :: pystr
  assumes preflight_launches: "launches (fst (preflight env)) = []"
    and kill_launches: "launches (fst (kill env run_id attempt)) = []"
    and run_launches_once: "length (launches (fst (run env args attempt hb))) \<le> 1"
    and run_launches_own:
      "argv \<in> set (launches (fst (run env args attempt hb))) \<Longrightarrow>
         runs_container (rs_run_id args) attempt argv"
    and run_contained:
      "argv \<in> set (launches (fst (run env args attempt hb))) \<Longrightarrow> contained argv"
    and run_runtime: "snd (run env args attempt hb) = Return r \<Longrightarrow> sb_runtime r = runtime_of"

end
