(* ===== verification/Tracing.thy ===== *)
theory Tracing
  imports Runner
begin

text \<open>
  Telemetry of the activities (\<^verbatim>\<open>app/observability/tracing.py\<close> and the context variables of
  \<^verbatim>\<open>app/observability/logging.py\<close>): the events an activity issues, with the sandbox calls
  among them, and the span helpers.
\<close>

datatype attr =
    AStr pystr
  | AInt int
  | ABool bool
  | ANone

text \<open>An activity's calls: those of its sandbox, the setting of the two context variables, a
  span attribute, a recorded exception, a span's error status, and a log record.\<close>

datatype act_event =
    Sbx event
  | Set_run_id pystr
  | Set_tenant_id "pystr option"
  | Attr pystr pystr attr
  | Exception_recorded pystr exn
  | Span_error pystr pystr
  | Log pystr pystr "(pystr \<times> attr) list"

definition opt_attr :: "pystr option \<Rightarrow> attr" where
  "opt_attr s = (case s of None \<Rightarrow> ANone | Some t \<Rightarrow> AStr t)"

text \<open>Class name and text of an exception.\<close>

fun exn_name :: "exn \<Rightarrow> pystr" where
  "exn_name ValueError = lit ''ValueError''"
| "exn_name (KeyError k) = lit ''KeyError''"
| "exn_name TypeError = lit ''TypeError''"
| "exn_name UnicodeEncodeError = lit ''UnicodeEncodeError''"
| "exn_name FileNotFoundError = lit ''FileNotFoundError''"
| "exn_name (NotImplementedError m) = lit ''NotImplementedError''"
| "exn_name CancelledError = lit ''CancelledError''"
| "exn_name (SandboxInfraError m) = lit ''SandboxInfraError''"
| "exn_name (SandboxPolicyViolation m) = lit ''SandboxPolicyViolation''"
| "exn_name (ApplicationError m t n) = lit ''ApplicationError''"
| "exn_name (APIError s c m) = lit ''APIError''"
| "exn_name (RPCError s) = lit ''RPCError''"
| "exn_name WorkflowAlreadyStartedError = lit ''WorkflowAlreadyStartedError''"
| "exn_name (OtherException n m) = n"
| "exn_name (OtherBaseException n m) = n"

definition set_observation_type :: "pystr \<Rightarrow> pystr \<Rightarrow> act_event list" where
  "set_observation_type sp obs_type =
     [Attr sp (lit ''langfuse.observation.type'') (AStr obs_type)]"

definition set_attrs :: "pystr \<Rightarrow> (pystr \<times> attr) list \<Rightarrow> act_event list" where
  "set_attrs sp attrs =
     map (\<lambda>(key, value). Attr sp key value) (filter (\<lambda>(key, value). value \<noteq> ANone) attrs)"

text \<open>\<open>text\<close> is \<^verbatim>\<open>str(exc)\<close>.\<close>

definition record_error :: "pystr \<Rightarrow> exn \<Rightarrow> pystr \<Rightarrow> bool \<Rightarrow> bool \<Rightarrow> act_event list" where
  "record_error sp exc text retryable terminal =
     [Exception_recorded sp exc,
      Attr sp (lit ''error.type'') (AStr (exn_name exc)),
      Attr sp (lit ''retryable'') (ABool retryable),
      Attr sp (lit ''failure.terminal'') (ABool terminal),
      Span_error sp text]"

section \<open>Sandbox calls among the events\<close>

definition emit_all :: "'e list \<Rightarrow> ('e, unit) eff" where
  "emit_all es = (es, Return ())"

lemma emit_all_simps [simp, eff_simps]: "emit_all es = (es, Return ())"
  by (simp add: emit_all_def)

definition map_eff :: "('e \<Rightarrow> 'f) \<Rightarrow> ('e, 'a) eff \<Rightarrow> ('f, 'a) eff" where
  "map_eff g m = (map g (fst m), snd m)"

lemma map_eff_sel [simp]:
  "fst (map_eff g m) = map g (fst m)"
  "snd (map_eff g m) = snd m"
  by (simp_all add: map_eff_def)

definition sbx_events :: "act_event list \<Rightarrow> event list" where
  "sbx_events es = concat (map (\<lambda>e. case e of Sbx x \<Rightarrow> [x] | _ \<Rightarrow> []) es)"

lemma sbx_events_simps [simp]:
  "sbx_events [] = []"
  "sbx_events (Sbx x # es) = x # sbx_events es"
  "sbx_events (Set_run_id r # es) = sbx_events es"
  "sbx_events (Set_tenant_id t # es) = sbx_events es"
  "sbx_events (Attr sp k v # es) = sbx_events es"
  "sbx_events (Exception_recorded sp ex # es) = sbx_events es"
  "sbx_events (Span_error sp msg # es) = sbx_events es"
  "sbx_events (Log l msg xs # es) = sbx_events es"
  "sbx_events (es @ es') = sbx_events es @ sbx_events es'"
  by (simp_all add: sbx_events_def)

lemma sbx_events_map_Sbx [simp]: "sbx_events (map Sbx es) = es"
  by (induction es) auto

lemma sbx_events_set_attrs [simp]: "sbx_events (set_attrs sp attrs) = []"
  by (induction attrs) (auto simp: set_attrs_def)

lemma sbx_events_helpers [simp]:
  "sbx_events (set_observation_type sp obs) = []"
  "sbx_events (record_error sp e text r t) = []"
  by (simp_all add: set_observation_type_def record_error_def)

text \<open>Absent values never reach a span.\<close>

lemma set_attrs_no_None: "Attr sp k v \<in> set (set_attrs sp attrs) \<Longrightarrow> v \<noteq> ANone"
  by (auto simp: set_attrs_def)

end
