(* ===== verification/AgentActivities.thy ===== *)
theory AgentActivities
  imports Pipeline Tracing Config
begin

text \<open>
  The activities of the agent steps (\<^verbatim>\<open>app/activities/agents.py\<close>): telemetry around the pure
  transforms of \<^verbatim>\<open>app/agents/pipeline.py\<close>.  The activity information is the workflow's identifier
  and the attempt.
\<close>

definition sha :: "interp \<Rightarrow> pystr \<Rightarrow> pystr result" where
  "sha I text = rmap (sha256_hex I) (utf8_encode text)"

text \<open>The run identifier is the workflow's, the tenant the part before its first colon.\<close>

definition tenant_of :: "pystr \<Rightarrow> pystr option" where
  "tenant_of run_id = (if py_in (lit '':'') run_id then Some (split1_fst 58 run_id) else None)"

definition bind_info :: "pystr \<Rightarrow> (act_event, pystr \<times> pystr option) eff" where
  "bind_info workflow_id =
     eseq (emit_all [Set_run_id workflow_id, Set_tenant_id (tenant_of workflow_id)])
       (ret (workflow_id, tenant_of workflow_id))"

definition baseline ::
  "pystr \<Rightarrow> pystr \<Rightarrow> pystr option \<Rightarrow> pystr \<Rightarrow> int \<Rightarrow> act_event list" where
  "baseline sp run_id tenant_id step attempt =
     set_observation_type sp (lit ''span'') @
     set_attrs sp
       [(lit ''run.id'', AStr run_id),
        (lit ''tenant.id'', opt_attr tenant_id),
        (lit ''step.name'', AStr step),
        (lit ''attempt'', AInt attempt)]"

definition plan_act :: "interp \<Rightarrow> pystr \<Rightarrow> int \<Rightarrow> pystr \<Rightarrow> (act_event, Plan) eff" where
  "plan_act I workflow_id attempt task =
     ebind (bind_info workflow_id) (\<lambda>(run_id, tenant_id).
       let sp = lit ''activity.plan'' in
       eseq (emit_all (baseline sp run_id tenant_id (lit ''plan'') attempt))
        (ebind (lift_res (sha I task)) (\<lambda>h.
          eseq (emit_all (set_attrs sp
                 [(lit ''input.bytes'', AInt (int (length task))), (lit ''input.sha256'', AStr h)]))
           (let result = plan (case_tab I) task in
            eseq (emit_all (set_attrs sp [(lit ''plan.directive'', AStr (pl_directive result))] @
                   [Log (lit ''INFO'') (lit ''planned'')
                      [(lit ''step'', AStr (lit ''plan'')),
                       (lit ''directive'', AStr (pl_directive result))]]))
              (ret result)))))"

definition generate_code_act ::
  "interp \<Rightarrow> Settings \<Rightarrow> pystr \<Rightarrow> int \<Rightarrow> Plan \<Rightarrow> (act_event, pystr) eff" where
  "generate_code_act I settings workflow_id attempt p =
     ebind (bind_info workflow_id) (\<lambda>(run_id, tenant_id).
       let sp = lit ''activity.generate_code'' in
       eseq (emit_all (baseline sp run_id tenant_id (lit ''generate_code'') attempt))
        (ebind (lift_res (generate_code p)) (\<lambda>code.
          ebind (lift_res (sha I code)) (\<lambda>h.
            eseq (emit_all (set_attrs sp
                   [(lit ''code.sha256'', AStr h), (lit ''output.bytes'', AInt (int (length code)))] @
                   (if trace_payloads settings then
                      set_attrs sp [(lit ''output.preview'', AStr (take 2000 code))] else []) @
                   [Log (lit ''INFO'') (lit ''generated code'')
                      [(lit ''step'', AStr (lit ''generate_code'')),
                       (lit ''bytes'', AInt (int (length code)))]]))
              (ret code)))))"

definition summarize_act ::
  "pystr \<Rightarrow> int \<Rightarrow> SummarizeArgs \<Rightarrow> (act_event, pystr) eff" where
  "summarize_act workflow_id attempt args =
     ebind (bind_info workflow_id) (\<lambda>(run_id, tenant_id).
       let sp = lit ''activity.summarize''; summary = summarize args in
       eseq (emit_all (baseline sp run_id tenant_id (lit ''summarize'') attempt @
              set_attrs sp [(lit ''output.bytes'', AInt (int (length summary)))] @
              [Log (lit ''INFO'') (lit ''summarized'') [(lit ''step'', AStr (lit ''summarize''))]]))
         (ret summary))"

section \<open>Facts\<close>

lemma tenant_of_join: "58 \<notin> set t \<Longrightarrow> tenant_of (t @ lit '':'' @ r) = Some t"
  using split1_join(1) [of 58 t r] py_in_self [of "[58]" t r] by (simp add: tenant_of_def lit_Cons)

lemma sha_cases:
  "sha I s = (case utf8_encode s of Inl e \<Rightarrow> Inl e | Inr bs \<Rightarrow> Inr (sha256_hex I bs))"
  by (simp add: sha_def rmap_def)

lemma utf8_encode_error: "utf8_encode s = Inl e \<Longrightarrow> e = UnicodeEncodeError"
  by (auto simp: utf8_encode_def split: if_splits)

lemma generated_ascii: "generate_program d task = Inr p \<Longrightarrow> is_ascii p"
  using generated_bounds by blast

lemma agent_activity_results:
  "snd (plan_act I wid attempt task) =
     (case utf8_encode task of
        Inl _ \<Rightarrow> Raise UnicodeEncodeError
      | Inr _ \<Rightarrow> Return (plan (case_tab I) task))"
  "snd (generate_code_act I s wid attempt p) =
     (case generate_code p of Inl e \<Rightarrow> Raise e | Inr code \<Rightarrow> Return code)"
  "snd (summarize_act wid attempt args) = Return (summarize args)"
proof -
  have "generate_code p = Inr code \<Longrightarrow> utf8_encode code = Inr (map word_of_nat code)" for code
    using generated_ascii by (simp add: generate_code_def utf8_encode_ascii)
  then show "snd (generate_code_act I s wid attempt p) =
     (case generate_code p of Inl e \<Rightarrow> Raise e | Inr code \<Rightarrow> Return code)"
    by (auto simp: generate_code_act_def bind_info_def Let_def
        snd_ebind snd_lift_res sha_cases split: sum.splits)
qed (auto simp: plan_act_def summarize_act_def bind_info_def Let_def
        snd_ebind snd_lift_res sha_cases utf8_encode_error split: sum.splits)

text \<open>
  The agent activities add telemetry and nothing else: the planning step returns the plan of
  the pure transform, or raises an encoding error exactly for a task that has no UTF-8 form; the
  code step returns the generated program for every directive with a template, since a program
  can always be encoded, and raises the error of the lookup otherwise; the summary step always
  returns the summary.
\<close>

theorem agent_activities_delegate:
  "snd (plan_act I wid attempt task) =
     (case utf8_encode task of
        Inl _ \<Rightarrow> Raise UnicodeEncodeError
      | Inr _ \<Rightarrow> Return (plan (case_tab I) task))
   \<and> snd (generate_code_act I s wid attempt p) =
     (case generate_code p of Inl e \<Rightarrow> Raise e | Inr code \<Rightarrow> Return code)
   \<and> snd (summarize_act wid attempt args) = Return (summarize args)"
  by (simp add: agent_activity_results)

text \<open>
  Unless the settings enable payload traces, all events of the planning and the code step are
  determined by the length, the digest and the directive, so two tasks or programs that agree on
  these are not told apart.
\<close>

lemma plan_telemetry_same:
  assumes "sha I task = sha I task'" and "length task = length task'"
    and "parse_directive (case_tab I) task = parse_directive (case_tab I) task'"
  shows "fst (plan_act I wid attempt task) = fst (plan_act I wid attempt task')"
  using assms by (simp add: plan_act_def bind_info_def Let_def fst_ebind split: outcome.splits)

lemma code_telemetry_same:
  assumes "\<not> trace_payloads s"
    and "generate_code p = Inr code" and "generate_code p' = Inr code'"
    and "sha I code = sha I code'" and "length code = length code'"
  shows "fst (generate_code_act I s wid attempt p) = fst (generate_code_act I s wid attempt p')"
  using assms by (simp add: generate_code_act_def bind_info_def Let_def fst_ebind split: outcome.splits)

lemma find_directive_short: "length low < 2 \<Longrightarrow> find_directive low ds = lit ''normal''"
  by (induction ds) (auto simp: py_in_iff)

definition const_interp :: interp where
  "const_interp = \<lparr>case_tab = (\<lambda>b c a. [c]), py_repr = id, float_str = (\<lambda>f. []),
     sha1_hex = (\<lambda>b. replicate 40 48), sha256_hex = (\<lambda>b. replicate 64 48)\<rparr>"

end
