(* ===== verification/Api.thy ===== *)
theory Api
  imports Schemas AgentActivities
begin

text \<open>
  The edge of the API: the one error type and its envelope (\<^verbatim>\<open>app/api/errors.py\<close>, \<^verbatim>\<open>_envelope\<close>
  and the handlers of \<^verbatim>\<open>app/api/main.py\<close>), the probes, and the bearer-token check
  (\<^verbatim>\<open>app/api/auth.py\<close>).
\<close>

section \<open>Responses and their envelope\<close>

record Response =
  status_code :: int
  content :: json
  headers :: "(pystr \<times> pystr) list"

definition JSONResponse :: "int \<Rightarrow> json \<Rightarrow> (pystr \<times> pystr) list \<Rightarrow> Response" where
  "JSONResponse st c h = \<lparr>status_code = st, content = c, headers = h\<rparr>"

definition envelope :: "pystr option \<Rightarrow> int \<Rightarrow> pystr \<Rightarrow> pystr \<Rightarrow> Response" where
  "envelope request_id st code message =
     JSONResponse st
       (JObj [(lit ''error'', JObj [(lit ''code'', JStr code), (lit ''message'', JStr message),
                                     (lit ''request_id'', JOpt JStr request_id)])])
       (if st = 401 then [(lit ''WWW-Authenticate'', lit ''Bearer'')] else [])"

text \<open>What the application's two exception handlers make of an exception; every other one
  passes.  A failed validation is an answer of the framework, with the text of its errors.\<close>

datatype app_fault =
    Raised exn
  | Validation_error pystr

definition handle_fault :: "pystr option \<Rightarrow> app_fault \<Rightarrow> Response result" where
  "handle_fault request_id f =
     (case f of
        Raised (APIError st code message) \<Rightarrow> Inr (envelope request_id st code message)
      | Raised e \<Rightarrow> Inl e
      | Validation_error text \<Rightarrow> Inr (envelope request_id 422 (lit ''VALIDATION_ERROR'') text))"

section \<open>Probes\<close>

definition healthz :: json where
  "healthz = JObj [(lit ''status'', JStr (lit ''ok''))]"

text \<open>The answer of the health check within its time, or the exception with its text; \<open>None\<close> when
  the application has no client.\<close>

definition readyz :: "(exn \<Rightarrow> pystr) \<Rightarrow> unit result option \<Rightarrow> Response result" where
  "readyz str_of client =
     (case client of
        None \<Rightarrow>
          Inr (JSONResponse 503
                (JObj [(lit ''status'', JStr (lit ''not-ready'')),
                       (lit ''reason'', JStr (lit ''temporal not connected''))]) [])
      | Some (Inl e) \<Rightarrow>
          if is_Exception e then
            Inr (JSONResponse 503
                  (JObj [(lit ''status'', JStr (lit ''not-ready'')), (lit ''reason'', JStr (str_of e))]) [])
          else Inl e
      | Some (Inr _) \<Rightarrow> Inr (JSONResponse 200 (JObj [(lit ''status'', JStr (lit ''ready''))]) []))"

section \<open>Authentication\<close>

text \<open>\<^verbatim>\<open>secrets.compare_digest\<close> on two texts: it accepts ASCII only.\<close>

definition compare_digest :: "pystr \<Rightarrow> pystr \<Rightarrow> bool result" where
  "compare_digest a b = (if is_ascii a \<and> is_ascii b then Inr (a = b) else Inl TypeError)"

definition verify_token :: "Settings \<Rightarrow> pystr option \<Rightarrow> unit result" where
  "verify_token s authorization =
     (case authorization of
        None \<Rightarrow> Inl (APIError 401 (lit ''UNAUTHORIZED'') (lit ''missing or malformed Authorization header''))
      | Some a \<Rightarrow>
          if a = [] \<or> \<not> prefix (lit ''Bearer '') a then
            Inl (APIError 401 (lit ''UNAUTHORIZED'') (lit ''missing or malformed Authorization header''))
          else
            rbind (compare_digest (split1_snd 32 a) (api_bearer_token s)) (\<lambda>same.
              if \<not> same then Inl (APIError 401 (lit ''UNAUTHORIZED'') (lit ''invalid bearer token''))
              else Inr ()))"

section \<open>Properties\<close>

lemma bearer_split:
  assumes "prefix (lit ''Bearer '') a"
  shows "a = lit ''Bearer '' @ split1_snd 32 a"
proof -
  from assms obtain t where "a = lit ''Bearer '' @ t" by (auto simp: prefix_def)
  moreover have "lit ''Bearer '' @ t = lit ''Bearer'' @ 32 # t" by (simp add: lit_Cons)
  moreover have "split1_snd 32 (lit ''Bearer'' @ 32 # t) = t"
    by (rule split1_join(2)) (simp add: lit_Cons)
  ultimately show ?thesis by simp
qed

text \<open>
  A request is admitted exactly when its header is the word Bearer, one blank and the
  configured token; every other request is refused, with a 401 or, exactly when a well-formed
  header carries a token outside ASCII (or the configured one is), with a \<open>TypeError\<close> that no
  handler turns into an answer of the API.
\<close>

theorem auth_admits_only_token:
  "(verify_token s h = Inr ()) =
     (h = Some (lit ''Bearer '' @ api_bearer_token s) \<and> is_ascii (api_bearer_token s))
   \<and> (verify_token s h = Inl TypeError) =
     (\<exists>t. h = Some (lit ''Bearer '' @ t) \<and> \<not> (is_ascii t \<and> is_ascii (api_bearer_token s)))
   \<and> (\<forall>e. verify_token s h = Inl e \<longrightarrow> e = TypeError \<or> (\<exists>m. e = APIError 401 (lit ''UNAUTHORIZED'') m))"
proof (cases "\<exists>t. h = Some (lit ''Bearer '' @ t)")
  case True
  then obtain t where h: "h = Some (lit ''Bearer '' @ t)" by blast
  have "split1_snd 32 (lit ''Bearer '' @ t) = t"
    using bearer_split [of "lit ''Bearer '' @ t"] by simp
  then show ?thesis
    unfolding h by (auto simp: verify_token_def compare_digest_def)
next
  case False
  then have "verify_token s h =
      Inl (APIError 401 (lit ''UNAUTHORIZED'') (lit ''missing or malformed Authorization header''))"
    by (auto simp: verify_token_def prefix_def split: option.split)
  with False show ?thesis by auto
qed

theorem auth_admits_only_token_witness:
  "verify_token default_settings (Some (lit ''Bearer '' @ [233])) = Inl TypeError"
  using auth_admits_only_token [of default_settings "Some (lit ''Bearer '' @ [233])"] by auto

end
