(* ===== verification/Policies.thy ===== *)
theory Policies
  imports Config
begin

text \<open>
  The retry policies and timeouts (\<^verbatim>\<open>app/temporal/policies.py\<close>), resolved from the settings
  once, when the module is loaded.  A \<^verbatim>\<open>timedelta\<close> built from seconds is its number of
  seconds.  What the orchestrator does with a policy is its own code and not modelled.
\<close>

record RetryPolicy =
  initial_interval :: int
  backoff_coefficient :: pyfloat
  maximum_interval :: int
  maximum_attempts :: int
  non_retryable_error_types :: "pystr list"

definition AGENT_RETRY :: "Settings \<Rightarrow> RetryPolicy" where
  "AGENT_RETRY s =
     \<lparr>initial_interval = 1, backoff_coefficient = float_of_int 2, maximum_interval = 10,
      maximum_attempts = max_attempts s, non_retryable_error_types = []\<rparr>"

definition SANDBOX_RETRY :: "Settings \<Rightarrow> RetryPolicy" where
  "SANDBOX_RETRY s =
     \<lparr>initial_interval = 1, backoff_coefficient = float_of_int 2, maximum_interval = 20,
      maximum_attempts = max_attempts s,
      non_retryable_error_types = [lit ''SandboxPolicyViolation'', lit ''PayloadTooLarge'']\<rparr>"

definition AGENT_START_TO_CLOSE :: "Settings \<Rightarrow> int" where
  "AGENT_START_TO_CLOSE s = agent_start_to_close_s s"

definition SANDBOX_START_TO_CLOSE :: "Settings \<Rightarrow> int" where
  "SANDBOX_START_TO_CLOSE s = sandbox_start_to_close_s s"

definition SANDBOX_HEARTBEAT :: "Settings \<Rightarrow> int" where
  "SANDBOX_HEARTBEAT s = sandbox_heartbeat_s s"

definition SCHEDULE_TO_START :: "Settings \<Rightarrow> int" where
  "SCHEDULE_TO_START s = schedule_to_start_s s"

definition WORKFLOW_RUN_TIMEOUT :: "Settings \<Rightarrow> int" where
  "WORKFLOW_RUN_TIMEOUT s = workflow_run_timeout_s s"

end
