(* ===== verification/Routes.thy ===== *)
theory Routes
  imports Api Workflow
begin

text \<open>
  The run endpoints (\<^verbatim>\<open>app/api/routes_runs.py\<close>): create, read, stream and cancel.  What the
  orchestration service answers to a handler is an argument, the record \<open>client\<close>; the calls to
  it, the frames of a stream and the telemetry are the events of a handler.
\<close>

section \<open>The service\<close>

datatype wf_status =
    RUNNING
  | COMPLETED
  | FAILED
  | CANCELED
  | TERMINATED
  | CONTINUED_AS_NEW
  | TIMED_OUT

text \<open>The attribute \<^verbatim>\<open>memo\<close> of a description: a mapping of texts, or an object that is not a mapping
  and has no method \<^verbatim>\<open>get\<close>, as a bound method.\<close>

datatype memo_attr =
    Memo_mapping "(pystr \<times> pystr) list"
  | Memo_method

record description =
  de_status :: "wf_status option"
  de_memo :: memo_attr

record start_call =
  sc_input :: RunInput
  sc_id :: pystr
  sc_task_queue :: pystr
  sc_run_timeout :: int
  sc_id_reuse_policy :: pystr
  sc_memo :: "(pystr \<times> pystr) list"

text \<open>The answers to one handler, and the text of an exception.\<close>

record client =
  cl_start :: "unit result"
  cl_describe :: "description result"
  cl_query :: "RunStatus result"
  cl_result :: "RunResult result"
  cl_cancel :: "unit result"
  cl_str :: "exn \<Rightarrow> pystr"

datatype api_event =
    Start_workflow start_call
  | Describe pystr
  | Query_status pystr
  | Get_result pystr
  | Cancel_workflow pystr
  | Telemetry act_event
  | Yield pystr
  | Sleep

definition ask :: "api_event \<Rightarrow> 'a result \<Rightarrow> (api_event, 'a) eff" where
  "ask ev r = eseq (emit ev) (lift_res r)"

section \<open>Helpers\<close>

definition TERMINAL :: "pystr list" where
  "TERMINAL = [lit ''COMPLETED'', lit ''FAILED'', lit ''TIMED_OUT'', lit ''CANCELLED'']"

definition SSE_EVENT :: "(pystr \<times> pystr) list" where
  "SSE_EVENT =
     [(lit ''COMPLETED'', lit ''completed''), (lit ''FAILED'', lit ''failed''),
      (lit ''TIMED_OUT'', lit ''timed_out''), (lit ''CANCELLED'', lit ''failed'')]"

definition payload_bytes :: "RunRequest \<Rightarrow> byte list result" where
  "payload_bytes req =
     utf8_encode (rq_task req @ dumps (sort_keys (dump_RunParams (rq_params req))))"

definition workflow_id :: "interp \<Rightarrow> RunRequest \<Rightarrow> pystr result" where
  "workflow_id I req =
     (let digest_id = rmap (\<lambda>b. rq_tenant_id req @ lit '':'' @ take 32 (sha256_hex I b)) (payload_bytes req) in
      case rq_idempotency_key req of
        None \<Rightarrow> digest_id
      | Some key \<Rightarrow> if key \<noteq> [] then Inr (rq_tenant_id req @ lit '':'' @ key) else digest_id)"

definition sse :: "pystr \<Rightarrow> json \<Rightarrow> pystr" where
  "sse event data = lit ''event: '' @ event @ [10] @ lit ''data: '' @ dumps data @ [10, 10]"

definition step_model :: "StepStatus \<Rightarrow> StepModel" where
  "step_model x = \<lparr>sm_name = st_name x, sm_state = st_state x, sm_detail = st_detail x\<rparr>"

definition sandbox_model :: "SandboxResult \<Rightarrow> SandboxModel" where
  "sandbox_model sb =
     \<lparr>sx_runtime = sb_runtime sb, sx_exit_code = exit_code sb, sx_ok = ok sb,
      sx_failure_reason = failure_reason sb, sx_wall_ms = wall_ms sb,
      sx_oom_killed = oom_killed sb, sx_wall_clock_exceeded = wall_clock_exceeded sb,
      sx_truncated = truncated sb, sx_stdout_tail = stdout_tail sb, sx_stderr_tail = stderr_tail sb\<rparr>"

definition running :: "pystr \<Rightarrow> RunStatus \<Rightarrow> RunStatusResponse" where
  "running run_id rs =
     \<lparr>rsr_run_id = run_id, rsr_status = lit ''RUNNING'', rsr_stage = rst_stage rs,
      rsr_current_step = Some (rst_stage rs),
      rsr_completed_steps =
        map st_name (filter (\<lambda>x. st_state x = lit ''completed'') (rst_steps rs)),
      rsr_steps = map step_model (rst_steps rs), rsr_result = None, rsr_error = None\<rparr>"

definition completed :: "pystr \<Rightarrow> RunResult \<Rightarrow> RunStatusResponse" where
  "completed run_id result =
     (let sb = map_option sandbox_model (rr_sandbox result);
          model = \<lparr>rm_summary = rr_summary result, rm_code = rr_code result, rm_sandbox = sb\<rparr> in
      if rr_status result = lit ''completed'' then
        \<lparr>rsr_run_id = run_id, rsr_status = lit ''COMPLETED'', rsr_stage = lit ''completed'',
         rsr_current_step = None,
         rsr_completed_steps =
           [lit ''plan'', lit ''generate_code'', lit ''run_sandbox'', lit ''summarize''],
         rsr_steps = [], rsr_result = Some model, rsr_error = None\<rparr>
      else
        \<lparr>rsr_run_id = run_id, rsr_status = lit ''FAILED'', rsr_stage = lit ''failed'',
         rsr_current_step = None, rsr_completed_steps = [], rsr_steps = [],
         rsr_result = Some model,
         rsr_error = Some
           \<lparr>ed_code = lit ''SANDBOX_FAILURE'', ed_step = Some (lit ''run_sandbox''),
            ed_message = or_default (rr_failure_reason result) (lit ''run failed''),
            ed_retryable = False\<rparr>\<rparr>)"

definition STATUS_MAPPING :: "(wf_status \<times> pystr) list" where
  "STATUS_MAPPING =
     [(TIMED_OUT, lit ''TIMED_OUT''), (CANCELED, lit ''CANCELLED''),
      (TERMINATED, lit ''FAILED''), (FAILED, lit ''FAILED'')]"

definition terminal_status :: "wf_status option \<Rightarrow> pystr" where
  "terminal_status st =
     (case Option.bind st (map_of STATUS_MAPPING) of None \<Rightarrow> lit ''FAILED'' | Some x \<Rightarrow> x)"

definition terminal_failure ::
  "interp \<Rightarrow> pystr \<Rightarrow> wf_status option \<Rightarrow> client \<Rightarrow> (api_event, RunStatusResponse) eff" where
  "terminal_failure I run_id st c =
     (let status = terminal_status st in
      ebind
        (catch (eseq (ask (Get_result run_id) (cl_result c)) (ret (lower (case_tab I) status)))
           (\<lambda>e. if is_Exception e then ret (cl_str c e) else throw e))
        (\<lambda>message. ret
           \<lparr>rsr_run_id = run_id, rsr_status = status, rsr_stage = lit ''failed'',
            rsr_current_step = None, rsr_completed_steps = [], rsr_steps = [], rsr_result = None,
            rsr_error = Some \<lparr>ed_code = status, ed_step = None, ed_message = message,
                              ed_retryable = False\<rparr>\<rparr>))"

definition not_found :: "pystr \<Rightarrow> exn" where
  "not_found run_id = APIError 404 (lit ''RUN_NOT_FOUND'') (lit ''no run with id '' @ run_id)"

text \<open>\<^verbatim>\<open>except RPCError\<close> of the three handlers that take a run identifier.\<close>

definition or_not_found :: "pystr \<Rightarrow> (api_event, 'a) eff \<Rightarrow> (api_event, 'a) eff" where
  "or_not_found run_id m =
     catch m (\<lambda>e. if e = RPCError RPC_NOT_FOUND then throw (not_found run_id) else throw e)"

definition resolve_status :: "interp \<Rightarrow> client \<Rightarrow> pystr \<Rightarrow> (api_event, RunStatusResponse) eff" where
  "resolve_status I c run_id =
     ebind (or_not_found run_id (ask (Describe run_id) (cl_describe c))) (\<lambda>desc.
       if de_status desc = Some RUNNING then
         ebind (ask (Query_status run_id) (cl_query c)) (\<lambda>rs. ret (running run_id rs))
       else if de_status desc = Some COMPLETED then
         ebind (ask (Get_result run_id) (cl_result c)) (\<lambda>r. ret (completed run_id r))
       else terminal_failure I run_id (de_status desc) c)"

text \<open>\<^verbatim>\<open>(desc.memo or {}).get(key)\<close>.\<close>

fun memo_get :: "memo_attr \<Rightarrow> pystr \<Rightarrow> pystr option result" where
  "memo_get (Memo_mapping m) key = Inr (map_of m key)"
| "memo_get Memo_method key =
     Inl (OtherException (lit ''AttributeError'') (lit ''object has no attribute get''))"

definition accepted_response :: "int \<Rightarrow> RunRequest \<Rightarrow> pystr \<Rightarrow> Response" where
  "accepted_response st req wid =
     JSONResponse st
       (dump_RunAccepted \<lparr>ra_run_id = wid, ra_status = lit ''PENDING'', ra_tenant_id = rq_tenant_id req\<rparr>) []"

definition handle_already_started ::
  "interp \<Rightarrow> client \<Rightarrow> RunRequest \<Rightarrow> pystr \<Rightarrow> (api_event, Response) eff" where
  "handle_already_started I c req wid =
     ebind (lift_res (rmap (sha256_hex I) (payload_bytes req))) (\<lambda>expected.
     ebind
       (catch
         (ebind (ask (Describe wid) (cl_describe c))
            (\<lambda>desc. lift_res (memo_get (de_memo desc) (lit ''task_sha256''))))
         (\<lambda>e. if is_Exception e then ret None else throw e))
       (\<lambda>stored.
         if stored \<noteq> None \<and> stored \<noteq> Some expected then
           throw (APIError 409 (lit ''IDEMPOTENCY_CONFLICT'')
             (lit ''idempotency key reused with a different payload''))
         else ret (accepted_response 200 req wid)))"

section \<open>Endpoints\<close>

text \<open>The dependency that every route of this router declares.\<close>

definition authenticated :: "Settings \<Rightarrow> pystr option \<Rightarrow> (api_event, 'a) eff \<Rightarrow> (api_event, 'a) eff" where
  "authenticated s authorization body = ebind (lift_res (verify_token s authorization)) (\<lambda>_. body)"

definition request_limits :: "Settings \<Rightarrow> RunRequest \<Rightarrow> ResourceLimits" where
  "request_limits s req =
     (case sandbox_timeout_s (rq_params req) of
        None \<Rightarrow> resource_limits s
      | Some t \<Rightarrow> (resource_limits s)\<lparr>wall_clock_s := min t (sandbox_wall_clock_s s)\<rparr>)"

definition run_input :: "Settings \<Rightarrow> RunRequest \<Rightarrow> pystr \<Rightarrow> RunInput" where
  "run_input s req wid =
     \<lparr>ri_run_id = wid, ri_tenant_id = rq_tenant_id req, ri_task = rq_task req,
      ri_limits = request_limits s req, ri_sandbox_runtime = sandbox_runtime s\<rparr>"

definition start_run ::
  "interp \<Rightarrow> Settings \<Rightarrow> client \<Rightarrow> RunRequest \<Rightarrow> pystr \<Rightarrow> (api_event, unit) eff" where
  "start_run I s c req wid =
     ebind (lift_res (rmap (sha256_hex I) (payload_bytes req))) (\<lambda>digest.
       ask (Start_workflow
              \<lparr>sc_input = run_input s req wid, sc_id = wid, sc_task_queue = task_queue s,
               sc_run_timeout = WORKFLOW_RUN_TIMEOUT s,
               sc_id_reuse_policy = lit ''REJECT_DUPLICATE'',
               sc_memo = [(lit ''task_sha256'', digest)]\<rparr>)
         (cl_start c))"

definition create_run ::
  "interp \<Rightarrow> Settings \<Rightarrow> client \<Rightarrow> RunRequest \<Rightarrow> (api_event, Response) eff" where
  "create_run I s c req =
     ebind (lift_res (utf8_encode (rq_task req))) (\<lambda>task_bytes.
       if int (length task_bytes) > max_task_bytes s then
         throw (APIError 413 (lit ''VALIDATION_ERROR'') (lit ''task exceeds maximum size''))
       else
         ebind (lift_res (workflow_id I req)) (\<lambda>wid.
         ebind
           (eseq (emit_all (map Telemetry (set_attrs (lit ''agent.run'')
                    [(lit ''run.id'', AStr wid), (lit ''tenant.id'', AStr (rq_tenant_id req))])))
             (catch (eseq (start_run I s c req wid) (ret None))
               (\<lambda>e. case e of
                    WorkflowAlreadyStartedError \<Rightarrow>
                      ebind (handle_already_started I c req wid) (\<lambda>r. ret (Some r))
                  | RPCError st \<Rightarrow>
                      if st = RPC_UNAVAILABLE then
                        throw (APIError 503 (lit ''UPSTREAM_UNAVAILABLE'') (lit ''temporal is unavailable''))
                      else throw e
                  | _ \<Rightarrow> throw e)))
           (\<lambda>replay. case replay of
                Some r \<Rightarrow> ret r
              | None \<Rightarrow>
                  eseq (emit (Telemetry (Log (lit ''INFO'') (lit ''run started'')
                         [(lit ''step'', AStr (lit ''api.create_run'')), (lit ''run_id'', AStr wid)])))
                    (ret (accepted_response 201 req wid)))))"

definition get_run :: "interp \<Rightarrow> client \<Rightarrow> pystr \<Rightarrow> (api_event, RunStatusResponse) eff" where
  "get_run I c run_id = resolve_status I c run_id"

definition cancel_run :: "client \<Rightarrow> pystr \<Rightarrow> (api_event, json) eff" where
  "cancel_run c run_id =
     eseq (or_not_found run_id (ask (Cancel_workflow run_id) (cl_cancel c)))
       (ret (JObj [(lit ''run_id'', JStr run_id), (lit ''status'', JStr (lit ''CANCELLING''))]))"

section \<open>The event stream\<close>

text \<open>One round of the generator: whether the request is disconnected, and the answers.\<close>

record tick =
  tk_disconnected :: bool
  tk_client :: client

text \<open>The double nearest to \<open>0.7\<close>.\<close>

definition float_0_7 :: pyfloat where
  "float_0_7 = 6305039478318694 * 2 ^ 1021"

definition keepalive :: pystr where
  "keepalive = lit '':keepalive'' @ [10, 10]"

definition done_run :: "pystr \<Rightarrow> json" where
  "done_run run_id = JObj [(lit ''run_id'', JStr run_id)]"

definition done_max :: "pystr \<Rightarrow> json" where
  "done_max run_id =
     JObj [(lit ''run_id'', JStr run_id), (lit ''reason'', JStr (lit ''max_duration''))]"

text \<open>The frames of a round that does not end the stream, with the new \<^verbatim>\<open>first\<close> and \<^verbatim>\<open>last\<close>.\<close>

definition idle_round ::
  "json \<Rightarrow> pystr option \<Rightarrow> bool \<Rightarrow> int \<Rightarrow> pystr list \<times> bool \<times> pystr option" where
  "idle_round payload prev first ticks =
     (let cur = dumps (sort_keys payload) in
      if first then ([sse (lit ''snapshot'') payload], False, Some cur)
      else if Some cur \<noteq> prev then ([sse (lit ''step'') payload], first, Some cur)
      else if ticks mod 21 = 0 then ([keepalive], first, prev)
      else ([], first, prev))"

definition end_round :: "pystr \<Rightarrow> RunStatusResponse \<Rightarrow> bool \<Rightarrow> (api_event, unit) eff" where
  "end_round run_id resp first =
     (let payload = dump_RunStatusResponse resp in
      eseq (if first then emit (Yield (sse (lit ''snapshot'') payload)) else ret ())
        (case map_of SSE_EVENT (rsr_status resp) of
           None \<Rightarrow> throw (KeyError (rsr_status resp))
         | Some ev \<Rightarrow>
             emit_all [Yield (sse ev payload), Yield (sse (lit ''done'') (done_run run_id))]))"

definition poll_status :: "interp \<Rightarrow> client \<Rightarrow> pystr \<Rightarrow> (api_event, RunStatusResponse option) eff" where
  "poll_status I c run_id =
     catch (ebind (resolve_status I c run_id) (\<lambda>r. ret (Some r)))
       (\<lambda>e. case e of APIError st code m \<Rightarrow> ret None | _ \<Rightarrow> throw e)"

fun gen ::
  "interp \<Rightarrow> pystr \<Rightarrow> int \<Rightarrow> pystr option \<Rightarrow> bool \<Rightarrow> int \<Rightarrow> pyfloat \<Rightarrow> tick list \<Rightarrow>
     (api_event, unit) eff" where
  "gen I run_id max_dur prev first ticks elapsed [] = ([], Pending)"
| "gen I run_id max_dur prev first ticks elapsed (t # ts) =
     (if tk_disconnected t then ret ()
      else
        ebind (poll_status I (tk_client t) run_id) (\<lambda>resp.
          case resp of
            None \<Rightarrow> ret ()
          | Some r \<Rightarrow>
              if rsr_status r \<in> set TERMINAL then end_round run_id r first
              else
                (case idle_round (dump_RunStatusResponse r) prev first ticks of
                   (frames, first', prev') \<Rightarrow>
                     eseq (emit_all (map Yield frames @ [Sleep]))
                       (let elapsed' = fadd elapsed float_0_7 in
                        if elapsed' > max_dur * float_scale then
                          emit (Yield (sse (lit ''done'') (done_max run_id)))
                        else gen I run_id max_dur prev' first' (ticks + 1) elapsed' ts))))"

text \<open>The stream of a response starts with the variables of \<^verbatim>\<open>gen\<close> at their initial values.\<close>

definition stream_gen :: "interp \<Rightarrow> Settings \<Rightarrow> pystr \<Rightarrow> tick list \<Rightarrow> (api_event, unit) eff" where
  "stream_gen I s run_id ts = gen I run_id (workflow_run_timeout_s s + 30) None True 0 0 ts"

definition stream_headers :: "(pystr \<times> pystr) list" where
  "stream_headers =
     [(lit ''Cache-Control'', lit ''no-cache''), (lit ''X-Accel-Buffering'', lit ''no''),
      (lit ''Connection'', lit ''keep-alive'')]"

text \<open>The existence check comes first; the frames of the body are those of the generator, whose
  rounds the framework drives.\<close>

definition stream_check :: "client \<Rightarrow> pystr \<Rightarrow> (api_event, unit) eff" where
  "stream_check c run_id =
     eseq (or_not_found run_id (ask (Describe run_id) (cl_describe c))) (ret ())"

definition stream_run ::
  "interp \<Rightarrow> Settings \<Rightarrow> client \<Rightarrow> pystr \<Rightarrow> tick list \<Rightarrow> (api_event, unit) eff" where
  "stream_run I s c run_id ts = eseq (stream_check c run_id) (stream_gen I s run_id ts)"

end
