(* ===== verification/Progress.thy ===== *)
theory Progress
  imports Main
begin

text \<open>
  Systems that come to an end: a step relation with a rank that every step lowers, and a
  description of the states without a step.  A table of such systems, in which one entry moves at
  a time, is such a system again.
\<close>

locale terminating =
  fixes step :: "'s \<Rightarrow> 's \<Rightarrow> bool"
    and good :: "'s \<Rightarrow> bool"
    and rank :: "'s \<Rightarrow> nat"
    and ended :: "'s \<Rightarrow> bool"
  assumes step_good: "\<lbrakk>good a; step a b\<rbrakk> \<Longrightarrow> good b"
    and step_rank: "\<lbrakk>good a; step a b\<rbrakk> \<Longrightarrow> rank b < rank a"
    and no_step: "good a \<Longrightarrow> (\<nexists>b. step a b) \<longleftrightarrow> ended a"
begin

lemma steps_rank: "(step ^^ n) a b \<Longrightarrow> good a \<Longrightarrow> good b \<and> rank b + n \<le> rank a"
proof (induction n arbitrary: b)
  case (Suc n)
  then obtain c where "(step ^^ n) a c" "step c b" by auto
  with Suc.IH [of c] Suc.prems(2) step_good [of c b] step_rank [of c b] show ?case by auto
qed simp

lemma steps_bound: "(step ^^ n) a b \<Longrightarrow> good a \<Longrightarrow> n \<le> rank a"
  using steps_rank by fastforce

lemma steps_good: "step\<^sup>*\<^sup>* a b \<Longrightarrow> good a \<Longrightarrow> good b"
  using steps_rank by (auto simp: rtranclp_power)

lemma reaches_end: "good a \<Longrightarrow> \<exists>b. step\<^sup>*\<^sup>* a b \<and> ended b"
proof (induction "rank a" arbitrary: a rule: less_induct)
  case less
  show ?case
  proof (cases "ended a")
    case False
    then obtain b where "step a b" using no_step less.prems by blast
    with less step_good step_rank show ?thesis by (meson converse_rtranclp_into_rtranclp)
  qed blast
qed

end

section \<open>Tables of systems\<close>

definition step_entry :: "('s \<Rightarrow> 's \<Rightarrow> bool) \<Rightarrow> ('k \<rightharpoonup> 's) \<Rightarrow> ('k \<rightharpoonup> 's) \<Rightarrow> bool" where
  "step_entry step t t' \<longleftrightarrow> (\<exists>k a b. t k = Some a \<and> step a b \<and> t' = t(k \<mapsto> b))"

definition all_entries :: "('s \<Rightarrow> bool) \<Rightarrow> ('k \<rightharpoonup> 's) \<Rightarrow> bool" where
  "all_entries P t \<longleftrightarrow> (\<forall>k a. t k = Some a \<longrightarrow> P a)"

definition table_rank :: "('s \<Rightarrow> nat) \<Rightarrow> ('k \<rightharpoonup> 's) \<Rightarrow> nat" where
  "table_rank rank t = (\<Sum>k \<in> dom t. rank (the (t k)))"

lemma table_rank_upd:
  assumes "finite (dom t)" and "t k = Some a" and "rank b < rank a"
  shows "table_rank rank (t(k \<mapsto> b)) < table_rank rank t"
proof -
  have "dom (t(k \<mapsto> b)) = dom t" using assms(2) by auto
  then show ?thesis
    unfolding table_rank_def
    by (simp only: dom_fun_upd) (rule sum_strict_mono_ex1, use assms in auto)
qed

lemma table_rank_bound:
  assumes "all_entries (\<lambda>a. rank a \<le> n) t"
  shows "table_rank rank t \<le> n * card (dom t)"
proof -
  have "rank (the (t k)) \<le> n" if "k \<in> dom t" for k
    using assms that by (auto simp: all_entries_def)
  then show ?thesis
    unfolding table_rank_def using sum_bounded_above [of "dom t" "\<lambda>k. rank (the (t k))" n]
    by (simp add: mult.commute)
qed

locale terminating_entries = terminating

sublocale terminating_entries \<subseteq> entries: terminating "step_entry step"
  "\<lambda>t. finite (dom t) \<and> all_entries good t" "table_rank rank" "all_entries ended"
proof
  fix t t' :: "'b \<rightharpoonup> 'a"
  assume t: "finite (dom t) \<and> all_entries good t"
  show "finite (dom t') \<and> all_entries good t'" "table_rank rank t' < table_rank rank t"
    if "step_entry step t t'"
  proof -
    from that obtain k a b where e: "t k = Some a" "step a b" "t' = t(k \<mapsto> b)"
      unfolding step_entry_def by blast
    then have "good b" "rank b < rank a"
      using t step_good [of a b] step_rank [of a b] by (auto simp: all_entries_def)
    with t e show "finite (dom t') \<and> all_entries good t'" "table_rank rank t' < table_rank rank t"
      by (simp_all add: all_entries_def table_rank_upd)
  qed
  show "(\<nexists>t'. step_entry step t t') \<longleftrightarrow> all_entries ended t"
    using t no_step by (fastforce simp: step_entry_def all_entries_def)
qed

end
