(* ===== verification/WorkflowRuns.thy ===== *)
theory WorkflowRuns
  imports Workflow Progress
begin

text \<open>
  What holds of the workflow: the form of its attributes wherever a query may read them, by rule
  induction over the state machine; the agreement of the code's body with the state machine;
  the outcome of a run as a function of the activities' answers; and the calls it issues.
\<close>

section \<open>The attributes at every await\<close>

definition STEP_NAMES :: "pystr list" where
  "STEP_NAMES = [lit ''plan'', lit ''generate_code'', lit ''run_sandbox'', lit ''summarize'']"

text \<open>The first \<open>n\<close> steps completed, then one in state \<open>x\<close> with detail \<open>d\<close>.\<close>

definition steps_upto :: "nat \<Rightarrow> pystr \<Rightarrow> pystr option \<Rightarrow> StepStatus list" where
  "steps_upto n x d =
     map (\<lambda>m. \<lparr>st_name = m, st_state = lit ''completed'', st_detail = None\<rparr>) (take n STEP_NAMES) @
     [\<lparr>st_name = STEP_NAMES ! n, st_state = x, st_detail = d\<rparr>]"

text \<open>The attributes while step \<open>n\<close> is in progress, and after a fault in it.\<close>

definition state_at :: "nat \<Rightarrow> Workflow" where
  "state_at n = \<lparr>wf_stage = STEP_NAMES ! n, wf_steps = steps_upto n (lit ''running'') None\<rparr>"

definition faulted :: "nat \<Rightarrow> exn \<Rightarrow> Workflow" where
  "faulted n e = \<lparr>wf_stage = STEP_NAMES ! n,
     wf_steps = steps_upto n (if is_Exception e then lit ''failed'' else lit ''running'') None\<rparr>"

definition state_failed :: "SandboxResult \<Rightarrow> Workflow" where
  "state_failed r = \<lparr>wf_stage = lit ''failed'',
     wf_steps = steps_upto 2 (lit ''failed'') (failure_reason r)\<rparr>"

definition state_completed :: Workflow where
  "state_completed = \<lparr>wf_stage = lit ''completed'', wf_steps = steps_upto 3 (lit ''completed'') None\<rparr>"

fun wf_inv :: "RunInput \<Rightarrow> conf \<Rightarrow> bool" where
  "wf_inv inp (Start, st) = (st = init_workflow)"
| "wf_inv inp (Await_plan i, st) = (i = 0 \<and> st = state_at 0)"
| "wf_inv inp (Await_code i p, st) = (i = 1 \<and> st = state_at 1)"
| "wf_inv inp (Await_sandbox i p c, st) = (i = 2 \<and> st = state_at 2)"
| "wf_inv inp (Await_summary i p c r, st) = (i = 3 \<and> ok r \<and> st = state_at 3)"
| "wf_inv inp (Done (Inr res), st) =
     ((\<exists>m c r. ok r \<and> res = RunResult_completed (ri_run_id inp) m c r \<and> st = state_completed)
      \<or> (\<exists>c r. \<not> ok r \<and> res = failed_result inp c r \<and> st = state_failed r))"
| "wf_inv inp (Done (Inl e), st) = (\<exists>n < 4. st = faulted n e)"

lemmas wf_ops = state_at_def faulted_def state_failed_def state_completed_def steps_upto_def
  STEP_NAMES_def begin_step_def set_state_def set_stage_def set_detail_def close_sandbox_def
  fail_step_def init_workflow_def Let_def

lemma wf_ops_plan [simp]:
  "wf_steps init_workflow = []"
  "begin_step (lit ''plan'') init_workflow = state_at 0"
  "length (wf_steps (state_at 0)) = 1"
  "fail_step 0 e (state_at 0) = faulted 0 e"
  by (simp_all add: wf_ops)

lemma wf_ops_code [simp]:
  "begin_step (lit ''generate_code'') (set_state 0 (lit ''completed'') (state_at 0)) = state_at 1"
  "length (wf_steps (set_state 0 x (state_at 0))) = 1"
  "length (wf_steps (state_at 1)) = 2"
  "fail_step 1 e (state_at 1) = faulted 1 e"
  by (simp_all add: wf_ops)

lemma wf_ops_sandbox [simp]:
  "begin_step (lit ''run_sandbox'') (set_state 1 (lit ''completed'') (state_at 1)) = state_at 2"
  "length (wf_steps (set_state 1 x (state_at 1))) = 2"
  "length (wf_steps (state_at 2)) = 3"
  "fail_step 2 e (state_at 2) = faulted 2 e"
  "\<not> ok r \<Longrightarrow> set_stage (lit ''failed'') (close_sandbox 2 r (state_at 2)) = state_failed r"
  by (simp_all add: wf_ops)

lemma wf_ops_summary [simp]:
  "ok r \<Longrightarrow> begin_step (lit ''summarize'') (close_sandbox 2 r (state_at 2)) = state_at 3"
  "length (wf_steps (close_sandbox 2 r (state_at 2))) = 3"
  "fail_step 3 e (state_at 3) = faulted 3 e"
  "set_stage (lit ''completed'') (set_state 3 (lit ''completed'') (state_at 3)) = state_completed"
  by (simp_all add: wf_ops)

lemma wf_ops_Suc_0 [simp]:
  "begin_step (lit ''run_sandbox'') (set_state (Suc 0) (lit ''completed'') (state_at (Suc 0))) = state_at 2"
  "length (wf_steps (set_state (Suc 0) x (state_at (Suc 0)))) = 2"
  "length (wf_steps (state_at (Suc 0))) = 2"
  "fail_step (Suc 0) e (state_at (Suc 0)) = faulted (Suc 0) e"
  "begin_step (lit ''generate_code'') (set_state 0 (lit ''completed'') (state_at 0)) = state_at (Suc 0)"
  by (simp_all add: wf_ops)

lemma wf_inv_await:
  "step_index q = Some i \<Longrightarrow> wf_inv inp (q, st) \<Longrightarrow> i < 4 \<and> st = state_at i \<and> fail_step i e st = faulted i e"
  by (cases q) auto

lemma wf_inv_step:
  assumes "wf_step inp c c'" and "wf_inv inp c"
  shows "wf_inv inp c'"
  using assms
proof induction
  case (fault q i st e)
  then have "i < 4 \<and> fail_step i e st = faulted i e" using wf_inv_await by blast
  then show ?case by auto
qed auto

lemma wf_inv_reaches: "wf_reaches inp c \<Longrightarrow> wf_inv inp c"
  by (induction rule: rtranclp_induct) (auto intro: wf_inv_step)

section \<open>What a query may see\<close>

definition status_ok :: "RunStatus \<Rightarrow> bool" where
  "status_ok rs \<longleftrightarrow>
     prefix (map st_name (rst_steps rs)) STEP_NAMES
     \<and> list_all (\<lambda>x. st_state x = lit ''completed'') (butlast (rst_steps rs))
     \<and> list_all (\<lambda>x. st_state x \<in> {lit ''running'', lit ''completed'', lit ''failed''}) (rst_steps rs)
     \<and> list_all (\<lambda>x. st_detail x = None
           \<or> st_name x = lit ''run_sandbox'' \<and> st_state x = lit ''failed'') (rst_steps rs)
     \<and> (rst_stage rs = lit ''queued'') = (rst_steps rs = [])
     \<and> (rst_stage rs = lit ''completed'')
         = (length (rst_steps rs) = 4 \<and> st_state (last (rst_steps rs)) = lit ''completed'')
     \<and> (rst_stage rs \<in> {lit ''queued'', lit ''completed'', lit ''failed'', st_name (last (rst_steps rs))})"

lemma steps_upto_status:
  assumes "n < 4" and "x \<in> {lit ''running'', lit ''failed''}"
    and "d = None \<or> n = 2 \<and> x = lit ''failed''" and "g = STEP_NAMES ! n \<or> g = lit ''failed''"
  shows "status_ok \<lparr>rst_run_id = w, rst_stage = g, rst_steps = steps_upto n x d\<rparr>"
proof -
  from assms(1) consider "n = 0" | "n = 1" | "n = 2" | "n = 3" by linarith
  then show ?thesis
    using assms(2-4) by cases (auto simp: status_ok_def steps_upto_def STEP_NAMES_def)
qed

lemma status_ok_states:
  "status_ok (status_query w init_workflow)"
  "n < 4 \<Longrightarrow> status_ok (status_query w (state_at n))"
  "n < 4 \<Longrightarrow> status_ok (status_query w (faulted n e))"
  "status_ok (status_query w (state_failed r))"
  by (simp add: init_workflow_def status_query_def status_ok_def)
    (simp_all add: status_query_def state_at_def faulted_def state_failed_def steps_upto_status)

lemma status_ok_completed: "status_ok (status_query w state_completed)"
  by (simp add: status_ok_def status_query_def state_completed_def steps_upto_def STEP_NAMES_def)

lemma query_status_ok:
  assumes "wf_reaches inp (q, st)"
  shows "status_ok (status_query w st)"
proof (cases q)
  case (Done res)
  with wf_inv_reaches [OF assms] show ?thesis
    by (cases res) (auto simp: status_ok_states status_ok_completed)
qed (use wf_inv_reaches [OF assms] in \<open>auto simp: status_ok_states\<close>)

text \<open>
  C11. Whenever the workflow can be queried, the status is well formed: the steps are the first of
  plan, generate_code, run_sandbox and summarize, all but the last are completed, a detail is
  attached to a failed sandbox step only, the stage is queued exactly before the first step,
  completed exactly after the last one, and otherwise the name of the last step or failed.
\<close>

theorem query_well_formed:
  assumes "wf_reaches inp (q, st)"
  shows "status_ok (status_query w st)"
  using assms by (rule query_status_ok)

lemma reaches_step: "wf_reaches inp c \<Longrightarrow> wf_step inp c c' \<Longrightarrow> wf_reaches inp c'"
  by (rule rtranclp.rtrancl_into_rtrancl)

lemma reaches_plan: "wf_reaches inp (Await_plan 0, state_at 0)"
  using wf_step.start [of inp init_workflow] by auto

lemma reaches_code: "wf_reaches inp (Await_code 1 p, state_at 1)"
  using reaches_step [OF reaches_plan wf_step.plan] by simp

lemma reaches_sandbox: "wf_reaches inp (Await_sandbox 2 p c, state_at 2)"
  using reaches_step [OF reaches_code wf_step.code] by simp

lemma reaches_summary: "ok r \<Longrightarrow> wf_reaches inp (Await_summary 3 p c r, state_at 3)"
  using reaches_step [OF reaches_sandbox wf_step.sandbox_ok] by simp

theorem query_well_formed_witness:
  "status_ok (status_query (lit ''demo:1'') (state_at 2))
   \<and> map st_state (wf_steps (state_at 2)) = [lit ''completed'', lit ''completed'', lit ''running'']"
  using query_well_formed [OF reaches_sandbox] by (simp add: wf_ops)

section \<open>The code's body and the state machine\<close>

lemma wbind_apply:
  "wbind m f st =
     (case m st of
        (cs, st', Inl e) \<Rightarrow> (cs, st', Inl e)
      | (cs, st', Inr x) \<Rightarrow> (cs @ fst (f x st'), fst (snd (f x st')), snd (snd (f x st'))))"
  by (auto simp: wbind_def split: prod.splits sum.splits)

lemmas run_defs = workflow_run_def run_step_def run_sandbox_step_def wbind_apply Let_def

lemma reaches_fault:
  "wf_reaches inp (q, st) \<Longrightarrow> step_index q = Some i \<Longrightarrow>
     wf_reaches inp (Done (Inl e), fail_step i e st)"
  by (erule reaches_step) (rule wf_step.fault)

lemma reaches_done:
  "wf_reaches inp (Done (Inl e), faulted 0 e)"
  "wf_reaches inp (Done (Inl e), faulted (Suc 0) e)"
  "wf_reaches inp (Done (Inl e), faulted 2 e)"
  "ok r \<Longrightarrow> wf_reaches inp (Done (Inl e), faulted 3 e)"
  "\<not> ok r \<Longrightarrow> wf_reaches inp (Done (Inr (failed_result inp c r)), state_failed r)"
  "ok r \<Longrightarrow> wf_reaches inp (Done (Inr (RunResult_completed (ri_run_id inp) m c r)), state_completed)"
  using reaches_fault [OF reaches_plan] reaches_fault [OF reaches_code [simplified], where i = "Suc 0"]
    reaches_fault [OF reaches_sandbox] reaches_fault [OF reaches_summary]
    reaches_step [OF reaches_sandbox wf_step.sandbox_failed]
    reaches_step [OF reaches_summary wf_step.summary] by simp_all

lemma run_reaches_done:
  "wf_reaches inp (Done (snd (snd (workflow_run s acts inp init_workflow))),
     fst (snd (workflow_run s acts inp init_workflow)))"
  by (auto simp: run_defs reaches_done split: sum.splits)

text \<open>
  C16. The workflow's body implements the state machine: for every behaviour of the four
  activities, the attributes and the result with which the body ends are a final state that the
  state machine reaches, so what is proved of its reachable states holds of the code.
\<close>

theorem workflow_refines_machine:
  "wf_reaches inp (Done (snd (snd (workflow_run s acts inp init_workflow))),
     fst (snd (workflow_run s acts inp init_workflow)))"
  by (rule run_reaches_done)

text \<open>A summary is awaited only after an ok result of the sandbox that was awaited.\<close>

lemma summary_after_ok:
  "wf_step inp (Await_sandbox i p c, st) (Await_summary j p' c' r, st') \<Longrightarrow> ok r \<and> p' = p \<and> c' = c"
  by (elim wf_step_sandboxE) simp_all

text \<open>The list of steps only grows, by at most one step at a time.\<close>

lemma steps_grow:
  assumes "wf_step inp (q, st) (q', st')"
  shows "length (wf_steps st) \<le> length (wf_steps st') \<and> length (wf_steps st') \<le> length (wf_steps st) + 1"
  using assms
  by (cases rule: wf_step.cases)
    (auto simp: begin_step_def set_state_def set_stage_def set_detail_def close_sandbox_def
      fail_step_def Let_def)

section \<open>Termination and progress\<close>

text \<open>The number of steps to the end.\<close>

fun wf_rank :: "pc \<Rightarrow> nat" where
  "wf_rank Start = 5"
| "wf_rank (Await_plan i) = 4"
| "wf_rank (Await_code i p) = 3"
| "wf_rank (Await_sandbox i p c) = 2"
| "wf_rank (Await_summary i p c r) = 1"
| "wf_rank (Done r) = 0"

lemma wf_rank_step: "wf_step inp c c' \<Longrightarrow> wf_rank (fst c') < wf_rank (fst c)"
proof (induction rule: wf_step.induct)
  case (fault q i st e)
  then show ?case by (cases q) auto
qed auto

lemma wf_step_iff: "(\<exists>c'. wf_step inp (q, st) c') = (\<forall>r. q \<noteq> Done r)"
proof (cases "step_index q")
  case None
  then show ?thesis by (cases q) (auto simp: wf_step_Done intro: wf_step.start)
next
  case (Some i)
  then show ?thesis using wf_step.fault [OF Some, of inp st CancelledError] by (cases q) auto
qed

interpretation wf_run: terminating "wf_step inp" "\<lambda>c. True" "\<lambda>c. wf_rank (fst c)"
  "\<lambda>c. \<exists>r. fst c = Done r" for inp
proof
  show "(\<nexists>b. wf_step inp a b) \<longleftrightarrow> (\<exists>r. fst a = Done r)" for a
    using wf_step_iff [of inp "fst a" "snd a"] by auto
qed (auto intro: wf_rank_step)

text \<open>
  A run ends: after at most five steps of the state machine no step is possible, and a state
  has no successor exactly when the workflow has returned or raised; at each await, every
  answer of the activity, a value or any exception, lets it go on.
\<close>

theorem workflow_terminates:
  "((wf_step inp ^^ n) (Start, init_workflow) c \<longrightarrow> n \<le> 5)
   \<and> ((\<exists>c'. wf_step inp (q, st) c') = (\<forall>r. q \<noteq> Done r))"
  using wf_run.steps_bound [of n inp "(Start, init_workflow)" c] wf_step_iff by auto

theorem workflow_terminates_witness:
  "\<forall>inp. (wf_step inp ^^ 1) (Start, init_workflow) (Await_plan 0, state_at 0) \<and> (1::nat) \<le> 5"
proof (intro allI)
  fix inp
  show "(wf_step inp ^^ 1) (Start, init_workflow) (Await_plan 0, state_at 0) \<and> (1::nat) \<le> 5"
  proof -
    have "(wf_step inp ^^ 1) (Start, init_workflow) (Await_plan 0, state_at 0)"
      using wf_step.start [of inp init_workflow] by (simp add: relcompp_apply)
    with workflow_terminates [of 1 inp "(Await_plan 0, state_at 0)" Start init_workflow]
    show ?thesis by blast
  qed
qed

section \<open>Outcomes\<close>

lemma or_default_reason: "\<not> ok r \<Longrightarrow> or_default (failure_reason r) d = the (failure_reason r)"
  by (auto simp: or_default_def failure_reason_def)

lemma workflow_result:
  "snd (snd (workflow_run s acts inp init_workflow)) =
     rbind (a_plan acts (ri_task inp)) (\<lambda>plan.
     rbind (a_generate_code acts plan) (\<lambda>code.
     rbind (a_run_sandbox acts (sandbox_args inp code)) (\<lambda>r.
       if ok r then
         rmap (\<lambda>summary. RunResult_completed (ri_run_id inp) summary code r)
           (a_summarize acts \<lparr>sa_plan = plan, sa_sandbox = r\<rparr>)
       else Inr (failed_result inp code r))))"
  by (auto simp: run_defs split: sum.splits)

text \<open>
  C10. The terminal status is decided by the sandbox's verdict alone: the run raises the first
  exception of its activities; otherwise it is completed with the summary exactly when the
  sandbox result is ok, and failed with the result's own reason, the code and the result when
  it is not.  The fallback text \<^verbatim>\<open>sandbox_failed\<close> is never used, and a failed run is not
  summarised.
\<close>

theorem workflow_outcome:
  "snd (snd (workflow_run s acts inp init_workflow)) =
     rbind (a_plan acts (ri_task inp)) (\<lambda>plan.
     rbind (a_generate_code acts plan) (\<lambda>code.
     rbind (a_run_sandbox acts (sandbox_args inp code)) (\<lambda>r.
       if ok r then
         rmap (\<lambda>summary. RunResult_completed (ri_run_id inp) summary code r)
           (a_summarize acts \<lparr>sa_plan = plan, sa_sandbox = r\<rparr>)
       else
         Inr (RunResult_failed (ri_run_id inp) (the (failure_reason r)) (Some r) (Some code)))))"
  unfolding workflow_result
  by (intro arg_cong2 [where f = rbind] ext refl) (simp add: failed_result_def or_default_reason)

section \<open>The calls\<close>

fun call_name :: "wf_call \<Rightarrow> pystr" where
  "call_name (Call_plan t a b p) = lit ''plan''"
| "call_name (Call_generate_code x a b p) = lit ''generate_code''"
| "call_name (Call_run_sandbox x a b h p) = lit ''run_sandbox''"
| "call_name (Call_summarize x a b p) = lit ''summarize''"

text \<open>
  The steps that the status lists are the activities that were called: for every behaviour of
  the activities, the calls of a finished run are in order the names of its steps, each
  activity at most once, and the run is in the completed stage only with all four.
\<close>

theorem steps_mirror_calls:
  "map call_name (fst (workflow_run s acts inp init_workflow))
     = map st_name (wf_steps (fst (snd (workflow_run s acts inp init_workflow))))
   \<and> distinct (map call_name (fst (workflow_run s acts inp init_workflow)))"
  by (auto simp: run_defs split: sum.splits)
    (simp_all add: wf_ops)

text \<open>
  What reaches the sandbox: every sandbox call of a run carries the program that the code
  activity generated from the plan of the task, the run's own limits, tenant and runtime, the
  heartbeat timeout and the policy that does not retry policy violations; and a summary is
  requested only for an ok result which that sandbox call returned.
\<close>

theorem sandbox_call_arguments:
  assumes "call \<in> set (fst (workflow_run s acts inp init_workflow))"
  shows "(\<forall>args a b hb p. call = Call_run_sandbox args a b hb p \<longrightarrow>
       (\<exists>plan. a_plan acts (ri_task inp) = Inr plan \<and> a_generate_code acts plan = Inr (rs_code args))
       \<and> rs_run_id args = ri_run_id inp \<and> rs_tenant_id args = ri_tenant_id inp
       \<and> rs_limits args = ri_limits inp \<and> rs_runtime args = ri_sandbox_runtime inp
       \<and> hb = sandbox_heartbeat_s s \<and> p = SANDBOX_RETRY s)
    \<and> (\<forall>sa a b p. call = Call_summarize sa a b p \<longrightarrow>
       ok (sa_sandbox sa)
       \<and> (\<exists>code. a_run_sandbox acts (sandbox_args inp code) = Inr (sa_sandbox sa)))"
  using assms
  by (auto simp: run_defs sandbox_args_def SANDBOX_HEARTBEAT_def split: sum.splits if_splits)

theorem sandbox_call_arguments_witness:
  "\<exists>acts inp args a b hb p.
     Call_run_sandbox args a b hb p \<in> set (fst (workflow_run default_settings acts inp init_workflow))
     \<and> rs_limits args = ri_limits inp \<and> hb = 10"
proof -
  define acts where "acts = \<lparr>a_plan = (\<lambda>t. Inr \<lparr>pl_task = t, pl_directive = lit ''hang'', pl_steps = []\<rparr>),
    a_generate_code = (\<lambda>p. Inr (pl_directive p)), a_run_sandbox = (\<lambda>a. Inl CancelledError),
    a_summarize = (\<lambda>a. Inl CancelledError)\<rparr>"
  define inp where "inp = \<lparr>ri_run_id = lit ''demo:1'', ri_tenant_id = lit ''demo'',
    ri_task = lit ''t'', ri_limits = default_limits, ri_sandbox_runtime = lit ''runsc''\<rparr>"
  let ?call = "Call_run_sandbox (sandbox_args inp (lit ''hang'')) (SANDBOX_START_TO_CLOSE default_settings)
    (SCHEDULE_TO_START default_settings) (SANDBOX_HEARTBEAT default_settings) (SANDBOX_RETRY default_settings)"
  have c: "?call \<in> set (fst (workflow_run default_settings acts inp init_workflow))"
    by (simp add: run_defs acts_def inp_def)
  have "rs_limits (sandbox_args inp (lit ''hang'')) = ri_limits inp
      \<and> SANDBOX_HEARTBEAT default_settings = 10"
    using sandbox_call_arguments [OF c] by (auto simp: default_settings_def)
  with c show ?thesis by blast
qed

end
