(* ===== verification/RunsApi.thy ===== *)
theory RunsApi
  imports Routes WorkflowRuns
begin

text \<open>
  What holds of the run endpoints: identifiers and payload digests, what a request may start,
  the idempotent replay, the statuses of a response and their agreement with the workflow.  The
  event stream has its own theory.
\<close>

section \<open>Identifiers and payloads\<close>

lemma last_separator:
  fixes sep :: nat
  assumes "a @ sep # b = a' @ sep # b'" and "sep \<notin> set b" and "sep \<notin> set b'"
  shows "a = a' \<and> b = b'"
proof -
  have e: "rev b @ sep # rev a = rev b' @ sep # rev a'"
    using arg_cong [OF assms(1), of rev] by simp
  have "split1_fst sep (rev b @ sep # rev a) = rev b" "split1_snd sep (rev b @ sep # rev a) = rev a"
    "split1_fst sep (rev b' @ sep # rev a') = rev b'" "split1_snd sep (rev b' @ sep # rev a') = rev a'"
    using assms(2,3) by (simp_all add: split1_join)
  with e have "rev b = rev b' \<and> rev a = rev a'" by simp
  then show ?thesis by simp
qed

definition params_tail :: "RunParams \<Rightarrow> pystr" where
  "params_tail p =
     json_str (lit ''sandbox_timeout_s'') @ lit '': '' @ dumps (JOpt JInt (sandbox_timeout_s p)) @ [125]"

lemma dump_params: "dumps (sort_keys (dump_RunParams p)) = 123 # params_tail p"
  by (cases "sandbox_timeout_s p") (simp_all add: dump_RunParams_def params_tail_def JOpt_def lit_Cons)

lemma params_tail_no_brace: "123 \<notin> set (params_tail p)"
proof -
  have "123 \<notin> set (str_int i)" for i using str_int_chars by fastforce
  then show ?thesis
    by (cases "sandbox_timeout_s p")
      (simp_all add: params_tail_def JOpt_def json_str_def json_unit_def utf16_def utf16_units_def
        lit_Cons)
qed

lemma params_tail_inject: "params_tail p = params_tail p' \<longleftrightarrow> p = p'"
proof -
  have "str_int i \<noteq> lit ''null''" for i
  proof
    assume "str_int i = lit ''null''"
    then have "110 \<in> set (str_int i)" by (simp add: lit_Cons)
    then show False using str_int_chars by fastforce
  qed
  note n = this this [symmetric]
  show ?thesis
    by (cases p; cases p'; cases "sandbox_timeout_s p"; cases "sandbox_timeout_s p'")
      (auto simp: params_tail_def JOpt_def n)
qed

lemma same_payload:
  assumes "payload_bytes r = Inr b" and "payload_bytes r' = Inr b"
  shows "rq_task r = rq_task r' \<and> rq_params r = rq_params r'"
proof -
  have "rq_task r @ 123 # params_tail (rq_params r) = rq_task r' @ 123 # params_tail (rq_params r')"
    using assms utf8_encode_inject unfolding payload_bytes_def dump_params by blast
  from last_separator [OF this] show ?thesis
    by (simp add: params_tail_no_brace params_tail_inject)
qed

text \<open>
  The digest that identifies a submission covers all of it: two requests with the same payload
  bytes have the same task and the same parameters, so that without a collision of the hash a
  replayed key with another task or another time limit is told apart.
\<close>

theorem payload_determines_request:
  assumes "payload_bytes r = Inr b" and "payload_bytes r' = Inr b"
  shows "rq_task r = rq_task r' \<and> rq_params r = rq_params r'"
  using assms by (rule same_payload)

definition sample_request :: "int option \<Rightarrow> pystr option \<Rightarrow> RunRequest" where
  "sample_request t k =
     \<lparr>rq_task = lit ''count words'', rq_params = \<lparr>sandbox_timeout_s = t\<rparr>,
      rq_tenant_id = lit ''demo'', rq_idempotency_key = k\<rparr>"

lemma sample_request_simps [simp]:
  "rq_task (sample_request t k) = lit ''count words''"
  "sandbox_timeout_s (rq_params (sample_request t k)) = t"
  "rq_tenant_id (sample_request t k) = lit ''demo''"
  "rq_idempotency_key (sample_request t k) = k"
  by (simp_all add: sample_request_def)

lemma sample_payload: "\<exists>b. payload_bytes (sample_request t k) = Inr b"
proof -
  have "is_ascii (rq_task (sample_request t k) @ 123 # params_tail (rq_params (sample_request t k)))"
    by (cases t) (simp_all add: params_tail_def JOpt_def)
  then show ?thesis unfolding payload_bytes_def dump_params by (simp add: utf8_encode_ascii)
qed

theorem payload_determines_request_witness:
  "\<exists>b. payload_bytes (sample_request (Some 5) None) = Inr b
     \<and> payload_bytes (sample_request (Some 6) None) \<noteq> Inr b"
proof -
  obtain b where b: "payload_bytes (sample_request (Some 5) None) = Inr b"
    using sample_payload by blast
  have "rq_params (sample_request (Some 5) None) \<noteq> rq_params (sample_request (Some 6) None)"
    by (simp add: sample_request_def)
  with payload_determines_request [OF b] b show ?thesis by blast
qed

lemma workflow_id_cases:
  assumes "workflow_id I r = Inr wid"
  shows "\<exists>k. wid = rq_tenant_id r @ lit '':'' @ k"
  using assms by (auto simp: workflow_id_def Let_def rmap_eq_Inr split: option.splits if_splits)

text \<open>
  C24. A run identifier names its tenant: the activities recover from it exactly the tenant of a
  valid request, so the runs of two tenants never share an identifier, whatever their
  idempotency keys are.
\<close>

theorem run_id_names_tenant:
  assumes "valid_RunRequest r" and "workflow_id I r = Inr wid"
  shows "tenant_of wid = Some (rq_tenant_id r)
    \<and> (\<forall>r'. valid_RunRequest r' \<longrightarrow> workflow_id I r' = Inr wid \<longrightarrow> rq_tenant_id r' = rq_tenant_id r)"
proof -
  have t: "tenant_of wid = Some (rq_tenant_id q)"
    if "valid_RunRequest q" "workflow_id I q = Inr wid" for q
    using that workflow_id_cases [of I q wid] tenant_no_colon tenant_of_join
    by (auto simp: valid_RunRequest_def)
  from t [OF assms] t show ?thesis by auto
qed

theorem run_id_names_tenant_witness:
  "\<forall>I. workflow_id I (sample_request None (Some (lit ''a:b''))) = Inr (lit ''demo:a:b'')
   \<and> tenant_of (lit ''demo:a:b'') = Some (lit ''demo'')"
proof (intro allI)
  fix I
  show "workflow_id I (sample_request None (Some (lit ''a:b''))) = Inr (lit ''demo:a:b'')
   \<and> tenant_of (lit ''demo:a:b'') = Some (lit ''demo'')"
  proof -
    let ?r = "sample_request None (Some (lit ''a:b''))"
    have w: "workflow_id I ?r = Inr (lit ''demo:a:b'')"
      by (simp add: workflow_id_def Let_def lit_Cons)
    have v: "valid_RunRequest ?r"
      by (simp add: valid_RunRequest_def valid_RunParams_def tenant_char_def lit_Cons)
    from run_id_names_tenant [OF v w] w show ?thesis by simp
  qed
qed

section \<open>What a request may start\<close>

lemma ask_simps [simp]:
  "fst (ask ev r) = [ev]"
  "snd (ask ev r) = (case r of Inl e \<Rightarrow> Raise e | Inr x \<Rightarrow> Return x)"
  by (simp_all add: ask_def fst_ebind snd_lift_res split: sum.splits)

lemma utf8_encode_Inl: "utf8_encode t = Inl e \<Longrightarrow> e = UnicodeEncodeError"
  by (auto simp: utf8_encode_def split: if_splits)

lemma payload_bytes_Inl: "payload_bytes r = Inl e \<Longrightarrow> e = UnicodeEncodeError"
  by (simp add: payload_bytes_def utf8_encode_Inl)

lemma workflow_id_Inl: "workflow_id I r = Inl e \<Longrightarrow> e = UnicodeEncodeError"
  by (auto simp: workflow_id_def Let_def payload_bytes_Inl split: option.splits if_splits)

lemma handle_already_started_events:
  "Start_workflow sc \<notin> set (fst (handle_already_started I c req wid))"
  by (auto simp: handle_already_started_def eff_unfold split: outcome.splits sum.splits)

lemma create_run_start_call:
  assumes "Start_workflow sc \<in> set (fst (create_run I s c req))"
  shows "\<exists>b wid p. utf8_encode (rq_task req) = Inr b \<and> int (length b) \<le> max_task_bytes s
    \<and> workflow_id I req = Inr wid \<and> payload_bytes req = Inr p
    \<and> sc = \<lparr>sc_input = run_input s req wid, sc_id = wid, sc_task_queue = task_queue s,
            sc_run_timeout = WORKFLOW_RUN_TIMEOUT s, sc_id_reuse_policy = lit ''REJECT_DUPLICATE'',
            sc_memo = [(lit ''task_sha256'', sha256_hex I p)]\<rparr>"
proof -
  from assms obtain b wid where "utf8_encode (rq_task req) = Inr b" "int (length b) \<le> max_task_bytes s"
    and "workflow_id I req = Inr wid"
    and "Start_workflow sc \<in> set (fst (start_run I s c req wid))"
    using handle_already_started_events
    by (auto simp: create_run_def eff_unfold snd_lift_res split: outcome.splits sum.splits exn.splits if_splits)
  then show ?thesis
    by (auto simp: start_run_def eff_unfold snd_lift_res rmap_def split: sum.splits)
qed

lemma create_run_memo:
  "Start_workflow sc \<in> set (fst (create_run I s c req)) \<Longrightarrow>
     \<exists>p. payload_bytes req = Inr p \<and> sc_memo sc = [(lit ''task_sha256'', sha256_hex I p)]"
  by (drule create_run_start_call) auto

text \<open>
  C21. What a request may start: a run is started only for a task within the byte limit, under the
  identifier of the request, with the request's tenant and task, the configured runtime and the
  configured limits, except that the wall clock is the requested one when that is lower; it is
  never above the ceiling.  A duplicate identifier is rejected by the service, and the memo
  records the digest of the payload.
\<close>

theorem create_run_starts:
  assumes "Start_workflow sc \<in> set (fst (create_run I s c req))"
  shows "(\<exists>b. utf8_encode (rq_task req) = Inr b \<and> int (length b) \<le> max_task_bytes s)
    \<and> workflow_id I req = Inr (sc_id sc)
    \<and> sc_input sc = \<lparr>ri_run_id = sc_id sc, ri_tenant_id = rq_tenant_id req, ri_task = rq_task req,
        ri_limits = (resource_limits s)\<lparr>wall_clock_s := wall_clock_s (ri_limits (sc_input sc))\<rparr>,
        ri_sandbox_runtime = sandbox_runtime s\<rparr>
    \<and> wall_clock_s (ri_limits (sc_input sc)) =
        (case sandbox_timeout_s (rq_params req) of
           None \<Rightarrow> sandbox_wall_clock_s s | Some t \<Rightarrow> min t (sandbox_wall_clock_s s))
    \<and> wall_clock_s (ri_limits (sc_input sc)) \<le> sandbox_wall_clock_s s
    \<and> sc_id_reuse_policy sc = lit ''REJECT_DUPLICATE''
    \<and> (\<exists>b. payload_bytes req = Inr b \<and> sc_memo sc = [(lit ''task_sha256'', sha256_hex I b)])"
  using create_run_start_call [OF assms]
  by (auto simp: run_input_def request_limits_def resource_limits_def split: option.split)

definition sample_client :: "unit result \<Rightarrow> description result \<Rightarrow> client" where
  "sample_client st d =
     \<lparr>cl_start = st, cl_describe = d, cl_query = Inl CancelledError, cl_result = Inl CancelledError,
      cl_cancel = Inr (), cl_str = exn_name\<rparr>"

lemma sample_client_simps [simp]:
  "cl_start (sample_client st d) = st"
  "cl_describe (sample_client st d) = d"
  by (simp_all add: sample_client_def)

theorem create_run_starts_witness:
  "\<forall>I d. \<exists>sc. Start_workflow sc \<in> set (fst (create_run I default_settings (sample_client (Inr ()) d)
        (sample_request (Some 120) (Some (lit ''k'')))))
     \<and> wall_clock_s (ri_limits (sc_input sc)) = 30"
proof (intro allI)
  fix I d
  show "\<exists>sc. Start_workflow sc \<in> set (fst (create_run I default_settings (sample_client (Inr ()) d)
        (sample_request (Some 120) (Some (lit ''k'')))))
     \<and> wall_clock_s (ri_limits (sc_input sc)) = 30"
  proof -
    let ?req = "sample_request (Some 120) (Some (lit ''k''))" and ?c = "sample_client (Inr ()) d"
    obtain p where p: "payload_bytes ?req = Inr p" using sample_payload by blast
    have "utf8_encode (lit ''count words'') = Inr (map word_of_nat (lit ''count words''))"
      by (simp add: utf8_encode_ascii)
    moreover have "workflow_id I ?req = Inr (lit ''demo:k'')" by (simp add: workflow_id_def lit_Cons)
    ultimately have "\<exists>sc. Start_workflow sc \<in> set (fst (create_run I default_settings ?c ?req))"
      using p by (auto simp: create_run_def start_run_def eff_unfold snd_lift_res default_settings_def
          split: outcome.splits)
    then obtain sc where sc: "Start_workflow sc \<in> set (fst (create_run I default_settings ?c ?req))" ..
    with create_run_starts [OF sc] show ?thesis by (auto simp: default_settings_def)
  qed
qed

section \<open>A reused key\<close>

definition conflict :: exn where
  "conflict = APIError 409 (lit ''IDEMPOTENCY_CONFLICT'')
     (lit ''idempotency key reused with a different payload'')"

definition admissible :: "interp \<Rightarrow> Settings \<Rightarrow> RunRequest \<Rightarrow> pystr \<Rightarrow> byte list \<Rightarrow> bool" where
  "admissible I s r wid b \<longleftrightarrow>
     (\<exists>t. utf8_encode (rq_task r) = Inr t \<and> int (length t) \<le> max_task_bytes s)
     \<and> workflow_id I r = Inr wid \<and> payload_bytes r = Inr b"

lemma create_run_already_started:
  assumes "admissible I s r wid b" and "cl_start c = Inl WorkflowAlreadyStartedError"
  shows "snd (create_run I s c r) = snd (handle_already_started I c r wid)"
  using assms
  by (auto simp: admissible_def create_run_def start_run_def eff_unfold snd_lift_res
      split: outcome.split)

lemma handle_already_started_described:
  assumes "payload_bytes r = Inr b" and "cl_describe c = Inr d"
  shows "snd (handle_already_started I c r wid) =
    (case memo_get (de_memo d) (lit ''task_sha256'') of
       Inr (Some x) \<Rightarrow> if x = sha256_hex I b then Return (accepted_response 200 r wid) else Raise conflict
     | _ \<Rightarrow> Return (accepted_response 200 r wid))"
  using assms
  by (cases "de_memo d")
    (auto simp: handle_already_started_def eff_unfold snd_lift_res conflict_def split: option.splits)

lemma replay_outcome:
  assumes "Start_workflow sc \<in> set (fst (create_run I s c0 r0))"
    and "admissible I s r (sc_id sc) b"
    and "\<And>b0. payload_bytes r0 = Inr b0 \<Longrightarrow> sha256_hex I b0 = sha256_hex I b \<Longrightarrow> b0 = b"
    and "cl_start c = Inl WorkflowAlreadyStartedError"
    and "cl_describe c = Inr d" and "de_memo d = Memo_mapping (sc_memo sc)"
  shows "snd (create_run I s c r) =
    (if rq_task r = rq_task r0 \<and> rq_params r = rq_params r0
     then Return (accepted_response 200 r (sc_id sc)) else Raise conflict)"
proof -
  obtain b0 where b0: "payload_bytes r0 = Inr b0" "sc_memo sc = [(lit ''task_sha256'', sha256_hex I b0)]"
    using create_run_memo [OF assms(1)] by blast
  have b: "payload_bytes r = Inr b" using assms(2) by (simp add: admissible_def)
  have "sha256_hex I b0 = sha256_hex I b \<longleftrightarrow> rq_task r = rq_task r0 \<and> rq_params r = rq_params r0"
  proof
    assume "sha256_hex I b0 = sha256_hex I b"
    with assms(3) b0 have "b0 = b" by simp
    with b b0 show "rq_task r = rq_task r0 \<and> rq_params r = rq_params r0"
      using same_payload by metis
  next
    assume "rq_task r = rq_task r0 \<and> rq_params r = rq_params r0"
    with b b0 show "sha256_hex I b0 = sha256_hex I b" by (simp add: payload_bytes_def)
  qed
  then show ?thesis
    using create_run_already_started [OF assms(2,4)] handle_already_started_described [OF b assms(5)]
      b0 assms(6) by auto
qed

lemma handle_already_started_fault:
  assumes "payload_bytes r = Inr b" and "cl_describe c = Inl e"
  shows "snd (handle_already_started I c r wid) =
    (if is_Exception e then Return (accepted_response 200 r wid) else Raise e)"
  using assms by (simp add: handle_already_started_def eff_unfold snd_lift_res)

text \<open>
  C22. The answer to a reused identifier, whatever the service says about the run that has it.  It
  is the 409 conflict exactly when the memo of the description is a mapping whose stored digest
  is another one than the digest of this payload; without a collision of the hash that is exactly
  a submission with another task or other parameters.  In every other case, a mapping without
  the digest, a failing description, and a memo that is a method, as in the temporalio 1.9.0 that
  the project pins, the answer is the replay with 200, also for another payload; only an
  exception outside \<^verbatim>\<open>Exception\<close>, as the cancellation of the handler, goes through.
\<close>

theorem reused_key_answer:
  assumes "admissible I s r wid b" and "cl_start c = Inl WorkflowAlreadyStartedError"
  shows "snd (create_run I s c r) =
      (case cl_describe c of
         Inl e \<Rightarrow> if is_Exception e then Return (accepted_response 200 r wid) else Raise e
       | Inr d \<Rightarrow>
           (case de_memo d of
              Memo_method \<Rightarrow> Return (accepted_response 200 r wid)
            | Memo_mapping m \<Rightarrow>
                if \<exists>x. map_of m (lit ''task_sha256'') = Some x \<and> x \<noteq> sha256_hex I b
                then Raise conflict else Return (accepted_response 200 r wid)))
    \<and> (\<forall>r0 b0. payload_bytes r0 = Inr b0 \<longrightarrow> (sha256_hex I b0 = sha256_hex I b \<longrightarrow> b0 = b) \<longrightarrow>
         (sha256_hex I b0 \<noteq> sha256_hex I b) = (rq_task r \<noteq> rq_task r0 \<or> rq_params r \<noteq> rq_params r0))"
proof (intro conjI allI impI)
  have b: "payload_bytes r = Inr b" using assms(1) by (simp add: admissible_def)
  show "snd (create_run I s c r) =
      (case cl_describe c of
         Inl e \<Rightarrow> if is_Exception e then Return (accepted_response 200 r wid) else Raise e
       | Inr d \<Rightarrow>
           (case de_memo d of
              Memo_method \<Rightarrow> Return (accepted_response 200 r wid)
            | Memo_mapping m \<Rightarrow>
                if \<exists>x. map_of m (lit ''task_sha256'') = Some x \<and> x \<noteq> sha256_hex I b
                then Raise conflict else Return (accepted_response 200 r wid)))"
    using handle_already_started_fault [OF b] handle_already_started_described [OF b]
    unfolding create_run_already_started [OF assms]
    by (auto split: sum.split memo_attr.split option.split)
  fix r0 b0
  assume b0: "payload_bytes r0 = Inr b0" and nc: "sha256_hex I b0 = sha256_hex I b \<longrightarrow> b0 = b"
  show "(sha256_hex I b0 \<noteq> sha256_hex I b) = (rq_task r \<noteq> rq_task r0 \<or> rq_params r \<noteq> rq_params r0)"
  proof -
    have "b0 = b" if "rq_task r = rq_task r0" "rq_params r = rq_params r0"
      using b b0 that by (simp add: payload_bytes_def)
    moreover have "rq_task r = rq_task r0 \<and> rq_params r = rq_params r0" if "b0 = b"
      using same_payload [of r b r0] b b0 that by blast
    ultimately show ?thesis using nc by blast
  qed
qed

lemma sample_admissible:
  "\<exists>b. admissible I default_settings (sample_request t (Some (lit ''k''))) (lit ''demo:k'') b"
proof -
  have "utf8_encode (lit ''count words'') = Inr (map word_of_nat (lit ''count words''))"
    by (simp add: utf8_encode_ascii)
  then show ?thesis
    using sample_payload [of t "Some (lit ''k'')"]
    by (auto simp: admissible_def workflow_id_def lit_Cons default_settings_def)
qed

lemma admissible_starts:
  assumes "admissible I s r wid b"
  shows "Start_workflow \<lparr>sc_input = run_input s r wid, sc_id = wid, sc_task_queue = task_queue s,
      sc_run_timeout = WORKFLOW_RUN_TIMEOUT s, sc_id_reuse_policy = lit ''REJECT_DUPLICATE'',
      sc_memo = [(lit ''task_sha256'', sha256_hex I b)]\<rparr> \<in> set (fst (create_run I s c r))"
  using assms
  by (auto simp: admissible_def create_run_def start_run_def eff_unfold snd_lift_res not_less)

lemma sample_starts:
  "\<exists>sc. Start_workflow sc \<in> set (fst (create_run I default_settings (sample_client (Inr ()) d)
        (sample_request t (Some (lit ''k''))))) \<and> sc_id sc = lit ''demo:k''"
  using sample_admissible [of I t] admissible_starts by (metis start_call.select_convs(2))

definition open_interp :: interp where
  "open_interp = const_interp\<lparr>sha256_hex := map unat\<rparr>"

lemma open_interp_inject: "sha256_hex open_interp b = sha256_hex open_interp b' \<Longrightarrow> b = b'"
  by (simp add: open_interp_def inj_map_eq_map [OF injI [of unat]])

theorem reused_key_answer_witness:
  "\<exists>x. snd (create_run open_interp default_settings
      (sample_client (Inl WorkflowAlreadyStartedError)
         (Inr \<lparr>de_status = None, de_memo = Memo_mapping [(lit ''task_sha256'', x)]\<rparr>))
      (sample_request (Some 6) (Some (lit ''k'')))) = Raise conflict
    \<and> snd (create_run open_interp default_settings
      (sample_client (Inl WorkflowAlreadyStartedError)
         (Inr \<lparr>de_status = None, de_memo = Memo_method\<rparr>))
      (sample_request (Some 6) (Some (lit ''k''))))
        = Return (accepted_response 200 (sample_request (Some 6) (Some (lit ''k''))) (lit ''demo:k''))"
proof -
  let ?r = "sample_request (Some 6) (Some (lit ''k''))" and ?first = "sample_request (Some 5) (Some (lit ''k''))"
  obtain b where b: "admissible open_interp default_settings ?r (lit ''demo:k'') b"
    using sample_admissible by metis
  obtain b0 where b0: "payload_bytes ?first = Inr b0" using sample_payload by blast
  let ?x = "sha256_hex open_interp b0"
  let ?c = "sample_client (Inl WorkflowAlreadyStartedError)
      (Inr \<lparr>de_status = None, de_memo = Memo_mapping [(lit ''task_sha256'', ?x)]\<rparr>)"
  let ?c' = "sample_client (Inl WorkflowAlreadyStartedError)
      (Inr \<lparr>de_status = None, de_memo = Memo_method\<rparr>)"
  have c: "cl_start ?c = Inl WorkflowAlreadyStartedError" "cl_start ?c' = Inl WorkflowAlreadyStartedError"
    by simp_all
  have "rq_params ?r \<noteq> rq_params ?first" by (simp add: sample_request_def)
  with reused_key_answer [OF b c(1)] b0 open_interp_inject
  have "?x \<noteq> sha256_hex open_interp b" by blast
  then have "snd (create_run open_interp default_settings ?c ?r) = Raise conflict"
    using conjunct1 [OF reused_key_answer [OF b c(1)]] by simp
  moreover have "snd (create_run open_interp default_settings ?c' ?r)
      = Return (accepted_response 200 ?r (lit ''demo:k''))"
    using conjunct1 [OF reused_key_answer [OF b c(2)]] by simp
  ultimately show ?thesis by blast
qed

section \<open>Responses\<close>

lemma resolve_status_Return:
  assumes "snd (resolve_status I c run_id) = Return r"
  obtains (running) rs where "r = running run_id rs" "cl_query c = Inr rs"
  | (completed) res where "r = completed run_id res" "cl_result c = Inr res"
  | (failed) st m where "rsr_status r = terminal_status st" "rsr_run_id r = run_id"
      "rsr_error r = Some \<lparr>ed_code = terminal_status st, ed_step = None, ed_message = m, ed_retryable = False\<rparr>"
      "st \<noteq> Some RUNNING" "st \<noteq> Some COMPLETED"
  using assms
  by (auto simp: resolve_status_def or_not_found_def terminal_failure_def eff_unfold Let_def
      split: outcome.splits sum.splits if_splits)

lemma terminal_status_TERMINAL: "terminal_status st \<in> {lit ''FAILED'', lit ''TIMED_OUT'', lit ''CANCELLED''}"
  by (cases st) (auto simp: terminal_status_def STATUS_MAPPING_def split: option.splits)

lemma SSE_EVENT_lookup:
  "x \<in> set TERMINAL \<longleftrightarrow> (\<exists>ev. map_of SSE_EVENT x = Some ev)"
  by (auto simp: TERMINAL_def SSE_EVENT_def)

lemma completed_status [simp]:
  "rsr_status (completed run_id r) =
     (if rr_status r = lit ''completed'' then lit ''COMPLETED'' else lit ''FAILED'')"
  by (simp add: completed_def Let_def)

lemma running_status [simp]: "rsr_status (running run_id rs) = lit ''RUNNING''"
  by (simp add: running_def)

text \<open>
  Whatever the service answers, a response has a status that the stream knows: it is running,
  or one of the four terminal ones, for which the table of stream events has an entry; a
  response without an error entry is running or completed.  So the table lookup of the
  generator cannot fail.
\<close>

theorem response_status_known:
  assumes "snd (resolve_status I c run_id) = Return r"
  shows "(rsr_status r = lit ''RUNNING'' \<and> rsr_status r \<notin> set TERMINAL
      \<or> rsr_status r \<in> set TERMINAL \<and> (\<exists>ev. map_of SSE_EVENT (rsr_status r) = Some ev))
    \<and> (rsr_error r = None) = (rsr_status r \<in> {lit ''RUNNING'', lit ''COMPLETED''})
    \<and> rsr_run_id r = run_id"
  using assms
proof (cases rule: resolve_status_Return)
  case (running rs)
  then show ?thesis by (simp add: running_def TERMINAL_def)
next
  case (completed res)
  then show ?thesis by (simp add: completed_def Let_def TERMINAL_def SSE_EVENT_def)
next
  case (failed st m)
  with terminal_status_TERMINAL [of st] show ?thesis
    by (auto simp: TERMINAL_def SSE_EVENT_def)
qed

theorem response_status_known_witness:
  "\<forall>I. \<exists>r. snd (resolve_status I (sample_client (Inr ()) (Inr \<lparr>de_status = Some CONTINUED_AS_NEW,
        de_memo = Memo_method\<rparr>)\<lparr>cl_result := Inl ValueError\<rparr>) (lit ''demo:1'')) = Return r
     \<and> rsr_status r \<in> set TERMINAL"
proof (intro allI)
  fix I
  show "\<exists>r. snd (resolve_status I (sample_client (Inr ()) (Inr \<lparr>de_status = Some CONTINUED_AS_NEW,
        de_memo = Memo_method\<rparr>)\<lparr>cl_result := Inl ValueError\<rparr>) (lit ''demo:1'')) = Return r
     \<and> rsr_status r \<in> set TERMINAL"
  proof -
    let ?c = "sample_client (Inr ()) (Inr \<lparr>de_status = Some CONTINUED_AS_NEW,
          de_memo = Memo_method\<rparr>)\<lparr>cl_result := Inl ValueError\<rparr>"
    have "\<exists>r. snd (resolve_status I ?c (lit ''demo:1'')) = Return r \<and> rsr_error r \<noteq> None"
      by (simp add: resolve_status_def or_not_found_def terminal_failure_def eff_unfold Let_def
          sample_client_def)
    then obtain r where r: "snd (resolve_status I ?c (lit ''demo:1'')) = Return r" "rsr_error r \<noteq> None"
      by blast
    with response_status_known [OF r(1)] show ?thesis by auto
  qed
qed

lemma filter_completed_prefix:
  assumes "prefix (map st_name xs) STEP_NAMES"
    and "list_all (\<lambda>x. st_state x = lit ''completed'') (butlast xs)"
  shows "prefix (map st_name (filter (\<lambda>x. st_state x = lit ''completed'') xs)) STEP_NAMES"
proof (cases xs rule: rev_cases)
  case (snoc ys y)
  with assms(2) have "filter (\<lambda>x. st_state x = lit ''completed'') ys = ys"
    by (simp add: list_all_iff)
  with snoc assms(1) show ?thesis by (auto dest: append_prefixD)
qed simp

text \<open>
  A running response shows the workflow as it is: for every state in which the workflow can
  be queried, the completed steps are the first of the four, in order, with at most the last
  listed step missing, and the current step is the stage.
\<close>

theorem running_response_of_workflow:
  assumes "wf_reaches inp (q, st)"
  shows "prefix (rsr_completed_steps (running run_id (status_query w st))) STEP_NAMES
    \<and> length (rsr_steps (running run_id (status_query w st)))
        \<le> length (rsr_completed_steps (running run_id (status_query w st))) + 1
    \<and> rsr_current_step (running run_id (status_query w st)) = Some (wf_stage st)"
proof -
  have ok: "prefix (map st_name (wf_steps st)) STEP_NAMES"
    "list_all (\<lambda>x. st_state x = lit ''completed'') (butlast (wf_steps st))"
    using query_status_ok [OF assms, of w] by (simp_all add: status_ok_def status_query_def)
  have "length xs \<le> length (filter P xs) + 1" if "list_all P (butlast xs)" for P and xs :: "StepStatus list"
    using that by (cases xs rule: rev_cases) (simp_all add: list_all_iff)
  with ok filter_completed_prefix [OF ok] show ?thesis
    by (simp add: running_def status_query_def)
qed

theorem running_response_of_workflow_witness:
  "rsr_completed_steps (running (lit ''demo:1'') (status_query (lit ''demo:1'') (state_at 2)))
     = [lit ''plan'', lit ''generate_code'']
   \<and> prefix [lit ''plan'', lit ''generate_code''] STEP_NAMES"
proof -
  have c: "rsr_completed_steps (running (lit ''demo:1'') (status_query (lit ''demo:1'') (state_at 2)))
     = [lit ''plan'', lit ''generate_code'']"
    by (simp add: running_def status_query_def wf_ops)
  show ?thesis
    using running_response_of_workflow [OF reaches_sandbox, of "lit ''demo:1''" "lit ''demo:1''"] c
    by metis
qed

text \<open>
  The API reports the sandbox's verdict: for the result with which the workflow returns, the
  response is completed exactly when the sandbox result is ok, with the summary; otherwise it is
  failed with the sandbox's own reason as its message, never the fallback text, and in both
  cases it carries the code and a model of that same sandbox result.
\<close>

theorem completed_response_of_workflow:
  assumes "snd (snd (workflow_run s acts inp init_workflow)) = Inr res"
  shows "\<exists>sb m. rr_sandbox res = Some sb
    \<and> rsr_result (completed run_id res) = Some m \<and> rm_sandbox m = Some (sandbox_model sb)
    \<and> rm_code m = rr_code res \<and> rm_code m \<noteq> None
    \<and> (rsr_status (completed run_id res) = lit ''COMPLETED'') = ok sb
    \<and> (ok sb \<longrightarrow> rm_summary m \<noteq> None \<and> rsr_error (completed run_id res) = None)
    \<and> (\<not> ok sb \<longrightarrow> rsr_status (completed run_id res) = lit ''FAILED''
         \<and> map_option ed_message (rsr_error (completed run_id res)) = failure_reason sb)"
proof -
  from assms obtain code r where "(\<exists>m. ok r \<and> res = RunResult_completed (ri_run_id inp) m code r)
      \<or> \<not> ok r \<and> res = failed_result inp code r"
    using wf_inv_reaches [OF run_reaches_done, of inp s acts] by auto
  then show ?thesis
    by (elim disjE exE conjE)
      (auto simp: completed_def Let_def failed_result_def RunResult_completed_def
        RunResult_failed_def or_default_reason failure_reason_def or_default_def)
qed

theorem completed_response_of_workflow_witness:
  "\<exists>acts res sb. snd (snd (workflow_run default_settings acts
       \<lparr>ri_run_id = lit ''demo:1'', ri_tenant_id = lit ''demo'', ri_task = lit ''t'',
        ri_limits = default_limits, ri_sandbox_runtime = lit ''runsc''\<rparr> init_workflow)) = Inr res
     \<and> rr_sandbox res = Some sb \<and> \<not> ok sb
     \<and> map_option ed_message (rsr_error (completed (lit ''demo:1'') res)) = failure_reason sb"
proof -
  define sb where "sb = \<lparr>sb_runtime = lit ''runsc'', exit_code = 3, stdout_tail = [], stderr_tail = [],
    wall_ms = 5, oom_killed = False, wall_clock_exceeded = False, image_digest = None, truncated = False\<rparr>"
  define acts where "acts = \<lparr>a_plan = (\<lambda>t. Inr \<lparr>pl_task = t, pl_directive = lit ''fail'', pl_steps = []\<rparr>),
    a_generate_code = (\<lambda>p. Inr (pl_directive p)), a_run_sandbox = (\<lambda>a. Inr sb),
    a_summarize = (\<lambda>a. Inl CancelledError)\<rparr>"
  define inp where "inp = \<lparr>ri_run_id = lit ''demo:1'', ri_tenant_id = lit ''demo'', ri_task = lit ''t'',
        ri_limits = default_limits, ri_sandbox_runtime = lit ''runsc''\<rparr>"
  have n: "\<not> ok sb" by (simp add: sb_def ok_def)
  then have r: "snd (snd (workflow_run default_settings acts inp init_workflow))
      = Inr (failed_result inp (lit ''fail'') sb)"
    by (simp add: run_defs acts_def)
  have "rr_sandbox (failed_result inp (lit ''fail'') sb) = Some sb"
    by (simp add: failed_result_def RunResult_failed_def)
  then have "map_option ed_message (rsr_error (completed (lit ''demo:1'') (failed_result inp (lit ''fail'') sb)))
      = failure_reason sb"
    using completed_response_of_workflow [OF r, of "lit ''demo:1''"] n by auto
  with r n \<open>rr_sandbox _ = _\<close> show ?thesis unfolding inp_def by blast
qed

end
