(* ===== verification/RunStream.thy ===== *)
theory RunStream
  imports RunsApi
begin

text \<open>
  The event stream of a run: what a client reads from its text, by a reader of the event-stream
  format that is independent of how frames are written, the order of the events, and the bound
  on the stream's length in the arithmetic of doubles.
\<close>

section \<open>Reading a stream\<close>

datatype frame =
    Comment pystr
  | Event pystr pystr

fun frame_text :: "frame \<Rightarrow> pystr" where
  "frame_text (Comment c) = 58 # c @ [10, 10]"
| "frame_text (Event e line) = lit ''event: '' @ e @ 10 # lit ''data: '' @ line @ [10, 10]"

fun good_frame :: "frame \<Rightarrow> bool" where
  "good_frame (Comment c) = (10 \<notin> set c)"
| "good_frame (Event e line) = (10 \<notin> set e \<and> 10 \<notin> set line)"

text \<open>A frame is a comment line or an event line and a data line, and then an empty line.\<close>

definition read_frame :: "pystr \<Rightarrow> (frame \<times> pystr) option" where
  "read_frame s =
     (let l1 = split1_fst 10 s; r1 = split1_snd 10 s;
          l2 = split1_fst 10 r1; r2 = split1_snd 10 r1 in
      if prefix [58] l1 then
        (if prefix [10] r1 then Some (Comment (tl l1), tl r1) else None)
      else if prefix (lit ''event: '') l1 \<and> prefix (lit ''data: '') l2 \<and> prefix [10] r2 then
        Some (Event (drop 7 l1) (drop 6 l2), tl r2)
      else None)"

definition read_stream :: "pystr \<Rightarrow> frame list option" where
  "read_stream s = map_option fst (read_all end_of_bytes read_frame (length s) s)"

lemma read_frame_Comment:
  assumes "10 \<notin> set c"
  shows "read_frame (58 # c @ 10 # 10 # r) = Some (Comment c, r)"
  using split1_join [of 10 "58 # c" "10 # r"] assms by (simp add: read_frame_def Let_def)

lemma read_frame_Event:
  assumes "10 \<notin> set e" and "10 \<notin> set line"
  shows "read_frame (lit ''event: '' @ e @ 10 # lit ''data: '' @ line @ 10 # 10 # r) = Some (Event e line, r)"
proof -
  have 1: "split1_fst 10 (lit ''event: '' @ e @ 10 # t) = lit ''event: '' @ e"
    "split1_snd 10 (lit ''event: '' @ e @ 10 # t) = t" for t
    using split1_join [of 10 "lit ''event: '' @ e" t] assms by (simp_all add: lit_Cons)
  have 2: "split1_fst 10 (lit ''data: '' @ line @ 10 # t) = lit ''data: '' @ line"
    "split1_snd 10 (lit ''data: '' @ line @ 10 # t) = t" for t
    using split1_join [of 10 "lit ''data: '' @ line" t] assms by (simp_all add: lit_Cons)
  show ?thesis
    unfolding read_frame_def Let_def 1 2 by (simp add: lit_Cons)
qed

lemma read_frame_shorter: "read_frame s = Some (f, r) \<Longrightarrow> length r < length s"
proof -
  assume r: "read_frame s = Some (f, r)"
  have l: "length (split1_snd 10 x) \<le> length x" for x
    using length_dropWhile_le [of "\<lambda>c. c \<noteq> 10" x] by (simp add: split1_snd_def)
  let ?r1 = "split1_snd 10 s"
  have "\<exists>x. (x = ?r1 \<or> x = split1_snd 10 ?r1) \<and> r = tl x \<and> x \<noteq> []"
    using r by (auto simp: read_frame_def Let_def split: if_splits)
  then obtain x where x: "x = ?r1 \<or> x = split1_snd 10 ?r1" "r = tl x" "x \<noteq> []" by blast
  then have "length x \<le> length s" using l [of s] l [of ?r1] by auto
  moreover have "length r < length x" using x by (cases x) auto
  ultimately show ?thesis by simp
qed

interpretation frames: char_codec frame_text read_frame end_of_bytes good_frame
proof unfold_locales
  show "good_frame f \<Longrightarrow> read_frame (frame_text f @ r) = Some (f, r)" for f r
    by (cases f) (simp_all add: read_frame_Comment read_frame_Event)
  show "good_frame f \<Longrightarrow> end_of_bytes (frame_text f @ r) = None" for f r
    by (cases f) (simp_all add: end_of_bytes_def lit_Cons)
  show "read_frame bs = Some (f, r) \<Longrightarrow> length r < length bs" for bs f r
    by (rule read_frame_shorter)
  show "end_of_bytes bs = Some r \<Longrightarrow> length r \<le> length bs" for bs r
    by (auto simp: end_of_bytes_def split: if_splits)
qed

lemma read_stream_frames:
  assumes "list_all good_frame fs"
  shows "read_stream (concat (map frame_text fs)) = Some fs"
  using frames.read_all_enc [OF assms, of "[]" "[]"] frames.length_enc_ge [OF assms]
  by (simp add: read_stream_def end_of_bytes_def)

section \<open>The frames of the generator\<close>

definition yields :: "api_event list \<Rightarrow> pystr list" where
  "yields es = concat (map (\<lambda>e. case e of Yield f \<Rightarrow> [f] | _ \<Rightarrow> []) es)"

lemma yields_simps [simp]:
  "yields [] = []"
  "yields (Yield f # es) = f # yields es"
  "yields (es @ es') = yields es @ yields es'"
  by (simp_all add: yields_def)

lemma yields_other [simp]:
  "yields (Describe r # es) = yields es"
  "yields (Query_status r # es) = yields es"
  "yields (Get_result r # es) = yields es"
  "yields (Sleep # es) = yields es"
  by (simp_all add: yields_def)

lemma yields_map_Yield [simp]:
  "yields (map Yield fs) = fs" "yields (map (Yield \<circ> g) xs) = map g xs"
  by (induction fs, simp_all) (induction xs, simp_all)

lemma fst_or_not_found [simp]: "fst (or_not_found run_id m) = fst m"
  by (auto simp: or_not_found_def fst_catch split: outcome.split)

lemma yields_terminal_failure [simp]: "yields (fst (terminal_failure I run_id st c)) = []"
  by (auto simp: terminal_failure_def Let_def fst_ebind fst_catch split: outcome.split)

lemma yields_resolve [simp]: "yields (fst (resolve_status I c run_id)) = []"
  by (auto simp: resolve_status_def fst_ebind split: outcome.split)

lemma yields_poll [simp]: "yields (fst (poll_status I c run_id)) = []"
  by (auto simp: poll_status_def fst_ebind fst_catch split: outcome.split exn.split)

text \<open>The frame that \<^verbatim>\<open>_sse\<close> writes.\<close>

definition sse_frame :: "string \<Rightarrow> json \<Rightarrow> frame" where
  "sse_frame e data = Event (lit e) (dumps data)"

lemma sse_text: "sse (lit e) data = frame_text (sse_frame e data)"
  by (simp add: sse_def sse_frame_def)

lemma keepalive_text: "keepalive = frame_text (Comment (lit ''keepalive''))"
  by (simp add: keepalive_def lit_Cons)

definition frame_name :: "frame \<Rightarrow> pystr" where
  "frame_name f = (case f of Comment c \<Rightarrow> lit '':'' | Event e line \<Rightarrow> e)"

lemma frame_name_simps [simp]:
  "frame_name (sse_frame e data) = lit e"
  "frame_name (Comment c) = lit '':''"
  by (simp_all add: frame_name_def sse_frame_def)

lemma good_sse_frame: "10 \<notin> set (lit e) \<Longrightarrow> good_frame (sse_frame e data)"
  using dumps_printable [of 10 data] by (auto simp: sse_frame_def)

lemma good_sse_names [simp]:
  "good_frame (sse_frame ''snapshot'' data)" "good_frame (sse_frame ''step'' data)"
  "good_frame (sse_frame ''completed'' data)" "good_frame (sse_frame ''failed'' data)"
  "good_frame (sse_frame ''timed_out'' data)" "good_frame (sse_frame ''done'' data)"
  by (rule good_sse_frame, simp add: lit_Cons)+

text \<open>The orders of events: after the first snapshot, steps and comments, and at the end nothing, or
  the end by time, or the event of a terminal status and the end.\<close>

definition finals :: "pystr list list" where
  "finals = [[], [lit ''done''], [lit ''completed'', lit ''done''], [lit ''failed'', lit ''done''],
             [lit ''timed_out'', lit ''done'']]"

definition tail_order :: "pystr list \<Rightarrow> bool" where
  "tail_order ns \<longleftrightarrow>
     (\<exists>mid fin. ns = mid @ fin \<and> set mid \<subseteq> {lit ''step'', lit '':''} \<and> fin \<in> set finals)"

definition stream_order :: "pystr list \<Rightarrow> bool" where
  "stream_order ns \<longleftrightarrow> ns = [] \<or> (\<exists>ms. ns = lit ''snapshot'' # ms \<and> tail_order ms)"

lemma tail_order_final: "fin \<in> set finals \<Longrightarrow> tail_order fin"
  unfolding tail_order_def by (metis append_Nil empty_subsetI list.set(1))

lemma tail_order_append:
  assumes "set ns \<subseteq> {lit ''step'', lit '':''}" and "tail_order ms"
  shows "tail_order (ns @ ms)"
proof -
  from assms(2) obtain mid fin where "ms = mid @ fin" "set mid \<subseteq> {lit ''step'', lit '':''}"
    "fin \<in> set finals" by (auto simp: tail_order_def)
  with assms(1) show ?thesis
    unfolding tail_order_def by (intro exI [of _ "ns @ mid"] exI [of _ fin]) simp
qed

lemma poll_status_Return:
  "snd (poll_status I c run_id) = Return (Some r) \<Longrightarrow> snd (resolve_status I c run_id) = Return r"
  by (auto simp: poll_status_def snd_catch snd_ebind split: outcome.splits exn.splits)

text \<open>The frames of one round.\<close>

lemma idle_round_frames:
  assumes "idle_round payload prev first ticks = (texts, first', prev')"
  shows "\<not> first' \<and> (\<exists>fs. texts = map frame_text fs \<and> list_all good_frame fs
    \<and> (if first then map frame_name fs = [lit ''snapshot'']
       else set (map frame_name fs) \<subseteq> {lit ''step'', lit '':''}))"
proof (cases first)
  case True
  then have "texts = map frame_text [sse_frame ''snapshot'' payload]"
    using assms by (simp add: idle_round_def Let_def sse_text)
  then show ?thesis
    using True assms by (intro conjI exI [of _ "[sse_frame ''snapshot'' payload]"])
      (auto simp: idle_round_def Let_def good_sse_frame)
next
  case False
  with assms consider
      "texts = map frame_text [sse_frame ''step'' payload]"
    | "texts = map frame_text [Comment (lit ''keepalive'')]"
    | "texts = map frame_text []"
    by (auto simp: idle_round_def Let_def sse_text keepalive_text split: if_splits)
  then obtain fs where "texts = map frame_text fs" "list_all good_frame fs"
    "set (map frame_name fs) \<subseteq> {lit ''step'', lit '':''}"
  proof cases
    case 1
    then show ?thesis using that [of "[sse_frame ''step'' payload]"] by (simp add: good_sse_frame)
  next
    case 2
    then show ?thesis using that [of "[Comment (lit ''keepalive'')]"] by (simp add: lit_Cons)
  next
    case 3
    then show ?thesis using that [of "[]"] by simp
  qed
  with False assms show ?thesis by (auto simp: idle_round_def Let_def split: if_splits)
qed

lemma SSE_EVENT_values:
  "map_of SSE_EVENT x = Some ev \<Longrightarrow> \<exists>e \<in> {''completed'', ''failed'', ''timed_out''}. ev = lit e"
  by (auto simp: SSE_EVENT_def split: if_splits)

lemma end_round_frames:
  assumes "rsr_status resp \<in> set TERMINAL"
  shows "\<exists>fs. yields (fst (end_round run_id resp first)) = map frame_text fs \<and> list_all good_frame fs
    \<and> (\<exists>fin \<in> set finals. map frame_name fs = (if first then [lit ''snapshot''] else []) @ fin)"
proof -
  obtain e where m: "map_of SSE_EVENT (rsr_status resp) = Some (lit e)"
    and e: "e \<in> {''completed'', ''failed'', ''timed_out''}"
    using assms SSE_EVENT_lookup SSE_EVENT_values by blast
  let ?p = "dump_RunStatusResponse resp"
  let ?fs = "(if first then [sse_frame ''snapshot'' ?p] else []) @
    [sse_frame e ?p, sse_frame ''done'' (done_run run_id)]"
  have "yields (fst (end_round run_id resp first)) = map frame_text ?fs"
    by (simp add: end_round_def Let_def m fst_ebind sse_text)
  moreover have "list_all good_frame ?fs" using e by (auto simp: good_sse_frame)
  moreover have "\<exists>fin \<in> set finals. map frame_name ?fs = (if first then [lit ''snapshot''] else []) @ fin"
    using e by (auto simp: finals_def)
  ultimately show ?thesis by blast
qed

lemma no_frames:
  "ys = [] \<Longrightarrow> \<exists>fs. ys = map frame_text fs \<and> list_all good_frame fs
     \<and> (if first then stream_order (map frame_name fs) else tail_order (map frame_name fs))"
  using tail_order_final [of "[]"] by (simp add: stream_order_def finals_def)

lemma gen_frames:
  "\<exists>fs. yields (fst (gen I run_id max_dur prev first ticks elapsed ts)) = map frame_text fs
     \<and> list_all good_frame fs
     \<and> (if first then stream_order (map frame_name fs) else tail_order (map frame_name fs))"
proof (induction ts arbitrary: prev first ticks elapsed)
  case Nil
  then show ?case using tail_order_final [of "[]"]
    by (intro exI [of _ "[]"]) (simp add: stream_order_def finals_def)
next
  case (Cons t ts)
  show ?case
  proof (cases "\<not> tk_disconnected t \<and> (\<exists>r. snd (poll_status I (tk_client t) run_id) = Return (Some r))")
    case False
    show ?thesis
      by (rule no_frames) (use False in \<open>auto simp: fst_ebind split: outcome.split option.split\<close>)
  next
    case True
    then obtain r where d: "\<not> tk_disconnected t"
      and r: "snd (poll_status I (tk_client t) run_id) = Return (Some r)" by blast
    show ?thesis
    proof (cases "rsr_status r \<in> set TERMINAL")
      case True
      with d r have y: "yields (fst (gen I run_id max_dur prev first ticks elapsed (t # ts)))
          = yields (fst (end_round run_id r first))"
        by (simp add: fst_ebind)
      from end_round_frames [OF True, of run_id first] show ?thesis
        unfolding y using tail_order_final by (fastforce simp: stream_order_def split: if_splits)
    next
      case False
      obtain texts first' prev' where i:
        "idle_round (dump_RunStatusResponse r) prev first ticks = (texts, first', prev')"
        by (metis prod_cases3)
      from idle_round_frames [OF i] obtain fs where fs: "\<not> first'" "texts = map frame_text fs"
          "list_all good_frame fs" and n: "if first then map frame_name fs = [lit ''snapshot'']
            else set (map frame_name fs) \<subseteq> {lit ''step'', lit '':''}"
        by blast
      let ?el = "fadd elapsed float_0_7"
      have "\<exists>gs. yields (fst (gen I run_id max_dur prev first ticks elapsed (t # ts)))
            = map frame_text (fs @ gs)
          \<and> list_all good_frame gs \<and> tail_order (map frame_name gs)"
      proof (cases "?el > max_dur * float_scale")
        case True
        then show ?thesis
          using d r False i fs tail_order_final [of "[lit ''done'']"]
          by (intro exI [of _ "[sse_frame ''done'' (done_max run_id)]"])
            (simp add: fst_ebind Let_def sse_text finals_def)
      next
        case le: False
        from Cons.IH [of prev' first' "ticks + 1" ?el] fs(1) obtain gs where
          "yields (fst (gen I run_id max_dur prev' first' (ticks + 1) ?el ts)) = map frame_text gs"
          "list_all good_frame gs" "tail_order (map frame_name gs)" by auto
        then show ?thesis
          using d r False i fs le by (intro exI [of _ gs]) (simp add: fst_ebind Let_def)
      qed
      then obtain gs where gs: "yields (fst (gen I run_id max_dur prev first ticks elapsed (t # ts)))
            = map frame_text (fs @ gs)"
          "list_all good_frame gs" "tail_order (map frame_name gs)" by blast
      show ?thesis
        by (rule exI [of _ "fs @ gs"])
          (use gs fs n tail_order_append in \<open>auto simp: stream_order_def\<close>)
    qed
  qed
qed

text \<open>
  C18. A client reads exactly what the generator wrote: the text of a stream, whatever the tasks,
  programs and outputs in its data are, is a sequence of frames of the event-stream format, and
  the names of the frames are in order: one snapshot first, then steps and comments, then at
  most one terminal event, which is followed by done, or done alone; so no output of untrusted
  code can add, split or end an event.
\<close>

theorem stream_text_protocol:
  "\<exists>fs. read_stream (concat (yields (fst (stream_gen I s run_id ts)))) = Some fs
     \<and> stream_order (map frame_name fs)"
proof -
  obtain fs where "yields (fst (stream_gen I s run_id ts)) = map frame_text fs"
    "list_all good_frame fs" "stream_order (map frame_name fs)"
    using gen_frames [of I run_id "workflow_run_timeout_s s + 30" None True 0 0 ts]
    by (auto simp: stream_gen_def)
  with read_stream_frames show ?thesis by auto
qed

section \<open>The bound of a stream\<close>

lemma or_not_found_not_Pending [simp]: "snd (or_not_found r (ask ev x)) \<noteq> Pending"
  by (cases x) (auto simp: or_not_found_def snd_catch)

lemma terminal_failure_not_Pending [simp]: "snd (terminal_failure I run_id st c) \<noteq> Pending"
  by (cases "cl_result c") (auto simp: terminal_failure_def Let_def snd_ebind snd_catch)

lemma resolve_status_not_Pending [simp]: "snd (resolve_status I c run_id) \<noteq> Pending"
  by (auto simp: resolve_status_def snd_ebind split: outcome.split sum.split)

lemma poll_status_not_Pending [simp]: "snd (poll_status I c run_id) \<noteq> Pending"
  by (auto simp: poll_status_def snd_ebind snd_catch split: outcome.split exn.split)

lemma fadd_tick:
  assumes "0 \<le> x" and "x \<le> 2 ^ 40 * float_scale"
  shows "5 * x + 3 * float_scale \<le> 5 * fadd x float_0_7"
proof -
  let ?y = "x + float_0_7"
  have "(2::int) ^ 1021 * 2 ^ 53 = 2 ^ 1074" by (subst power_add [symmetric]) simp
  then have f: "float_0_7 * 2 ^ 53 = 6305039478318694 * float_scale"
    by (simp add: float_0_7_def float_scale_def)
  have "\<bar>fadd x float_0_7 - ?y\<bar> * 2 ^ 53 \<le> \<bar>?y\<bar>"
    unfolding fadd_def by (rule round_double_relative)
  moreover have "0 \<le> float_0_7" by (simp add: float_0_7_def)
  moreover have "0 < float_scale" by simp
  ultimately show ?thesis
    using assms f unfolding power_numeral by (simp add: abs_if split: if_splits)
qed

lemma end_round_not_Pending [simp]: "snd (end_round run_id resp first) \<noteq> Pending"
  by (auto simp: end_round_def Let_def snd_ebind split: option.split)

lemma gen_ends:
  assumes "0 \<le> elapsed" and "elapsed \<le> max_dur * float_scale" and "max_dur < 2 ^ 40"
    and "5 * max_dur * float_scale < 5 * elapsed + 3 * float_scale * int (length ts)"
  shows "snd (gen I run_id max_dur prev first ticks elapsed ts) \<noteq> Pending"
  using assms(1,2,4)
proof (induction ts arbitrary: prev first ticks elapsed)
  case Nil
  then show ?case by simp
next
  case (Cons t ts)
  let ?el = "fadd elapsed float_0_7"
  have "max_dur * float_scale \<le> 2 ^ 40 * float_scale"
    using assms(3) less_imp_le [OF float_scale_pos] by (intro mult_right_mono) simp_all
  with Cons.prems(2) have "elapsed \<le> 2 ^ 40 * float_scale" by (rule order_trans)
  with Cons.prems(1) have el: "5 * elapsed + 3 * float_scale \<le> 5 * ?el" by (rule fadd_tick)
  have next_round: "snd (gen I run_id max_dur p f k ?el ts) \<noteq> Pending"
    if "?el \<le> max_dur * float_scale" for p f k
  proof (rule Cons.IH)
    show "0 \<le> ?el" using el Cons.prems float_scale_pos by linarith
    show "5 * max_dur * float_scale < 5 * ?el + 3 * float_scale * int (length ts)"
      using el Cons.prems by (simp add: distrib_left)
  qed (rule that)
  show ?case
    using next_round poll_status_not_Pending [of I "tk_client t" run_id]
    by (auto simp: snd_ebind Let_def split: outcome.split option.split prod.split)
qed

text \<open>
  C28. A stream ends: with a run timeout of \<open>T\<close> seconds, the generator has ended within
  \<open>5 (T + 30) / 3\<close> rounds, rounded up to the next one, whatever the service answers, although
  its clock is a sum of doubles that is rounded at every round; so no client holds a
  stream open much longer than the run that it follows.
\<close>

theorem stream_bounded:
  assumes "0 \<le> workflow_run_timeout_s s" and "workflow_run_timeout_s s < 2 ^ 32"
    and "5 * (workflow_run_timeout_s s + 30) < 3 * int (length ts)"
  shows "snd (stream_gen I s run_id ts) \<noteq> Pending"
  unfolding stream_gen_def
proof (rule gen_ends)
  let ?m = "workflow_run_timeout_s s + 30"
  have "5 * ?m * float_scale < 3 * int (length ts) * float_scale"
    using assms(3) by (intro mult_strict_right_mono) simp_all
  then show "5 * ?m * float_scale < 5 * 0 + 3 * float_scale * int (length ts)"
    by (simp add: mult.assoc mult.left_commute)
  show "0 \<le> ?m * float_scale"
    using assms(1) less_imp_le [OF float_scale_pos] by (intro mult_nonneg_nonneg) simp_all
qed (use assms in simp_all)

theorem stream_bounded_witness:
  "\<forall>I d. snd (stream_gen I default_settings (lit ''demo:1'')
      (replicate 551 \<lparr>tk_disconnected = False, tk_client = sample_client (Inr ()) d\<rparr>)) \<noteq> Pending"
proof (intro allI)
  fix I d
  show "snd (stream_gen I default_settings (lit ''demo:1'')
      (replicate 551 \<lparr>tk_disconnected = False, tk_client = sample_client (Inr ()) d\<rparr>)) \<noteq> Pending"
    by (rule stream_bounded) (simp_all add: default_settings_def)
qed

end
