(* ===== verification/App.thy ===== *)
theory App
  imports RunStream "HOL-Library.AList"
begin

text \<open>
  The application as one function (\<^verbatim>\<open>create_app\<close> of \<^verbatim>\<open>app/api/main.py\<close> with the router of
  \<^verbatim>\<open>app/api/routes_runs.py\<close>): a request goes through the correlation middleware, to its route,
  through the token check where the route declares it, to the handler, and an exception goes
  through the exception handlers.  The framework's documented order is kept: a body that cannot be
  decoded or is not JSON fails before the dependencies run, a body that fails validation after
  them.  A body that cannot be decoded is the framework's own error, which the application's
  handlers do not see.
\<close>

section \<open>Routes and replies\<close>

text \<open>The body of a submission as the framework reads it: bytes that cannot be decoded, with the
  framework's detail; not JSON, or not a valid request, each with the text of the errors; or a
  request.\<close>

datatype run_body =
    Undecodable_body pystr
  | Unreadable_body pystr
  | Invalid_body pystr
  | Body RunRequest

datatype http_method = GET | POST

datatype route =
    Healthz
  | Readyz
  | Post_runs
  | Get_run_route pystr
  | Stream_route pystr
  | Cancel_route pystr

text \<open>The path templates of the decorators; a parameter of a template stands for one non-empty
  segment of the decoded path.  A path that matches none is answered by the framework.\<close>

fun split_on :: "nat \<Rightarrow> pystr \<Rightarrow> pystr list" where
  "split_on sep [] = [[]]"
| "split_on sep (c # s) =
     (if c = sep then [] # split_on sep s
      else case split_on sep s of [] \<Rightarrow> [[c]] | w # ws \<Rightarrow> (c # w) # ws)"

definition segments :: "pystr \<Rightarrow> pystr list" where
  "segments path = split_on 47 path"

fun route_segments :: "http_method \<Rightarrow> pystr list \<Rightarrow> route option" where
  "route_segments m [a] =
     (if m = GET \<and> a = lit ''healthz'' then Some Healthz
      else if m = GET \<and> a = lit ''readyz'' then Some Readyz
      else if m = POST \<and> a = lit ''runs'' then Some Post_runs else None)"
| "route_segments m [a, run_id] =
     (if m = GET \<and> a = lit ''runs'' \<and> run_id \<noteq> [] then Some (Get_run_route run_id) else None)"
| "route_segments m [a, run_id, b] =
     (if a = lit ''runs'' \<and> run_id \<noteq> [] then
        (if m = GET \<and> b = lit ''stream'' then Some (Stream_route run_id)
         else if m = POST \<and> b = lit ''cancel'' then Some (Cancel_route run_id) else None)
      else None)"
| "route_segments m _ = None"

definition route_of :: "http_method \<Rightarrow> pystr \<Rightarrow> route option" where
  "route_of m path =
     (case segments path of [] # rest \<Rightarrow> route_segments m rest | _ \<Rightarrow> None)"

text \<open>A reply has a JSON body, or is the event stream of a generator.\<close>

datatype reply =
    Json_reply Response
  | Stream_reply int "(pystr \<times> pystr) list" "(api_event, unit) eff"

fun reply_status :: "reply \<Rightarrow> int" where
  "reply_status (Json_reply r) = status_code r"
| "reply_status (Stream_reply st h body) = st"

fun reply_headers :: "reply \<Rightarrow> (pystr \<times> pystr) list" where
  "reply_headers (Json_reply r) = headers r"
| "reply_headers (Stream_reply st h body) = h"

text \<open>\<^verbatim>\<open>response.headers[name] = value\<close>: the entry is replaced, or added at the end.\<close>

fun set_header :: "pystr \<Rightarrow> pystr \<Rightarrow> reply \<Rightarrow> reply" where
  "set_header k v (Json_reply r) = Json_reply (r\<lparr>headers := AList.update k v (headers r)\<rparr>)"
| "set_header k v (Stream_reply st h body) = Stream_reply st (AList.update k v h) body"

definition json_reply :: "int \<Rightarrow> json \<Rightarrow> reply" where
  "json_reply st c = Json_reply (JSONResponse st c [])"

section \<open>The application\<close>

record http_request =
  hr_request_id :: "pystr option"
  hr_authorization :: "pystr option"
  hr_body :: run_body

text \<open>What a request meets: the client's answers, the rounds of a stream, the health check's
  answer, and the fresh identifier.\<close>

record app_env =
  ae_client :: client
  ae_ticks :: "tick list"
  ae_health :: "unit result option"
  ae_fresh :: pystr

definition validation_error :: "pystr option \<Rightarrow> pystr \<Rightarrow> (api_event, reply) eff" where
  "validation_error request_id text =
     lift_res (rmap Json_reply (handle_fault request_id (Validation_error text)))"

text \<open>The framework's own error reply.\<close>

definition framework_error :: "int \<Rightarrow> pystr \<Rightarrow> reply" where
  "framework_error st detail = json_reply st (JObj [(lit ''detail'', JStr detail)])"

definition endpoint ::
  "interp \<Rightarrow> Settings \<Rightarrow> app_env \<Rightarrow> http_request \<Rightarrow> route \<Rightarrow> pystr option \<Rightarrow> (api_event, reply) eff" where
  "endpoint I s env req rt request_id =
     (let c = ae_client env; secured = authenticated s (hr_authorization req) in
      case rt of
        Healthz \<Rightarrow> ret (json_reply 200 healthz)
      | Readyz \<Rightarrow> lift_res (rmap Json_reply (readyz (cl_str c) (ae_health env)))
      | Post_runs \<Rightarrow>
          (case hr_body req of
             Undecodable_body detail \<Rightarrow> ret (framework_error 400 detail)
           | Unreadable_body text \<Rightarrow> validation_error request_id text
           | Invalid_body text \<Rightarrow> secured (validation_error request_id text)
           | Body r \<Rightarrow> secured (ebind (create_run I s c r) (\<lambda>x. ret (Json_reply x))))
      | Get_run_route run_id \<Rightarrow>
          secured (ebind (get_run I c run_id) (\<lambda>x. ret (json_reply 200 (dump_RunStatusResponse x))))
      | Stream_route run_id \<Rightarrow>
          secured (eseq (stream_check c run_id)
            (ret (Stream_reply 200 stream_headers (stream_gen I s run_id (ae_ticks env)))))
      | Cancel_route run_id \<Rightarrow>
          secured (ebind (cancel_run c run_id) (\<lambda>x. ret (json_reply 202 x))))"

text \<open>The exception handlers around an endpoint, inside the middleware.\<close>

definition handled :: "pystr option \<Rightarrow> (api_event, reply) eff \<Rightarrow> (api_event, reply) eff" where
  "handled request_id m =
     catch m (\<lambda>e. lift_res (rmap Json_reply (handle_fault request_id (Raised e))))"

text \<open>The middleware: the request's own identifier or a fresh one, on the request's state for the
  handlers and on the response.\<close>

definition request_identifier :: "pystr option \<Rightarrow> pystr \<Rightarrow> pystr" where
  "request_identifier x_request_id fresh = or_default x_request_id fresh"

definition correlation ::
  "pystr option \<Rightarrow> pystr \<Rightarrow> (pystr option \<Rightarrow> (api_event, reply) eff) \<Rightarrow> (api_event, reply) eff" where
  "correlation x_request_id fresh call_next =
     (let rid = request_identifier x_request_id fresh in
      ebind (call_next (Some rid)) (\<lambda>r. ret (set_header (lit ''X-Request-Id'') rid r)))"

definition app ::
  "interp \<Rightarrow> Settings \<Rightarrow> app_env \<Rightarrow> http_request \<Rightarrow> route \<Rightarrow> (api_event, reply) eff" where
  "app I s env req rt =
     correlation (hr_request_id req) (ae_fresh env)
       (\<lambda>rid. handled rid (endpoint I s env req rt rid))"

section \<open>Which runs a path reaches\<close>

lemma split_on_no_sep: "sep \<notin> set w \<Longrightarrow> split_on sep w = [w]"
  by (induction w) auto

lemma split_on_append: "sep \<notin> set w \<Longrightarrow> split_on sep (w @ sep # s) = w # split_on sep s"
  by (induction w) auto

lemma split_on_parts: "w \<in> set (split_on sep s) \<Longrightarrow> sep \<notin> set w"
  by (induction s arbitrary: w) (auto split: if_splits list.splits)

lemma route_segments_param:
  assumes "route_segments m ws = Some rt"
    and "rt = Get_run_route run_id \<or> rt = Stream_route run_id \<or> rt = Cancel_route run_id"
  shows "run_id \<in> set ws \<and> run_id \<noteq> []"
  using assms by (cases "(m, ws)" rule: route_segments.cases) (auto split: if_splits)

definition run_path :: "pystr \<Rightarrow> pystr \<Rightarrow> pystr" where
  "run_path run_id rest = lit ''/runs/'' @ run_id @ rest"

lemma segments_run_path:
  assumes "47 \<notin> set w"
  shows "segments (run_path w []) = [[], lit ''runs'', w]"
    and "segments (run_path w (47 # s)) = [] # lit ''runs'' # w # split_on 47 s"
proof -
  have r: "split_on 47 (lit ''/runs/'' @ s) = [] # lit ''runs'' # split_on 47 s" for s
    using split_on_append [of 47 "lit ''runs''" s] by (simp add: lit_Cons)
  show "segments (run_path w []) = [[], lit ''runs'', w]"
    and "segments (run_path w (47 # s)) = [] # lit ''runs'' # w # split_on 47 s"
    unfolding segments_def run_path_def r append_Nil2
    by (simp_all only: split_on_no_sep [OF assms] split_on_append [OF assms])
qed

lemma route_run_path:
  assumes "run_id \<noteq> []" and "47 \<notin> set run_id"
  shows "route_of GET (run_path run_id []) = Some (Get_run_route run_id)"
    and "route_of GET (run_path run_id (lit ''/stream'')) = Some (Stream_route run_id)"
    and "route_of POST (run_path run_id (lit ''/cancel'')) = Some (Cancel_route run_id)"
proof -
  have w: "lit ''/stream'' = 47 # lit ''stream''" "lit ''/cancel'' = 47 # lit ''cancel''"
    "split_on 47 (lit ''stream'') = [lit ''stream'']" "split_on 47 (lit ''cancel'') = [lit ''cancel'']"
    by (simp_all add: lit_Cons)
  show "route_of GET (run_path run_id []) = Some (Get_run_route run_id)"
    and "route_of GET (run_path run_id (lit ''/stream'')) = Some (Stream_route run_id)"
    and "route_of POST (run_path run_id (lit ''/cancel'')) = Some (Cancel_route run_id)"
    unfolding route_of_def segments_run_path(1) [OF assms(2)] w segments_run_path(2) [OF assms(2)]
    using assms(1) by simp_all
qed

lemma route_reaches:
  assumes "route_of m path = Some rt"
    and "rt = Get_run_route run_id \<or> rt = Stream_route run_id \<or> rt = Cancel_route run_id"
  shows "run_id \<noteq> [] \<and> 47 \<notin> set run_id"
proof -
  from assms(1) obtain ws where "segments path = [] # ws" "route_segments m ws = Some rt"
    by (auto simp: route_of_def split: list.splits)
  with route_segments_param [OF _ assms(2), of m ws] split_on_parts [of run_id 47 path]
  show ?thesis by (auto simp: segments_def)
qed

text \<open>
  C23. Which runs can be reached: a run can be read, and streamed, and cancelled, exactly when its
  identifier has no slash.  An idempotency key is not restricted, so a submission that is accepted
  with a slash in its key starts a run that none of the three other endpoints reaches, whatever
  the path; and for a key that ends in \<open>/stream\<close> the path of the run is read as the stream of
  another run.
\<close>

theorem run_reachable_without_slash:
  assumes "workflow_id I r = Inr wid" and "valid_RunRequest r"
  shows "((\<exists>path. route_of GET path = Some (Get_run_route wid)) = (47 \<notin> set wid))
    \<and> ((\<exists>path. route_of GET path = Some (Stream_route wid)) = (47 \<notin> set wid))
    \<and> ((\<exists>path. route_of POST path = Some (Cancel_route wid)) = (47 \<notin> set wid))
    \<and> (\<forall>key. rq_idempotency_key r = Some key \<and> key \<noteq> [] \<longrightarrow> (47 \<in> set wid) = (47 \<in> set key))
    \<and> (\<forall>w. 47 \<notin> set w \<and> wid = w @ lit ''/stream'' \<and> w \<noteq> [] \<longrightarrow>
         route_of GET (run_path wid []) = Some (Stream_route w))"
proof (intro conjI allI impI)
  have ne: "wid \<noteq> []" using workflow_id_cases [OF assms(1)] by (auto simp: lit_Cons)
  show "(\<exists>path. route_of GET path = Some (Get_run_route wid)) = (47 \<notin> set wid)"
    and "(\<exists>path. route_of GET path = Some (Stream_route wid)) = (47 \<notin> set wid)"
    and "(\<exists>path. route_of POST path = Some (Cancel_route wid)) = (47 \<notin> set wid)"
    using route_run_path [OF ne] route_reaches [where run_id = wid] by blast+
next
  fix key assume "rq_idempotency_key r = Some key \<and> key \<noteq> []"
  with assms have "wid = rq_tenant_id r @ lit '':'' @ key" by (simp add: workflow_id_def)
  moreover have "47 \<notin> set (rq_tenant_id r)"
    using assms(2) by (cases "rq_tenant_id r") (auto simp: valid_RunRequest_def tenant_char_def list_all_iff)
  ultimately show "(47 \<in> set wid) = (47 \<in> set key)" by (simp add: lit_Cons)
next
  fix w assume w: "47 \<notin> set w \<and> wid = w @ lit ''/stream'' \<and> w \<noteq> []"
  then have "run_path wid [] = run_path w (lit ''/stream'')" by (simp add: run_path_def)
  with w route_run_path(2) [of w] show "route_of GET (run_path wid []) = Some (Stream_route w)" by simp
qed

theorem run_reachable_without_slash_witness:
  "\<forall>I. workflow_id I (sample_request None (Some (lit ''a/stream''))) = Inr (lit ''demo:a/stream'')
   \<and> \<not> (\<exists>path. route_of POST path = Some (Cancel_route (lit ''demo:a/stream'')))
   \<and> route_of GET (run_path (lit ''demo:a/stream'') []) = Some (Stream_route (lit ''demo:a''))"
proof (intro allI)
  fix I
  have w: "workflow_id I (sample_request None (Some (lit ''a/stream''))) = Inr (lit ''demo:a/stream'')"
    by (simp add: workflow_id_def Let_def lit_Cons)
  have v: "valid_RunRequest (sample_request None (Some (lit ''a/stream'')))"
    by (simp add: valid_RunRequest_def valid_RunParams_def tenant_char_def lit_Cons)
  have s: "47 \<in> set (lit ''demo:a/stream'')" "47 \<notin> set (lit ''demo:a'')"
    "lit ''demo:a/stream'' = lit ''demo:a'' @ lit ''/stream''" "lit ''demo:a'' \<noteq> []"
    by (simp_all add: lit_Cons)
  from run_reachable_without_slash [OF w v] w s
  show "workflow_id I (sample_request None (Some (lit ''a/stream''))) = Inr (lit ''demo:a/stream'')
   \<and> \<not> (\<exists>path. route_of POST path = Some (Cancel_route (lit ''demo:a/stream'')))
   \<and> route_of GET (run_path (lit ''demo:a/stream'') []) = Some (Stream_route (lit ''demo:a''))"
    by metis
qed

section \<open>What every reply has in common\<close>

text \<open>The exceptions that an endpoint may let out: the two of the token and of the encodings, the
  API's own, and those that the service or the health check raised.\<close>

definition service_raises :: "app_env \<Rightarrow> exn \<Rightarrow> bool" where
  "service_raises env e \<longleftrightarrow>
     cl_start (ae_client env) = Inl e \<or> cl_describe (ae_client env) = Inl e
     \<or> cl_query (ae_client env) = Inl e \<or> cl_result (ae_client env) = Inl e
     \<or> cl_cancel (ae_client env) = Inl e \<or> ae_health env = Some (Inl e)"

definition from_outside :: "app_env \<Rightarrow> exn \<Rightarrow> bool" where
  "from_outside env e \<longleftrightarrow> e = TypeError \<or> e = UnicodeEncodeError \<or> service_raises env e"

definition api_error :: "int list \<Rightarrow> exn \<Rightarrow> bool" where
  "api_error sts e \<longleftrightarrow> (\<exists>st code m. e = APIError st code m \<and> st \<in> set sts)"

abbreviation fault :: "app_env \<Rightarrow> int list \<Rightarrow> exn \<Rightarrow> bool" where
  "fault env sts e \<equiv> api_error sts e \<or> from_outside env e"

lemma api_error_simps [simp]:
  "api_error sts (APIError st code m) = (st \<in> set sts)"
  "\<not> api_error sts TypeError" "\<not> api_error sts UnicodeEncodeError"
  by (auto simp: api_error_def)

lemma ends_ask [simp]: "ends Q P (ask ev r) = (case r of Inl e \<Rightarrow> P e | Inr x \<Rightarrow> Q x)"
  by (simp add: ask_def split: sum.split)

lemma ends_emit_all [simp]: "ends Q P (emit_all es) = Q ()"
  by (simp add: ends_def)

lemma ends_or_not_found [simp]:
  "ends Q P (or_not_found run_id m) =
     ends Q (\<lambda>e. if e = RPCError RPC_NOT_FOUND then P (not_found run_id) else P e) m"
  by (simp add: or_not_found_def if_distrib cong: if_cong)

lemma verify_token_cases:
  assumes "verify_token s h = Inl e"
  shows "e = TypeError \<and> (\<exists>t. h = Some (lit ''Bearer '' @ t) \<and> \<not> (is_ascii t \<and> is_ascii (api_bearer_token s)))
    \<or> (\<exists>m. e = APIError 401 (lit ''UNAUTHORIZED'') m)"
proof (cases "\<exists>t. h = Some (lit ''Bearer '' @ t)")
  case True
  then obtain t where h: "h = Some (lit ''Bearer '' @ t)" by blast
  have "split1_snd 32 (lit ''Bearer '' @ t) = t"
    using bearer_split [of "lit ''Bearer '' @ t"] by simp
  with assms show ?thesis
    unfolding h by (auto simp: verify_token_def compare_digest_def split: if_splits)
next
  case False
  with assms show ?thesis
    by (auto simp: verify_token_def prefix_def split: option.splits)
qed

lemma admitted_token:
  assumes "verify_token s h = Inr x"
  shows "h = Some (lit ''Bearer '' @ api_bearer_token s)"
proof -
  obtain a where a: "h = Some a" "prefix (lit ''Bearer '') a"
    using assms by (auto simp: verify_token_def split: option.splits if_splits)
  with assms have "split1_snd 32 a = api_bearer_token s"
    by (auto simp: verify_token_def compare_digest_def split: if_splits)
  with bearer_split [OF a(2)] a(1) show ?thesis by simp
qed

lemma ends_authenticated:
  assumes "ends Q (fault env sts) body" and "401 \<in> set sts"
  shows "ends Q (fault env sts) (authenticated s h body)"
proof (cases "verify_token s h")
  case (Inl e)
  from verify_token_cases [OF this] assms(2) Inl show ?thesis
    by (auto simp: authenticated_def from_outside_def)
next
  case (Inr x)
  with assms(1) show ?thesis by (simp add: authenticated_def)
qed

lemma from_outside_simps [simp]:
  "from_outside env TypeError" "from_outside env UnicodeEncodeError"
  "cl_start (ae_client env) = Inl e \<Longrightarrow> from_outside env e"
  "cl_describe (ae_client env) = Inl e \<Longrightarrow> from_outside env e"
  "cl_query (ae_client env) = Inl e \<Longrightarrow> from_outside env e"
  "cl_result (ae_client env) = Inl e \<Longrightarrow> from_outside env e"
  "cl_cancel (ae_client env) = Inl e \<Longrightarrow> from_outside env e"
  "ae_health env = Some (Inl e) \<Longrightarrow> from_outside env e"
  by (simp_all add: from_outside_def service_raises_def)

lemma from_outside_payload [simp]: "payload_bytes r = Inl e \<Longrightarrow> from_outside env e"
  by (drule payload_bytes_Inl) simp

lemma ends_already_started:
  "ends (\<lambda>x. status_code x = 200 \<and> headers x = []) (fault env [409])
     (handle_already_started I (ae_client env) r wid)"
proof -
  have m: "memo_get m k = Inl e \<Longrightarrow> is_Exception e" for m k e by (cases m) auto
  show ?thesis
    by (auto simp: handle_already_started_def accepted_response_def JSONResponse_def m split: sum.split)
qed

definition accepted :: "Response \<Rightarrow> bool" where
  "accepted x \<longleftrightarrow> status_code x \<in> {200, 201} \<and> headers x = []"

lemma ends_start_or_replay:
  "ends (\<lambda>x. \<forall>y. x = Some y \<longrightarrow> accepted y) (fault env [409, 413, 503])
     (catch (ebind (start_run I s (ae_client env) r wid) (\<lambda>_. ([], Return None)))
       (\<lambda>e. case e of
            WorkflowAlreadyStartedError \<Rightarrow>
              ebind (handle_already_started I (ae_client env) r wid) (\<lambda>r. ret (Some r))
          | RPCError st \<Rightarrow>
              if st = RPC_UNAVAILABLE then
                throw (APIError 503 (lit ''UPSTREAM_UNAVAILABLE'') (lit ''temporal is unavailable''))
              else throw e
          | _ \<Rightarrow> throw e))"
proof -
  have a: "ends accepted (fault env [409, 413, 503]) (handle_already_started I (ae_client env) r wid)"
    by (rule ends_mono [OF ends_already_started]) (auto simp: api_error_def accepted_def)
  have h: "ends (\<lambda>x. \<forall>y. x = Some y \<longrightarrow> accepted y) (fault env [409, 413, 503])
      (case e of
            WorkflowAlreadyStartedError \<Rightarrow>
              ebind (handle_already_started I (ae_client env) r wid) (\<lambda>r. ret (Some r))
          | RPCError st \<Rightarrow>
              if st = RPC_UNAVAILABLE then
                throw (APIError 503 (lit ''UPSTREAM_UNAVAILABLE'') (lit ''temporal is unavailable''))
              else throw e
          | _ \<Rightarrow> throw e)" if "from_outside env e" for e
    using that a by (cases e) simp_all
  show ?thesis
    by (simp add: start_run_def h del: ret_throw_emit(2) split: sum.split)
qed

lemma ends_create_run: "ends accepted (fault env [409, 413, 503]) (create_run I s (ae_client env) r)"
proof -
  have c: "accepted (accepted_response 201 r wid)" for wid
    by (simp add: accepted_response_def JSONResponse_def accepted_def)
  show ?thesis
    unfolding create_run_def
    by (auto simp: c dest: utf8_encode_Inl workflow_id_Inl intro!: ends_start_or_replay
        split: sum.split option.split simp del: ends_catch)
qed

lemma ends_resolve_status:
  "ends (\<lambda>x. True) (fault env [404]) (resolve_status I (ae_client env) run_id)"
  by (auto simp: resolve_status_def terminal_failure_def Let_def not_found_def split: sum.split)

lemma ends_stream_check: "ends (\<lambda>x. True) (fault env [404]) (stream_check (ae_client env) run_id)"
  by (auto simp: stream_check_def not_found_def split: sum.split)

lemma ends_cancel_run: "ends (\<lambda>x. True) (fault env [404]) (cancel_run (ae_client env) run_id)"
  by (auto simp: cancel_run_def not_found_def split: sum.split)

text \<open>The statuses that the code of each route can give to a request with the given body.\<close>

fun statuses :: "route \<Rightarrow> run_body \<Rightarrow> int list" where
  "statuses Healthz b = [200]"
| "statuses Readyz b = [200, 503]"
| "statuses Post_runs (Undecodable_body t) = [400]"
| "statuses Post_runs (Unreadable_body t) = [422]"
| "statuses Post_runs (Invalid_body t) = [401, 422]"
| "statuses Post_runs (Body r) = [200, 201, 401, 409, 413, 503]"
| "statuses (Cancel_route run_id) b = [202, 401, 404]"
| "statuses (Get_run_route run_id) b = [200, 401, 404]"
| "statuses (Stream_route run_id) b = [200, 401, 404]"

text \<open>The shapes of an error: the application's envelope, and the two exceptions from it.\<close>

definition error_body :: "pystr \<Rightarrow> pystr \<Rightarrow> pystr \<Rightarrow> json" where
  "error_body request_id code message =
     JObj [(lit ''error'', JObj [(lit ''code'', JStr code), (lit ''message'', JStr message),
                                  (lit ''request_id'', JStr request_id)])]"

definition not_ready_body :: "pystr \<Rightarrow> json" where
  "not_ready_body reason =
     JObj [(lit ''status'', JStr (lit ''not-ready'')), (lit ''reason'', JStr reason)]"

definition error_shape :: "pystr \<Rightarrow> route \<Rightarrow> int \<Rightarrow> json \<Rightarrow> bool" where
  "error_shape rid rt st c \<longleftrightarrow>
     (if rt = Readyz then \<exists>reason. c = not_ready_body reason
      else if st = 400 then \<exists>detail. c = JObj [(lit ''detail'', JStr detail)]
      else \<exists>code m. c = error_body rid code m)"

definition reply_ok :: "pystr \<Rightarrow> route \<Rightarrow> run_body \<Rightarrow> reply \<Rightarrow> bool" where
  "reply_ok rid rt b r \<longleftrightarrow>
     reply_status r \<in> set (statuses rt b)
     \<and> (400 \<le> reply_status r \<longrightarrow>
          (\<exists>x. r = Json_reply x \<and> error_shape rid rt (reply_status r) (content x)))
     \<and> (map_of (reply_headers r) (lit ''WWW-Authenticate'') = Some (lit ''Bearer'')) = (reply_status r = 401)"

text \<open>The service does not raise the application's own error class.\<close>

definition foreign_errors :: "app_env \<Rightarrow> bool" where
  "foreign_errors env \<longleftrightarrow> (\<forall>e. service_raises env e \<longrightarrow> (\<forall>st code m. e \<noteq> APIError st code m))"

lemma reply_ok_envelope:
  assumes "st \<in> set (statuses rt b)" and "rt \<noteq> Readyz" and "st \<noteq> 400"
  shows "reply_ok rid rt b (Json_reply (envelope (Some rid) st code m))"
  using assms
  by (auto simp: reply_ok_def error_shape_def envelope_def JSONResponse_def error_body_def JOpt_def)

lemma reply_ok_json:
  assumes "st \<in> set (statuses rt b)" and "st < 400"
  shows "reply_ok rid rt b (json_reply st c)"
  using assms by (auto simp: reply_ok_def json_reply_def JSONResponse_def)

text \<open>The statuses of the application's own errors.\<close>

definition faults :: "route \<Rightarrow> run_body \<Rightarrow> int list" where
  "faults rt b = (if rt = Readyz then [] else filter (\<lambda>st. 400 < st) (statuses rt b))"

lemma ends_validation_error [simp]:
  "ends Q P (validation_error (Some rid) text) =
     Q (Json_reply (envelope (Some rid) 422 (lit ''VALIDATION_ERROR'') text))"
  by (simp add: validation_error_def handle_fault_def)

lemma endpoint_ends:
  "ends (reply_ok rid rt (hr_body req)) (fault env (faults rt (hr_body req)))
     (endpoint I s env req rt (Some rid))"
proof -
  let ?b = "hr_body req"
  note secured = ends_authenticated [where sts = "faults rt ?b"]
  have weaken: "ends Q (fault env (faults rt ?b)) m"
    if "ends Q' (fault env sts) m" "set sts \<subseteq> set (faults rt ?b)" "\<And>x. Q' x \<Longrightarrow> Q x"
    for Q Q' :: "'a \<Rightarrow> bool" and sts m
    by (rule ends_mono [OF that(1)]) (use that in \<open>auto simp: api_error_def\<close>)
  show ?thesis
  proof (cases rt)
    case Healthz
    then show ?thesis by (simp add: endpoint_def reply_ok_json)
  next
    case Readyz
    have "reply_ok rid Readyz ?b (Json_reply (JSONResponse 200 c []))" for c
      using reply_ok_json [of 200 Readyz ?b rid c] by (simp add: json_reply_def)
    moreover have "reply_ok rid Readyz ?b (Json_reply (JSONResponse 503 (not_ready_body t) []))" for t
      by (auto simp: reply_ok_def error_shape_def JSONResponse_def)
    ultimately show ?thesis
      using Readyz by (auto simp: endpoint_def readyz_def not_ready_body_def split: option.split sum.split)
  next
    case Post_runs
    show ?thesis
    proof (cases ?b)
      case (Undecodable_body t)
      then show ?thesis
        by (simp add: endpoint_def Post_runs reply_ok_def framework_error_def json_reply_def
            JSONResponse_def error_shape_def)
    next
      case (Unreadable_body t)
      with reply_ok_envelope [of 422 Post_runs ?b rid] show ?thesis by (simp add: endpoint_def Post_runs)
    next
      case (Invalid_body t)
      with reply_ok_envelope [of 422 Post_runs ?b rid] show ?thesis
        by (auto simp: endpoint_def Post_runs Invalid_body faults_def intro!: secured [unfolded Post_runs Invalid_body faults_def, simplified])
    next
      case (Body r)
      have "reply_ok rid rt ?b (Json_reply x)" if "accepted x" for x
        using that by (auto simp: accepted_def reply_ok_def Post_runs Body)
      then have "ends (\<lambda>x. reply_ok rid rt ?b (Json_reply x)) (fault env (faults rt ?b))
          (create_run I s (ae_client env) r)"
        by (intro weaken [OF ends_create_run]) (simp_all add: Post_runs Body faults_def)
      then show ?thesis
        by (auto simp: endpoint_def Post_runs Body faults_def intro!: secured [unfolded Post_runs Body faults_def, simplified])
    qed
  next
    case (Get_run_route run_id)
    have j: "reply_ok rid rt ?b (json_reply 200 c)" for c by (rule reply_ok_json) (simp_all add: Get_run_route)
    have "ends (\<lambda>x. reply_ok rid rt ?b (json_reply 200 (dump_RunStatusResponse x))) (fault env (faults rt ?b))
        (get_run I (ae_client env) run_id)"
      unfolding get_run_def by (rule weaken [OF ends_resolve_status]) (use j in \<open>simp_all add: Get_run_route faults_def\<close>)
    then show ?thesis
      by (auto simp: endpoint_def Get_run_route faults_def intro!: secured [unfolded Get_run_route faults_def, simplified])
  next
    case (Stream_route run_id)
    let ?g = "stream_gen I s run_id (ae_ticks env)"
    have j: "reply_ok rid rt ?b (Stream_reply 200 stream_headers ?g)"
      by (simp add: reply_ok_def Stream_route stream_headers_def)
    have "ends (\<lambda>x. reply_ok rid rt ?b (Stream_reply 200 stream_headers ?g)) (fault env (faults rt ?b))
        (stream_check (ae_client env) run_id)"
      by (rule weaken [OF ends_stream_check]) (use j in \<open>simp_all add: Stream_route faults_def\<close>)
    then show ?thesis
      by (auto simp: endpoint_def Stream_route faults_def intro!: secured [unfolded Stream_route faults_def, simplified])
  next
    case (Cancel_route run_id)
    have j: "reply_ok rid rt ?b (json_reply 202 c)" for c by (rule reply_ok_json) (simp_all add: Cancel_route)
    have "ends (\<lambda>x. reply_ok rid rt ?b (json_reply 202 x)) (fault env (faults rt ?b))
        (cancel_run (ae_client env) run_id)"
      by (rule weaken [OF ends_cancel_run]) (use j in \<open>simp_all add: Cancel_route faults_def\<close>)
    then show ?thesis
      by (auto simp: endpoint_def Cancel_route faults_def intro!: secured [unfolded Cancel_route faults_def, simplified])
  qed
qed

lemma handle_fault_ends:
  assumes "fault env (faults rt b) e" and "foreign_errors env"
  shows "case handle_fault (Some rid) (Raised e) of
      Inl e' \<Rightarrow> from_outside env e' | Inr x \<Rightarrow> reply_ok rid rt b (Json_reply x)"
proof (cases "\<exists>st code m. e = APIError st code m")
  case True
  then obtain st code m where e: "e = APIError st code m" by blast
  with assms have "st \<in> set (statuses rt b)" "rt \<noteq> Readyz" "st \<noteq> 400"
    by (auto simp: from_outside_def foreign_errors_def faults_def split: if_splits)
  with e show ?thesis by (simp add: handle_fault_def reply_ok_envelope)
next
  case False
  with assms(1) show ?thesis
    by (cases e) (auto simp: handle_fault_def api_error_def)
qed

lemma handled_ends:
  assumes "foreign_errors env"
  shows "ends (reply_ok rid rt (hr_body req)) (from_outside env) (handled (Some rid) (endpoint I s env req rt (Some rid)))"
  unfolding handled_def ends_catch
proof (rule ends_mono [OF endpoint_ends])
  fix e assume "fault env (faults rt (hr_body req)) e"
  from handle_fault_ends [OF this assms, of rid]
  show "ends (reply_ok rid rt (hr_body req)) (from_outside env) (lift_res (rmap Json_reply (handle_fault (Some rid) (Raised e))))"
    by (cases "handle_fault (Some rid) (Raised e)") auto
qed

lemma set_header_lookup [simp]:
  "map_of (reply_headers (set_header k v r)) = (map_of (reply_headers r))(k \<mapsto> v)"
  by (cases r) (simp_all add: update_conv')

lemma reply_ok_set_header:
  assumes "reply_ok rid rt b r"
  shows "reply_ok rid rt b (set_header (lit ''X-Request-Id'') v r)"
proof -
  have "reply_status (set_header k v r) = reply_status r" for k by (cases r) simp_all
  with assms show ?thesis by (cases r) (auto simp: reply_ok_def update_conv')
qed

lemma app_ends:
  assumes "foreign_errors env"
  shows "ends
    (\<lambda>r. reply_ok (request_identifier (hr_request_id req) (ae_fresh env)) rt (hr_body req) r
      \<and> map_of (reply_headers r) (lit ''X-Request-Id'')
          = Some (request_identifier (hr_request_id req) (ae_fresh env)))
    (from_outside env) (app I s env req rt)"
  unfolding app_def correlation_def Let_def ends_ebind
  by (rule ends_mono [OF handled_ends [OF assms]]) (simp_all add: reply_ok_set_header)

text \<open>
  C15. What the application answers, for every route, request and environment.  A request is always
  answered or fails, it is never left pending.  Every reply has a status that the code of its
  route can give to a body of that kind, and carries the request's own identifier, or the fresh one
  when the request has none.  Every error has the application's envelope with that same identifier
  in its body, with two exceptions: the readiness probe's 503, which has a status and a reason, and
  the framework's 400 for a body that cannot be decoded, which has a detail.  Bearer credentials
  are asked for exactly with a 401.  What no handler answers is the \<open>TypeError\<close> of the token check,
  an encoding error, or an exception that the service or the health check raised: the
  application's own errors never leave it.
\<close>

theorem app_answers:
  assumes "foreign_errors env"
    and "rid = request_identifier (hr_request_id req) (ae_fresh env)"
  shows "case snd (app I s env req rt) of
      Return r \<Rightarrow>
        reply_status r \<in> set (statuses rt (hr_body req))
        \<and> map_of (reply_headers r) (lit ''X-Request-Id'') = Some rid
        \<and> (400 \<le> reply_status r \<longrightarrow>
             (\<exists>x. r = Json_reply x
               \<and> (if rt = Readyz then \<exists>reason. content x = not_ready_body reason
                  else if reply_status r = 400 then \<exists>detail. content x = JObj [(lit ''detail'', JStr detail)]
                  else \<exists>code m. content x = error_body rid code m)))
        \<and> (map_of (reply_headers r) (lit ''WWW-Authenticate'') = Some (lit ''Bearer''))
            = (reply_status r = 401)
    | Raise e \<Rightarrow>
        (e = TypeError \<or> e = UnicodeEncodeError \<or> service_raises env e)
        \<and> (\<forall>st code m. e \<noteq> APIError st code m)
    | Pending \<Rightarrow> False"
  using app_ends [OF assms(1), of req rt I s] assms
  by (cases "snd (app I s env req rt)")
    (auto simp: ends_def reply_ok_def error_shape_def from_outside_def foreign_errors_def)

definition sample_env_of :: "client \<Rightarrow> app_env" where
  "sample_env_of c = \<lparr>ae_client = c, ae_ticks = [], ae_health = None, ae_fresh = lit ''f00d''\<rparr>"

definition sample_http :: "pystr option \<Rightarrow> http_request" where
  "sample_http h = \<lparr>hr_request_id = Some [], hr_authorization = h, hr_body = Unreadable_body (lit ''json'')\<rparr>"

lemma sample_app_simps [simp]:
  "ae_client (sample_env_of c) = c" "ae_health (sample_env_of c) = None"
  "ae_fresh (sample_env_of c) = lit ''f00d''" "ae_ticks (sample_env_of c) = []"
  "hr_request_id (sample_http h) = Some []" "hr_authorization (sample_http h) = h"
  "hr_body (sample_http h) = Unreadable_body (lit ''json'')"
  by (simp_all add: sample_env_of_def sample_http_def)

lemma sample_refused:
  "\<exists>r. snd (app I default_settings (sample_env_of c) (sample_http None) (Get_run_route run_id)) = Return r
    \<and> reply_status r = 401"
  by (simp add: app_def correlation_def Let_def handled_def endpoint_def authenticated_def
      verify_token_def eff_unfold handle_fault_def envelope_def JSONResponse_def)

lemma sample_unanswered:
  "snd (app I default_settings (sample_env_of c) (sample_http (Some (lit ''Bearer '' @ [233])))
    (Get_run_route run_id)) = Raise TypeError"
proof -
  have "verify_token default_settings (Some (lit ''Bearer '' @ [233])) = Inl TypeError"
    using bearer_split [of "lit ''Bearer '' @ [233]"] by (simp add: verify_token_def compare_digest_def)
  then show ?thesis
    by (simp add: app_def correlation_def Let_def handled_def endpoint_def authenticated_def
        eff_unfold handle_fault_def)
qed

theorem app_answers_witness:
  "\<forall>I d. (\<exists>r. snd (app I default_settings (sample_env_of (sample_client (Inr ()) (Inr d)))
          (sample_http None) (Get_run_route (lit ''demo:1''))) = Return r
       \<and> reply_status r = 401 \<and> map_of (reply_headers r) (lit ''X-Request-Id'') = Some (lit ''f00d''))
     \<and> (\<exists>e. snd (app I default_settings (sample_env_of (sample_client (Inr ()) (Inr d)))
          (sample_http (Some (lit ''Bearer '' @ [233]))) (Get_run_route (lit ''demo:1''))) = Raise e
       \<and> (\<forall>st code m. e \<noteq> APIError st code m))"
proof (intro allI conjI)
  fix I d
  let ?env = "sample_env_of (sample_client (Inr ()) (Inr d))" and ?rt = "Get_run_route (lit ''demo:1'')"
  have f: "foreign_errors ?env"
    by (auto simp: foreign_errors_def service_raises_def sample_client_def)
  have i: "lit ''f00d'' = request_identifier (hr_request_id (sample_http h)) (ae_fresh ?env)" for h
    by (simp add: request_identifier_def or_default_def)
  obtain r where r: "snd (app I default_settings ?env (sample_http None) ?rt) = Return r"
    "reply_status r = 401" using sample_refused by blast
  with app_answers [OF f i [of None], of ?rt I default_settings]
  show "\<exists>r. snd (app I default_settings ?env (sample_http None) ?rt) = Return r
       \<and> reply_status r = 401 \<and> map_of (reply_headers r) (lit ''X-Request-Id'') = Some (lit ''f00d'')"
    by simp
  let ?q = "sample_http (Some (lit ''Bearer '' @ [233]))"
  show "\<exists>e. snd (app I default_settings ?env ?q ?rt) = Raise e \<and> (\<forall>st code m. e \<noteq> APIError st code m)"
    using app_answers [OF f i [of "Some (lit ''Bearer '' @ [233])"], of ?rt I default_settings]
      sample_unanswered [of I "sample_client (Inr ()) (Inr d)" "lit ''demo:1''"] by simp
qed

lemma no_token_no_call:
  assumes "rt \<noteq> Healthz" and "rt \<noteq> Readyz"
    and "hr_authorization req \<noteq> Some (lit ''Bearer '' @ api_bearer_token s)"
  shows "fst (app I s env req rt) = []
    \<and> ((\<exists>r. snd (app I s env req rt) = Return r
          \<and> (reply_status r = 401 \<or> reply_status r = 422 \<and> rt = Post_runs \<and> (\<exists>t. hr_body req = Unreadable_body t)
              \<or> reply_status r = 400 \<and> rt = Post_runs \<and> (\<exists>t. hr_body req = Undecodable_body t)))
       \<or> snd (app I s env req rt) = Raise TypeError
          \<and> (\<exists>t. hr_authorization req = Some (lit ''Bearer '' @ t)
               \<and> \<not> (is_ascii t \<and> is_ascii (api_bearer_token s))))"
proof (cases "rt = Post_runs \<and> (\<exists>t. hr_body req = Unreadable_body t \<or> hr_body req = Undecodable_body t)")
  case True
  then show ?thesis
    by (auto simp: app_def correlation_def Let_def handled_def endpoint_def eff_unfold
        validation_error_def handle_fault_def envelope_def JSONResponse_def framework_error_def
        json_reply_def)
next
  case False
  obtain e where e: "verify_token s (hr_authorization req) = Inl e"
    using admitted_token [of s "hr_authorization req"] assms(3)
    by (cases "verify_token s (hr_authorization req)") auto
  have a: "authenticated s (hr_authorization req) m = ([], Raise e)" for m :: "(api_event, 'a) eff"
    using e by (simp add: authenticated_def)
  have "endpoint I s env req rt request_id = ([], Raise e)" for request_id
    using assms(1,2) False by (cases rt) (auto simp: endpoint_def Let_def a split: run_body.split)
  with verify_token_cases [OF e] show ?thesis
    by (auto simp: app_def correlation_def Let_def handled_def eff_unfold handle_fault_def
        envelope_def JSONResponse_def)
qed

text \<open>
  C14. The token guards every route of a run: a request to one of them without exactly the configured
  token issues no call to the service and leaves no trace; it is refused with a 401, or with a 422
  for a body that is not JSON or the framework's 400 for a body that cannot be decoded, or it fails
  with a \<open>TypeError\<close> if its token is not ASCII.
\<close>

theorem runs_need_token:
  assumes "rt \<noteq> Healthz" and "rt \<noteq> Readyz"
    and "hr_authorization req \<noteq> Some (lit ''Bearer '' @ api_bearer_token s)"
  shows "fst (app I s env req rt) = []
    \<and> ((\<exists>r. snd (app I s env req rt) = Return r
          \<and> (reply_status r = 401 \<or> reply_status r = 422 \<and> rt = Post_runs \<and> (\<exists>t. hr_body req = Unreadable_body t)
              \<or> reply_status r = 400 \<and> rt = Post_runs \<and> (\<exists>t. hr_body req = Undecodable_body t)))
       \<or> snd (app I s env req rt) = Raise TypeError
          \<and> (\<exists>t. hr_authorization req = Some (lit ''Bearer '' @ t)
               \<and> \<not> (is_ascii t \<and> is_ascii (api_bearer_token s))))"
  using assms by (rule no_token_no_call)

theorem runs_need_token_witness:
  "\<forall>I c. fst (app I default_settings (sample_env_of c) (sample_http (Some (lit ''Bearer x'')))
        (Cancel_route (lit ''demo:1''))) = []"
proof (intro allI)
  fix I c
  have "Some (lit ''Bearer x'') \<noteq> Some (lit ''Bearer '' @ api_bearer_token default_settings)"
    by (simp add: default_settings_def lit_Cons)
  then show "fst (app I default_settings (sample_env_of c) (sample_http (Some (lit ''Bearer x'')))
        (Cancel_route (lit ''demo:1''))) = []"
    using runs_need_token [of "Cancel_route (lit ''demo:1'')" "sample_http (Some (lit ''Bearer x''))"
        default_settings I "sample_env_of c"] by simp
qed

text \<open>The probes answer whatever token the request has, and call nothing of the run service.\<close>

lemma probes_open:
  assumes "rt = Healthz \<or> rt = Readyz"
  shows "app I s env req rt = app I s env (req\<lparr>hr_authorization := h\<rparr>) rt
    \<and> fst (app I s env req rt) = []"
  using assms
  by (auto simp: app_def correlation_def Let_def handled_def endpoint_def eff_unfold
      intro!: prod_eqI split: outcome.split)

end
