(* ===== verification/Submissions.thy ===== *)
theory Submissions
  imports RunsApi
begin

text \<open>
  Submissions one after another: the runs that a service knows after a sequence of requests, and
  what an accepted submission may rely on.  The service is not part of the program; what it
  documents of unique workflow identifiers and of memos is the predicate \<open>documented_service\<close> on
  its answers, which also allows it to fail, and to start a run whose acknowledgement is lost.  A
  history is within the time for which the service retains its runs: \<^verbatim>\<open>REJECT_DUPLICATE\<close> rejects an
  identifier only that long.
\<close>

section \<open>The runs of a service\<close>

text \<open>For each identifier, the request and the start call that created its run.\<close>

type_synonym runs = "pystr \<rightharpoonup> RunRequest \<times> start_call"

definition starts :: "api_event list \<Rightarrow> start_call list" where
  "starts es = concat (map (\<lambda>e. case e of Start_workflow sc \<Rightarrow> [sc] | _ \<Rightarrow> []) es)"

lemma in_starts: "sc \<in> set (starts es) \<longleftrightarrow> Start_workflow sc \<in> set es"
  by (induction es) (auto simp: starts_def split: api_event.splits)

text \<open>An unused identifier is never reported as taken, a used one is never started again, and a
  memo that can be read as a mapping is the one with which the run was started.\<close>

definition documented_service :: "interp \<Rightarrow> runs \<Rightarrow> RunRequest \<Rightarrow> client \<Rightarrow> bool" where
  "documented_service I known r c \<longleftrightarrow>
     (\<forall>wid. workflow_id I r = Inr wid \<longrightarrow>
       (case known wid of
          None \<Rightarrow> cl_start c \<noteq> Inl WorkflowAlreadyStartedError
        | Some (r0, sc) \<Rightarrow>
            cl_start c \<noteq> Inr ()
            \<and> (\<forall>d m. cl_describe c = Inr d \<longrightarrow> de_memo d = Memo_mapping m \<longrightarrow> m = sc_memo sc)))"

text \<open>The answers to a request let the handler read the memo of a run.\<close>

definition memo_readable :: "client \<Rightarrow> bool" where
  "memo_readable c \<longleftrightarrow> (\<exists>d m. cl_describe c = Inr d \<and> de_memo d = Memo_mapping m)"

text \<open>A sequence of requests with the service's answers and their outcomes, and the runs it leaves.\<close>

record submission =
  su_request :: RunRequest
  su_client :: client
  su_outcome :: "Response outcome"

definition submit :: "interp \<Rightarrow> Settings \<Rightarrow> client \<Rightarrow> RunRequest \<Rightarrow> submission" where
  "submit I s c r = \<lparr>su_request = r, su_client = c, su_outcome = snd (create_run I s c r)\<rparr>"

lemma submit_simps [simp]:
  "su_request (submit I s c r) = r" "su_client (submit I s c r) = c"
  "su_outcome (submit I s c r) = snd (create_run I s c r)"
  by (simp_all add: submit_def)

inductive history :: "interp \<Rightarrow> Settings \<Rightarrow> submission list \<Rightarrow> runs \<Rightarrow> bool" for I s where
  no_request: "history I s [] Map.empty"
| no_start: "\<lbrakk>history I s h known; documented_service I known r c;
      cl_start c \<noteq> Inr () \<or> starts (fst (create_run I s c r)) = []\<rbrakk> \<Longrightarrow>
    history I s (h @ [submit I s c r]) known"
| new_run: "\<lbrakk>history I s h known; documented_service I known r c;
      sc \<in> set (starts (fst (create_run I s c r))); cl_start c = Inr ()\<rbrakk> \<Longrightarrow>
    history I s (h @ [submit I s c r]) (known(sc_id sc \<mapsto> (r, sc)))"
| lost_reply: "\<lbrakk>history I s h known; documented_service I known r c;
      sc \<in> set (starts (fst (create_run I s c r))); cl_start c = Inl e; known (sc_id sc) = None\<rbrakk> \<Longrightarrow>
    history I s (h @ [submit I s c r]) (known(sc_id sc \<mapsto> (r, sc)))"

section \<open>Invariants of a history\<close>

lemma handle_already_started_Return:
  assumes "snd (handle_already_started I c r wid) = Return resp"
  shows "resp = accepted_response 200 r wid"
  using assms
  by (auto simp: handle_already_started_def eff_unfold snd_lift_res split: outcome.splits sum.splits if_splits)

lemma create_run_Return:
  assumes "snd (create_run I s c r) = Return resp"
  shows "\<exists>wid b. admissible I s r wid b
    \<and> (cl_start c = Inr () \<and> resp = accepted_response 201 r wid
       \<or> cl_start c = Inl WorkflowAlreadyStartedError \<and> resp = accepted_response 200 r wid)"
  using assms
  by (auto simp: create_run_def start_run_def admissible_def eff_unfold snd_lift_res rmap_eq_Inr
      dest: payload_bytes_Inl handle_already_started_Return
      split: outcome.splits sum.splits exn.splits if_splits)

lemma start_call_facts:
  assumes "sc \<in> set (starts (fst (create_run I s c r)))"
  shows "workflow_id I r = Inr (sc_id sc) \<and> sc_input sc = run_input s r (sc_id sc)"
  using create_run_start_call assms by (fastforce simp: in_starts)

text \<open>Every known run was started by a request of the history, under that request's identifier.\<close>

lemma history_known:
  "history I s h known \<Longrightarrow> known wid = Some (r0, sc) \<Longrightarrow>
     sc_id sc = wid \<and> r0 \<in> su_request ` set h \<and> (\<exists>c. Start_workflow sc \<in> set (fst (create_run I s c r0)))"
  by (induction arbitrary: wid r0 sc rule: history.induct)
    (auto simp: in_starts split: if_splits)

text \<open>A known run is never replaced.\<close>

lemma history_fresh:
  assumes "documented_service I known r c" and "sc \<in> set (starts (fst (create_run I s c r)))"
    and "cl_start c = Inr ()"
  shows "known (sc_id sc) = None"
  using assms start_call_facts [OF assms(2)]
  by (auto simp: documented_service_def split: option.splits)

text \<open>What an accepted submission has been promised by the runs that are known: its own identifier,
  and its own work when it started the run or could compare the memos.\<close>

definition same_work :: "RunRequest \<Rightarrow> RunRequest \<Rightarrow> bool" where
  "same_work r r' \<longleftrightarrow> rq_task r = rq_task r' \<and> rq_params r = rq_params r'"

definition promised :: "interp \<Rightarrow> Settings \<Rightarrow> runs \<Rightarrow> client \<Rightarrow> RunRequest \<Rightarrow> Response \<Rightarrow> bool" where
  "promised I s known c r resp \<longleftrightarrow>
     (\<exists>st wid r0 sc. st \<in> {200, 201} \<and> resp = accepted_response st r wid
        \<and> workflow_id I r = Inr wid \<and> known wid = Some (r0, sc) \<and> sc_input sc = run_input s r0 wid
        \<and> (st = 201 \<or> memo_readable c \<longrightarrow> same_work r r0))"

lemma promisedI:
  assumes "st \<in> {200, 201}" and "resp = accepted_response st r wid" and "workflow_id I r = Inr wid"
    and "known wid = Some (r0, sc)" and "sc_input sc = run_input s r0 wid"
    and "st = 201 \<or> memo_readable c \<longrightarrow> same_work r r0"
  shows "promised I s known c r resp"
  unfolding promised_def using assms by blast

lemma promisedE:
  assumes "promised I s known c r resp"
  obtains st wid r0 sc where "st \<in> {200, 201}" "resp = accepted_response st r wid"
    "workflow_id I r = Inr wid" "known wid = Some (r0, sc)" "sc_input sc = run_input s r0 wid"
    "st = 201 \<or> memo_readable c \<longrightarrow> same_work r r0"
  using assms unfolding promised_def by blast

lemma promised_mono:
  assumes "promised I s known c r resp" and "known wid' = None"
  shows "promised I s (known(wid' \<mapsto> x)) c r resp"
  using assms(1)
proof (rule promisedE)
  fix st wid r0 sc
  assume p: "st \<in> {200, 201}" "resp = accepted_response st r wid" "workflow_id I r = Inr wid"
    "known wid = Some (r0, sc)" "sc_input sc = run_input s r0 wid"
    "st = 201 \<or> memo_readable c \<longrightarrow> same_work r r0"
  with assms(2) have "(known(wid' \<mapsto> x)) wid = Some (r0, sc)" by auto
  with p show ?thesis by (intro promisedI)
qed

text \<open>No two payloads of the requests have the same digest, as far as identifiers show it.\<close>

definition no_collision :: "interp \<Rightarrow> RunRequest set \<Rightarrow> bool" where
  "no_collision I rs \<longleftrightarrow>
     (\<forall>r \<in> rs. \<forall>r' \<in> rs. \<forall>b b'. payload_bytes r = Inr b \<longrightarrow> payload_bytes r' = Inr b' \<longrightarrow>
        take 32 (sha256_hex I b) = take 32 (sha256_hex I b') \<longrightarrow> b = b')"

lemma no_collision_subset: "no_collision I rs' \<Longrightarrow> rs \<subseteq> rs' \<Longrightarrow> no_collision I rs"
  unfolding no_collision_def by blast

lemma accepted_replay:
  assumes "history I s h known" and "documented_service I known r c"
    and "no_collision I (su_request ` set h \<union> {r})"
    and "snd (create_run I s c r) = Return resp" and "cl_start c \<noteq> Inr ()"
  shows "promised I s known c r resp"
proof -
  obtain wid b where a: "admissible I s r wid b" "cl_start c = Inl WorkflowAlreadyStartedError"
    "resp = accepted_response 200 r wid"
    using create_run_Return [OF assms(4)] assms(5) by blast
  then have w: "workflow_id I r = Inr wid" "payload_bytes r = Inr b" by (simp_all add: admissible_def)
  obtain r0 sc where k: "known wid = Some (r0, sc)"
    using assms(2) w(1) a(2) by (force simp: documented_service_def split: option.splits)
  from history_known [OF assms(1) k] obtain c0 where sc: "sc_id sc = wid" "r0 \<in> su_request ` set h"
    "Start_workflow sc \<in> set (fst (create_run I s c0 r0))" by blast
  have t: "sc_input sc = run_input s r0 wid"
    using start_call_facts [of sc I s c0 r0] sc(1,3) by (simp add: in_starts)
  have "same_work r r0" if readable: "memo_readable c"
  proof -
    obtain d where d: "cl_describe c = Inr d" "de_memo d = Memo_mapping (sc_memo sc)"
      using readable assms(2) w(1) k by (auto simp: memo_readable_def documented_service_def)
    have nc: "b0 = b" if "payload_bytes r0 = Inr b0" "sha256_hex I b0 = sha256_hex I b" for b0
      using assms(3) sc(2) w(2) that unfolding no_collision_def by force
    have "snd (create_run I s c r) = (if rq_task r = rq_task r0 \<and> rq_params r = rq_params r0
        then Return (accepted_response 200 r (sc_id sc)) else Raise conflict)"
      using replay_outcome [OF sc(3) _ nc a(2) d] a(1) sc(1) by simp
    with assms(4) show ?thesis by (simp add: same_work_def split: if_splits)
  qed
  then show ?thesis using promisedI [where st = 200 and known = known and wid = wid, OF _ a(3) w(1) k t] by simp
qed

text \<open>The invariant: every accepted submission of a history has what it was promised.\<close>

definition promises_kept :: "interp \<Rightarrow> Settings \<Rightarrow> submission list \<Rightarrow> runs \<Rightarrow> bool" where
  "promises_kept I s h known \<longleftrightarrow>
     (\<forall>x \<in> set h. \<forall>resp. su_outcome x = Return resp \<longrightarrow>
        promised I s known (su_client x) (su_request x) resp)"

lemma promises_kept_snoc:
  assumes "promises_kept I s h known"
    and "\<And>resp. snd (create_run I s c r) = Return resp \<Longrightarrow> promised I s known c r resp"
  shows "promises_kept I s (h @ [submit I s c r]) known"
  using assms unfolding promises_kept_def by auto

lemma promises_kept_mono:
  assumes "promises_kept I s h known" and "known wid = None"
  shows "promises_kept I s h (known(wid \<mapsto> x))"
  using assms promised_mono unfolding promises_kept_def by blast

lemma history_promises_kept:
  assumes "history I s h known" and "no_collision I (su_request ` set h)"
  shows "promises_kept I s h known"
  using assms
proof (induction rule: history.induct)
  case no_request
  then show ?case by (simp add: promises_kept_def)
next
  case (no_start h known r c)
  then have "no_collision I (su_request ` set h)" by (auto intro: no_collision_subset)
  with no_start.IH have IH: "promises_kept I s h known" by blast
  show ?case
  proof (rule promises_kept_snoc [OF IH])
    fix resp assume resp: "snd (create_run I s c r) = Return resp"
    have "cl_start c \<noteq> Inr ()"
      using no_start.hyps(3) create_run_Return [OF resp] admissible_starts [of I s r _ _ c]
      by (metis empty_iff empty_set in_starts)
    moreover have "no_collision I (su_request ` set h \<union> {r})" using no_start.prems by simp
    ultimately show "promised I s known c r resp"
      using accepted_replay [OF no_start.hyps(1,2) _ resp] by blast
  qed
next
  case (new_run h known r c sc)
  then have "no_collision I (su_request ` set h)" by (auto intro: no_collision_subset)
  with new_run.IH have IH: "promises_kept I s h known" by blast
  note fresh = history_fresh [OF new_run.hyps(2-4)]
  show ?case
  proof (rule promises_kept_snoc [OF promises_kept_mono [OF IH fresh]])
    fix resp assume "snd (create_run I s c r) = Return resp"
    then obtain wid b where "admissible I s r wid b" "resp = accepted_response 201 r wid"
      using create_run_Return new_run.hyps(4) by fastforce
    then show "promised I s (known(sc_id sc \<mapsto> (r, sc))) c r resp"
      using start_call_facts [OF new_run.hyps(3)]
      by (auto simp: promised_def admissible_def same_work_def)
  qed
next
  case (lost_reply h known r c sc e)
  then have "no_collision I (su_request ` set h)" by (auto intro: no_collision_subset)
  with lost_reply.IH have IH: "promises_kept I s h known" by blast
  show ?case
  proof (rule promises_kept_snoc [OF promises_kept_mono [OF IH lost_reply.hyps(5)]])
    fix resp assume resp: "snd (create_run I s c r) = Return resp"
    then have "cl_start c = Inl WorkflowAlreadyStartedError"
      using create_run_Return lost_reply.hyps(4) by fastforce
    moreover have "workflow_id I r = Inr (sc_id sc)" using start_call_facts [OF lost_reply.hyps(3)] by blast
    ultimately have False
      using lost_reply.hyps(2,5) by (auto simp: documented_service_def)
    then show "promised I s (known(sc_id sc \<mapsto> (r, sc))) c r resp" ..
  qed
qed

section \<open>Whose work an accepted submission names\<close>

definition keyless :: "RunRequest \<Rightarrow> bool" where
  "keyless r \<longleftrightarrow> rq_idempotency_key r = None \<or> rq_idempotency_key r = Some []"

lemma same_identifier_tenant:
  assumes "workflow_id I r = Inr wid" and "workflow_id I r0 = Inr wid"
    and "valid_RunRequest r" and "valid_RunRequest r0"
  shows "rq_tenant_id r0 = rq_tenant_id r"
  using assms workflow_id_cases tenant_of_join tenant_no_colon
  by (metis option.inject valid_RunRequest_def)

lemma keyless_same_work:
  assumes "workflow_id I r = Inr wid" and "workflow_id I r0 = Inr wid"
    and "keyless r" and "keyless r0" and "rq_tenant_id r0 = rq_tenant_id r"
    and "no_collision I rs" and "r \<in> rs" and "r0 \<in> rs"
  shows "same_work r r0"
proof -
  have "\<exists>b. payload_bytes x = Inr b \<and> wid = rq_tenant_id x @ lit '':'' @ take 32 (sha256_hex I b)"
    if "workflow_id I x = Inr wid" "keyless x" for x
    using that by (auto simp: workflow_id_def Let_def keyless_def rmap_eq_Inr)
  then obtain b b0 where b: "payload_bytes r = Inr b" "payload_bytes r0 = Inr b0"
    "take 32 (sha256_hex I b) = take 32 (sha256_hex I b0)"
    using assms(1-5) by (metis append_same_eq same_append_eq)
  then have "b = b0" using assms(6-8) unfolding no_collision_def by blast
  with b same_payload show ?thesis unfolding same_work_def by metis
qed

text \<open>
  C13. An accepted submission names a run of its own work: after any sequence of valid requests, with
  failures, lost replies and reused keys among them, a request that was answered with 200 or 201
  was answered with its identifier, and a run of that identifier and of its tenant was started.
  That run has exactly the input that this request asks for when this request started it, when
  the memo of the run could be read as a mapping, or when no request has an idempotency key:
  without keys the identifiers themselves tell the payloads apart.  The hypotheses are that the
  service keeps identifiers unique and memos unchanged, and that no two payloads collide under
  the hash.
\<close>

theorem accepted_submission_runs_own_work:
  assumes "history I s h known" and "no_collision I (su_request ` set h)"
    and "\<forall>r \<in> su_request ` set h. valid_RunRequest r"
    and "x \<in> set h" and "su_request x = r" and "su_outcome x = Return resp"
  shows "\<exists>st wid r0 sc. st \<in> {200, 201} \<and> resp = accepted_response st r wid \<and> workflow_id I r = Inr wid
    \<and> known wid = Some (r0, sc) \<and> sc_id sc = wid \<and> ri_tenant_id (sc_input sc) = rq_tenant_id r
    \<and> (st = 201 \<or> memo_readable (su_client x) \<or> (\<forall>r' \<in> su_request ` set h. keyless r') \<longrightarrow>
         sc_input sc = run_input s r wid)"
proof -
  have p: "promised I s known (su_client x) r resp"
    using history_promises_kept [OF assms(1,2)] assms(4-6) by (auto simp: promises_kept_def)
  obtain st wid r0 sc where w: "st \<in> {200, 201}" "resp = accepted_response st r wid"
    "workflow_id I r = Inr wid" "known wid = Some (r0, sc)" "sc_input sc = run_input s r0 wid"
    "st = 201 \<or> memo_readable (su_client x) \<longrightarrow> same_work r r0"
    using p by (rule promisedE)
  obtain c where k: "sc_id sc = wid" "r0 \<in> su_request ` set h"
    "Start_workflow sc \<in> set (fst (create_run I s c r0))"
    using history_known [OF assms(1) w(4)] by blast
  have r: "r \<in> su_request ` set h" using assms(4,5) by blast
  have w0: "workflow_id I r0 = Inr wid"
    using start_call_facts [of sc I s c r0] k(1,3) by (simp add: in_starts)
  have t: "rq_tenant_id r0 = rq_tenant_id r"
    using same_identifier_tenant [OF w(3) w0] assms(3) r k(2) by blast
  have "same_work r r0" if "\<forall>r' \<in> su_request ` set h. keyless r'"
    using keyless_same_work [OF w(3) w0 _ _ t assms(2) r k(2)] that r k(2) by blast
  moreover have "sc_input sc = run_input s r wid" if "same_work r r0"
    using that w(5) t by (simp add: same_work_def run_input_def request_limits_def)
  moreover have "ri_tenant_id (sc_input sc) = rq_tenant_id r" using w(5) t by (simp add: run_input_def)
  ultimately show ?thesis using w k(1) by blast
qed

lemma one_request_no_collision: "no_collision I {r}"
  unfolding no_collision_def by auto

theorem accepted_submission_runs_own_work_witness:
  "\<exists>h known sc x r. history open_interp default_settings h known \<and> length h = 2
     \<and> x \<in> set h \<and> su_request x = r
     \<and> su_outcome x = Return (accepted_response 200 r (lit ''demo:k''))
     \<and> known (lit ''demo:k'') = Some (r, sc)
     \<and> sc_input sc = run_input default_settings r (lit ''demo:k'')"
proof -
  let ?r = "sample_request (Some 5) (Some (lit ''k''))" and ?I = open_interp and ?s = default_settings
  let ?c = "sample_client (Inr ()) (Inl CancelledError)"
  obtain sc where sc: "sc \<in> set (starts (fst (create_run ?I ?s ?c ?r)))" "sc_id sc = lit ''demo:k''"
    using sample_starts unfolding in_starts by blast
  obtain b where b: "admissible ?I ?s ?r (lit ''demo:k'') b" using sample_admissible by blast
  then have w: "workflow_id ?I ?r = Inr (lit ''demo:k'')" by (simp add: admissible_def)
  define known where "known = [lit ''demo:k'' \<mapsto> (?r, sc)]"
  have h: "history ?I ?s [submit ?I ?s ?c ?r] known"
    using history.new_run [OF history.no_request _ sc(1)]
    unfolding sc(2) known_def by (simp add: documented_service_def)
  define d where "d = \<lparr>de_status = None, de_memo = Memo_mapping (sc_memo sc)\<rparr>"
  let ?c' = "sample_client (Inl WorkflowAlreadyStartedError) (Inr d)"
  have "documented_service ?I known ?r ?c'"
    by (simp add: documented_service_def w known_def d_def)
  from history.no_start [OF h this] have h': "history ?I ?s [submit ?I ?s ?c ?r, submit ?I ?s ?c' ?r] known"
    by simp
  have "Start_workflow sc \<in> set (fst (create_run ?I ?s ?c ?r))" using sc(1) by (simp add: in_starts)
  from replay_outcome [OF this, of ?r b ?c' d] b sc(2) open_interp_inject
  have out: "su_outcome (submit ?I ?s ?c' ?r) = Return (accepted_response 200 ?r (lit ''demo:k''))"
    by (simp add: d_def)
  have v: "valid_RunRequest ?r"
    by (simp add: valid_RunRequest_def valid_RunParams_def tenant_char_def lit_Cons)
  have m: "memo_readable (su_client (submit ?I ?s ?c' ?r))" by (simp add: memo_readable_def d_def)
  have k: "known (lit ''demo:k'') = Some (?r, sc)" by (simp add: known_def)
  let ?h = "[submit ?I ?s ?c ?r, submit ?I ?s ?c' ?r]"
  have "su_request ` set ?h = {?r}" by simp
  with v have h2: "no_collision ?I (su_request ` set ?h)" "\<forall>r \<in> su_request ` set ?h. valid_RunRequest r"
    by (simp_all add: one_request_no_collision)
  from accepted_submission_runs_own_work [OF h' h2, of "submit ?I ?s ?c' ?r", OF _ refl out] m w k
  have "sc_input sc = run_input ?s ?r (lit ''demo:k'')" by auto
  with h' out k show ?thesis
    by (intro exI [of _ ?h] exI [of _ known] exI [of _ sc] exI [of _ "submit ?I ?s ?c' ?r"] exI [of _ ?r]) simp
qed

end
