(* ===== verification/Replies.thy ===== *)
theory Replies
  imports App Submissions
begin

text \<open>
  The replies of the composed application to an authorised or a refused request, in terms of the
  endpoint's handler: what reaches the orchestration service, and which status and body come back.
\<close>

section \<open>Replies of the application\<close>

definition has_token :: "Settings \<Rightarrow> http_request \<Rightarrow> bool" where
  "has_token s req \<longleftrightarrow> hr_authorization req = Some (lit ''Bearer '' @ api_bearer_token s)"

lemma app_calls_token:
  assumes "fst (app I s env req rt) \<noteq> []" and "rt \<noteq> Healthz" and "rt \<noteq> Readyz"
  shows "has_token s req"
  using no_token_no_call [of rt req s I env] assms by (auto simp: has_token_def)

lemma set_header_reply:
  "set_header k v (Json_reply x) = Json_reply (x\<lparr>headers := AList.update k v (headers x)\<rparr>)"
  by simp

text \<open>A reply to a guarded route is the handler's, or the envelope of one of the API's own errors.\<close>

lemma secured_reply:
  assumes "snd (handled (Some rid) (authenticated s h m)) = Return rep"
  shows "(\<exists>e st code msg. e = APIError st code msg \<and> rep = Json_reply (envelope (Some rid) st code msg)
        \<and> (verify_token s h = Inl e \<or> verify_token s h = Inr () \<and> snd m = Raise e))
    \<or> verify_token s h = Inr () \<and> snd m = Return rep"
proof -
  have h: "\<exists>st code msg. e = APIError st code msg \<and> rep = Json_reply (envelope (Some rid) st code msg)"
    if "snd (lift_res (rmap Json_reply (handle_fault (Some rid) (Raised e)))) = Return rep" for e
    using that by (cases e) (auto simp: handle_fault_def)
  show ?thesis
  proof (cases "verify_token s h")
    case (Inl e)
    with assms h [of e] show ?thesis by (auto simp: handled_def authenticated_def snd_catch)
  next
    case (Inr u)
    with assms h show ?thesis
      by (cases "snd m") (fastforce simp: handled_def authenticated_def snd_catch)+
  qed
qed

lemma resolve_status_error:
  assumes "snd (resolve_status I (ae_client env) w) = Raise (APIError st code msg)" and "foreign_errors env"
  shows "st = 404 \<and> cl_describe (ae_client env) = Inl (RPCError RPC_NOT_FOUND)"
proof -
  have f: "cl_describe (ae_client env) \<noteq> Inl (APIError x y z)" "cl_query (ae_client env) \<noteq> Inl (APIError x y z)"
    "cl_result (ae_client env) \<noteq> Inl (APIError x y z)" for x y z
    using assms(2) unfolding foreign_errors_def service_raises_def by metis+
  show ?thesis
    using assms(1)
    by (auto simp: resolve_status_def or_not_found_def terminal_failure_def eff_unfold not_found_def f Let_def
        split: outcome.splits sum.splits if_splits)
qed

lemma verify_token_envelope:
  "verify_token s h = Inl (APIError st code msg) \<Longrightarrow> st = 401"
  using verify_token_cases [of s h "APIError st code msg"] by auto

lemma verify_token_has_token: "verify_token s (hr_authorization req) = Inr u \<Longrightarrow> has_token s req"
  using admitted_token by (simp add: has_token_def)

lemma app_reply:
  assumes "snd (app I s env req rt) = Return rep"
  shows "\<exists>rid rep0. rep = set_header (lit ''X-Request-Id'') rid rep0
    \<and> snd (handled (Some rid) (endpoint I s env req rt (Some rid))) = Return rep0"
  using assms
  by (auto simp: app_def correlation_def Let_def snd_ebind split: outcome.splits)

lemma status_set_header [simp]: "reply_status (set_header k v r) = reply_status r"
  by (cases r) simp_all

lemma envelope_status [simp]: "status_code (envelope rid st code msg) = st"
  by (simp add: envelope_def JSONResponse_def)

text \<open>A reply to a read is the response that \<^verbatim>\<open>_resolve_status\<close> returned, or a refusal; it is 404 only
  when the service does not know the run.\<close>

definition read_reply :: "RunStatusResponse \<Rightarrow> reply \<Rightarrow> bool" where
  "read_reply x rep \<longleftrightarrow>
     (\<exists>h. rep = Json_reply \<lparr>status_code = 200, content = dump_RunStatusResponse x, headers = h\<rparr>)"

lemma get_reply:
  assumes "snd (app I s env req (Get_run_route w)) = Return rep" and "foreign_errors env"
  shows "(\<exists>x. has_token s req \<and> snd (resolve_status I (ae_client env) w) = Return x \<and> read_reply x rep)
    \<or> reply_status rep = 401
    \<or> reply_status rep = 404 \<and> cl_describe (ae_client env) = Inl (RPCError RPC_NOT_FOUND)"
proof -
  let ?m = "ebind (get_run I (ae_client env) w) (\<lambda>x. ret (json_reply 200 (dump_RunStatusResponse x)))"
  obtain rid rep0 where r: "rep = set_header (lit ''X-Request-Id'') rid rep0"
    "snd (handled (Some rid) (authenticated s (hr_authorization req) ?m)) = Return rep0"
    using app_reply [OF assms(1)] by (auto simp: endpoint_def)
  from secured_reply [OF r(2)] show ?thesis
  proof
    assume "\<exists>e st code msg. e = APIError st code msg \<and> rep0 = Json_reply (envelope (Some rid) st code msg)
        \<and> (verify_token s (hr_authorization req) = Inl e
           \<or> verify_token s (hr_authorization req) = Inr () \<and> snd ?m = Raise e)"
    then obtain st code msg where e: "rep0 = Json_reply (envelope (Some rid) st code msg)"
      and c: "verify_token s (hr_authorization req) = Inl (APIError st code msg)
        \<or> snd (resolve_status I (ae_client env) w) = Raise (APIError st code msg)"
      by (auto simp: snd_ebind get_run_def split: outcome.splits)
    from c show ?thesis
      using verify_token_envelope resolve_status_error [OF _ assms(2)] by (fastforce simp: r(1) e)
  next
    assume "verify_token s (hr_authorization req) = Inr () \<and> snd ?m = Return rep0"
    then obtain x where "has_token s req" "snd (resolve_status I (ae_client env) w) = Return x"
      "rep0 = json_reply 200 (dump_RunStatusResponse x)"
      by (auto simp: snd_ebind get_run_def verify_token_has_token split: outcome.splits)
    then show ?thesis
      by (auto simp: r(1) json_reply_def JSONResponse_def read_reply_def)
  qed
qed

lemma submit_calls:
  assumes "Start_workflow sc \<in> set (fst (app I s env req Post_runs))"
  shows "\<exists>r. has_token s req \<and> hr_body req = Body r
    \<and> Start_workflow sc \<in> set (fst (create_run I s (ae_client env) r))"
proof -
  have t: "has_token s req" using app_calls_token [of I s env req Post_runs] assms by fastforce
  have "\<exists>r. hr_body req = Body r \<and> Start_workflow sc \<in> set (fst (create_run I s (ae_client env) r))"
    using assms
    by (cases "hr_body req")
      (auto simp: app_def correlation_def Let_def handled_def endpoint_def authenticated_def
        validation_error_def handle_fault_def eff_unfold split: outcome.splits)
  with t show ?thesis by blast
qed

lemma submit_calls_all:
  assumes "verify_token s (hr_authorization req) = Inr ()" and "hr_body req = Body r"
  shows "set (fst (create_run I s (ae_client env) r)) \<subseteq> set (fst (app I s env req Post_runs))"
  using assms
  by (auto simp: app_def correlation_def Let_def handled_def endpoint_def authenticated_def eff_unfold)

end
