(* ===== verification/Gvisor.thy ===== *)
theory Gvisor
  imports Runner
begin

text \<open>
  The gVisor runner (\<^verbatim>\<open>app/sandbox/gvisor.py\<close>): control commands, the bounded reading of
  output, the preflight check, the command line of the container, the polling loop with its
  wall-clock kill and heartbeats, the classification of launch failures, and the teardown.
  The subprocesses, the clock and the cancellation are described by the environment records
  below; the events are the calls the runner issues.
\<close>

section \<open>Control commands\<close>

text \<open>How a control command goes: starting it raises, its output does not come in time, waiting
  for it raises (a cancellation), or it ends with a return code and its two outputs.\<close>

datatype cmd_env =
    Spawn_raises exn
  | Comm_times_out
  | Comm_raises exn
  | Comm_done "int option" "byte list" "byte list"

definition ascii_bytes :: "string \<Rightarrow> byte list" where
  "ascii_bytes s = map word_of_nat (lit s)"

fun run_cmd :: "cmd_env \<Rightarrow> (int \<times> byte list \<times> byte list) result" where
  "run_cmd (Spawn_raises e) =
     (if e = FileNotFoundError then Inr (127, [], ascii_bytes ''docker CLI not found on PATH'')
      else Inl e)"
| "run_cmd Comm_times_out = Inr (124, [], ascii_bytes ''control command timed out'')"
| "run_cmd (Comm_raises e) = Inl e"
| "run_cmd (Comm_done rc out err) = Inr (case rc of None \<Rightarrow> 0 | Some n \<Rightarrow> n, out, err)"

definition control ::
  "pystr list \<Rightarrow> cmd_env \<Rightarrow> (event, int \<times> byte list \<times> byte list) eff" where
  "control cmd c = eseq (emit (Control cmd)) (lift_res (run_cmd c))"

section \<open>Reading output into a bounded buffer\<close>

definition READ_CHUNK :: nat where
  "READ_CHUNK = 65536"

text \<open>
  The loop of \<open>_read_capped\<close> over the chunks a pipe delivers; an empty chunk, or the end of the
  list, is the end of the file.  The trace holds every value that the buffer and the byte count
  take: before each read, after the chunk is appended and before the buffer is cut.  The loop
  ends with the last of them.
\<close>

fun read_trace ::
  "int \<Rightarrow> byte list \<Rightarrow> nat \<Rightarrow> byte list list \<Rightarrow> (byte list \<times> nat) list" where
  "read_trace limit buf count [] = [(buf, count)]"
| "read_trace limit buf count (chunk # chunks) =
     (buf, count) #
     (if chunk = [] then []
      else
        let count' = count + length chunk;
            buf' = buf @ chunk;
            buf'' = (if int (length buf') > limit
                     then drop (nat (int (length buf') - limit)) buf' else buf')
        in (buf', count') # read_trace limit buf'' count' chunks)"

definition read_loop :: "int \<Rightarrow> byte list \<Rightarrow> nat \<Rightarrow> byte list list \<Rightarrow> byte list \<times> nat" where
  "read_loop limit buf count chunks = last (read_trace limit buf count chunks)"

definition read_capped :: "byte list list option \<Rightarrow> int \<Rightarrow> byte list \<times> bool" where
  "read_capped stream limit =
     (case stream of
        None \<Rightarrow> ([], False)
      | Some chunks \<Rightarrow>
          (case read_loop limit [] 0 chunks of (buf, count) \<Rightarrow> (buf, int count > limit)))"

text \<open>What the reading task comes to: its chunks, or an exception of the task or of the wait.\<close>

datatype drain_env =
    Drained "byte list list"
  | Drain_raises exn

definition safe :: "int \<Rightarrow> drain_env \<Rightarrow> (byte list \<times> bool) result" where
  "safe cap d =
     (case d of
        Drained chunks \<Rightarrow> Inr (read_capped (Some chunks) cap)
      | Drain_raises e \<Rightarrow> if is_Exception e then Inr ([], False) else Inl e)"

section \<open>Names, preflight, command line\<close>

definition container_name :: "interp \<Rightarrow> pystr \<Rightarrow> int \<Rightarrow> pystr result" where
  "container_name I run_id attempt =
     rmap (\<lambda>b. lit ''sbx-'' @ take 16 (sha1_hex I b) @ lit ''-'' @ str_int attempt)
       (utf8_encode run_id)"

definition preflight :: "interp \<Rightarrow> pystr \<Rightarrow> cmd_env \<Rightarrow> (event, unit) eff" where
  "preflight I runtime c =
     (if runtime = lit ''runc'' then ret ()
      else
        ebind (control [lit ''docker'', lit ''info'', lit ''--format'', lit ''{{json .Runtimes}}''] c)
          (\<lambda>(rc, out, _).
             if rc \<noteq> 0 \<or> \<not> py_in ([34] @ runtime @ [34]) (utf8_decode out) then
               throw (SandboxPolicyViolation
                 (lit ''sandbox runtime '' @ py_repr I runtime @
                  lit '' is not registered with Docker; refusing '' @
                  lit ''to fall back to runc (fail-closed). Run `make setup-gvisor`.''))
             else ret ()))"

definition docker_run_cmd ::
  "interp \<Rightarrow> Settings \<Rightarrow> pystr \<Rightarrow> pystr \<Rightarrow> pystr \<Rightarrow> pystr \<Rightarrow> ResourceLimits \<Rightarrow> pystr list" where
  "docker_run_cmd I s runtime name code_file input_file limits =
     [lit ''docker'', lit ''run'', lit ''--rm'',
      lit ''--name'', name,
      lit ''--runtime'', runtime,
      lit ''--network'', lit ''none'',
      lit ''--read-only'',
      lit ''--user'', lit ''65534:65534'',
      lit ''--cap-drop'', lit ''ALL'',
      lit ''--security-opt'', lit ''no-new-privileges'',
      lit ''--cpus'', float_str I (cpus limits),
      lit ''--memory'', str_int (memory_mb limits) @ lit ''m'',
      lit ''--memory-swap'', str_int (memory_mb limits) @ lit ''m'',
      lit ''--pids-limit'', str_int (pids limits),
      lit ''--ulimit'', lit ''nofile='' @ str_int (nofile limits) @ lit '':'' @ str_int (nofile limits),
      lit ''--tmpfs'',
        lit ''/work:rw,noexec,nosuid,size='' @ str_int (tmpfs_mb limits) @ lit ''m,nr_inodes=4096'',
      lit ''--workdir'', lit ''/work'',
      lit ''-v'', code_file @ lit '':/sandbox/code.py:ro'',
      lit ''-v'', input_file @ lit '':/sandbox/input.json:ro''] @
     (if sandbox_seccomp_path s \<noteq> [] then
        [lit ''--security-opt'', lit ''seccomp='' @ sandbox_seccomp_path s] else []) @
     [sandbox_image s]"

definition image_digest_of :: "Settings \<Rightarrow> cmd_env \<Rightarrow> (event, pystr option) eff" where
  "image_digest_of s c =
     ebind (control [lit ''docker'', lit ''image'', lit ''inspect'', lit ''--format'', lit ''{{.Id}}'',
                     sandbox_image s] c)
       (\<lambda>(rc, out, _).
          let digest = strip (utf8_decode out) in
          ret (if rc = 0 \<and> digest \<noteq> [] then Some digest else None))"

definition kill :: "interp \<Rightarrow> cmd_env \<Rightarrow> pystr \<Rightarrow> int \<Rightarrow> (event, unit) eff" where
  "kill I c run_id attempt =
     ebind (lift_res (container_name I run_id attempt))
       (\<lambda>name. ebind (control [lit ''docker'', lit ''rm'', lit ''-f'', name] c) (\<lambda>_. ret ()))"

section \<open>Launch failures\<close>

definition LAUNCH_RCS :: "int list" where
  "LAUNCH_RCS = [125, 126, 127]"

definition LAUNCH_SIGNATURES :: "pystr list" where
  "LAUNCH_SIGNATURES =
     [lit ''docker:'', lit ''error response from daemon'', lit ''oci runtime'',
      lit ''executable file not found'', lit ''unknown runtime'', lit ''no such image'',
      lit ''manifest unknown'']"

definition classify_infra :: "interp \<Rightarrow> pystr \<Rightarrow> int \<Rightarrow> pystr \<Rightarrow> unit result" where
  "classify_infra I runtime rc err_text =
     (if rc \<notin> set LAUNCH_RCS then Inr ()
      else
        let lowered = lower (case_tab I) err_text in
        if \<not> list_ex (\<lambda>sig. py_in sig lowered) LAUNCH_SIGNATURES then Inr ()
        else if py_in (lit ''unknown runtime'') lowered \<or> py_in runtime lowered then
          Inl (SandboxPolicyViolation (lit ''runtime unavailable: '' @ strip err_text))
        else
          Inl (SandboxInfraError
            (lit ''sandbox failed to start (docker rc='' @ str_int rc @ lit ''): '' @ strip err_text)))"

section \<open>The polling loop\<close>

text \<open>
  One round of the loop: the clock at its start and what the wait for the container brings: its
  exit, with its code and the clock after the loop, a timeout, with the clock that the heartbeat
  reads, or an exception, which is the cancellation.
\<close>

datatype wait_env =
    Exited int pyfloat
  | Wait_timeout pyfloat
  | Wait_raises exn

record poll =
  po_now :: pyfloat
  po_wait :: wait_env

datatype loop_end =
    Loop_exited int pyfloat
  | Loop_deadline pyfloat

text \<open>The double nearest to \<open>0.1\<close>.\<close>

definition float_0_1 :: pyfloat where
  "float_0_1 = 7205759403792794 * 2 ^ 1018"

definition remaining :: "int \<Rightarrow> pyfloat \<Rightarrow> pyfloat" where
  "remaining wall elapsed = fsub (float_of_int wall) elapsed"

definition wait_for :: "int \<Rightarrow> pyfloat \<Rightarrow> pyfloat" where
  "wait_for hb rem = min (float_of_int hb) (max rem float_0_1)"

definition elapsed_ms :: "pyfloat \<Rightarrow> pyfloat \<Rightarrow> int" where
  "elapsed_ms start now = int_of_float (fmul_int (fsub now start) 1000)"

fun poll_loop :: "int \<Rightarrow> int \<Rightarrow> pyfloat \<Rightarrow> bool \<Rightarrow> poll list \<Rightarrow> (event, loop_end) eff" where
  "poll_loop hb wall start heartbeat [] = ([], Pending)"
| "poll_loop hb wall start heartbeat (p # ps) =
     (let elapsed = fsub (po_now p) start; rem = remaining wall elapsed in
      if rem \<le> 0 then ret (Loop_deadline elapsed)
      else
        eseq (emit (Wait_exit (wait_for hb rem)))
          (case po_wait p of
             Exited rc now \<Rightarrow> ret (Loop_exited rc now)
           | Wait_timeout now \<Rightarrow>
               eseq (if heartbeat then emit (Heartbeat (elapsed_ms start now)) else ret ())
                 (poll_loop hb wall start heartbeat ps)
           | Wait_raises e \<Rightarrow> throw e))"

section \<open>A run\<close>

text \<open>
  The environment of one run: the answers of the control commands, the staging directory or the
  exception of creating it, the answers of the file operations, the start of the container, the
  clock when the loop starts, the rounds of the loop, the two outputs, and the answers of the
  kill commands: at the deadline, in the runner's own handler, and when the client kills.
\<close>

record run_env =
  re_preflight :: cmd_env
  re_digest :: cmd_env
  re_tmp :: "pystr result"
  re_stage :: "event \<Rightarrow> unit result"
  re_launch :: "unit result"
  re_start :: pyfloat
  re_polls :: "poll list"
  re_stdout :: drain_env
  re_stderr :: drain_env
  re_kill :: cmd_env
  re_kill_cancel :: cmd_env
  re_kill_outer :: cmd_env

definition stage :: "run_env \<Rightarrow> event \<Rightarrow> (event, unit) eff" where
  "stage env ev = eseq (emit ev) (lift_res (re_stage env ev))"

text \<open>The code and an empty input are written below the staging directory and made readable.\<close>

definition stage_files :: "run_env \<Rightarrow> pystr \<Rightarrow> pystr \<Rightarrow> (event, unit) eff" where
  "stage_files env tmp code =
     ebind (lift_res (utf8_encode code)) (\<lambda>bytes.
       eseq (stage env (Stage (tmp @ lit ''/code.py'') bytes))
        (eseq (stage env (Stage (tmp @ lit ''/input.json'') (ascii_bytes ''{}'')))
          (eseq (stage env (Chmod tmp 493))
            (eseq (stage env (Chmod (tmp @ lit ''/code.py'') 420))
              (stage env (Chmod (tmp @ lit ''/input.json'') 420))))))"

definition decode :: "byte list \<Rightarrow> pystr" where
  "decode bs = utf8_decode bs"

text \<open>The branch of the loop at the deadline: kill, collect what there is, report.\<close>

definition deadline_result ::
  "interp \<Rightarrow> pystr \<Rightarrow> run_env \<Rightarrow> RunSandboxArgs \<Rightarrow> int \<Rightarrow> pystr option \<Rightarrow> pyfloat \<Rightarrow>
     (event, SandboxResult) eff" where
  "deadline_result I runtime env args attempt digest elapsed =
     (let cap = output_max_bytes (rs_limits args) in
      eseq (kill I (re_kill env) (rs_run_id args) attempt)
        (ebind (lift_res (safe cap (re_stdout env))) (\<lambda>(out, so_t).
           ebind (lift_res (safe cap (re_stderr env))) (\<lambda>(err, se_t).
             ret \<lparr>sb_runtime = runtime, exit_code = 124,
                  stdout_tail = decode out, stderr_tail = decode err,
                  wall_ms = int_of_float (fmul_int elapsed 1000),
                  oom_killed = False, wall_clock_exceeded = True,
                  image_digest = digest, truncated = so_t \<or> se_t\<rparr>))))"

text \<open>After the container has ended by itself.\<close>

definition exit_result ::
  "interp \<Rightarrow> pystr \<Rightarrow> run_env \<Rightarrow> RunSandboxArgs \<Rightarrow> pystr option \<Rightarrow> int \<Rightarrow> pyfloat \<Rightarrow>
     (event, SandboxResult) eff" where
  "exit_result I runtime env args digest rc now =
     (let cap = output_max_bytes (rs_limits args) in
      ebind (lift_res (safe cap (re_stdout env))) (\<lambda>(out, so_t).
        ebind (lift_res (safe cap (re_stderr env))) (\<lambda>(err, se_t).
          eseq (lift_res (classify_infra I runtime rc (decode err)))
            (ret \<lparr>sb_runtime = runtime, exit_code = rc,
                  stdout_tail = decode out, stderr_tail = decode err,
                  wall_ms = elapsed_ms (re_start env) now,
                  oom_killed = (rc = 137), wall_clock_exceeded = False,
                  image_digest = digest, truncated = so_t \<or> se_t\<rparr>))))"

text \<open>The \<^verbatim>\<open>try\<close> block around the loop, with its handler for the cancellation.\<close>

definition watch ::
  "interp \<Rightarrow> Settings \<Rightarrow> pystr \<Rightarrow> run_env \<Rightarrow> RunSandboxArgs \<Rightarrow> int \<Rightarrow> bool \<Rightarrow> pystr option \<Rightarrow>
     (event, SandboxResult + int \<times> pyfloat) eff" where
  "watch I s runtime env args attempt heartbeat digest =
     catch
       (ebind
         (poll_loop (sandbox_heartbeat_s s) (wall_clock_s (rs_limits args)) (re_start env) heartbeat
            (re_polls env))
         (\<lambda>e. case e of
              Loop_deadline elapsed \<Rightarrow>
                ebind (deadline_result I runtime env args attempt digest elapsed) (\<lambda>r. ret (Inl r))
            | Loop_exited rc now \<Rightarrow> ret (Inr (rc, now))))
       (\<lambda>e. if e = CancelledError then
              eseq (kill I (re_kill_cancel env) (rs_run_id args) attempt) (throw e)
            else throw e)"

definition in_staging ::
  "interp \<Rightarrow> Settings \<Rightarrow> pystr \<Rightarrow> run_env \<Rightarrow> RunSandboxArgs \<Rightarrow> int \<Rightarrow> bool \<Rightarrow> pystr \<Rightarrow>
     pystr option \<Rightarrow> pystr \<Rightarrow> (event, SandboxResult) eff" where
  "in_staging I s runtime env args attempt heartbeat name digest tmp =
     eseq (stage_files env tmp (rs_code args))
      (eseq (emit (Launch (docker_run_cmd I s runtime name (tmp @ lit ''/code.py'')
                             (tmp @ lit ''/input.json'') (rs_limits args))))
        (eseq (lift_res (re_launch env))
          (ebind (watch I s runtime env args attempt heartbeat digest)
            (\<lambda>x. case x of
                 Inl r \<Rightarrow> ret r
               | Inr (rc, now) \<Rightarrow> exit_result I runtime env args digest rc now))))"

definition gvisor_run ::
  "interp \<Rightarrow> Settings \<Rightarrow> pystr \<Rightarrow> run_env \<Rightarrow> RunSandboxArgs \<Rightarrow> int \<Rightarrow> bool \<Rightarrow>
     (event, SandboxResult) eff" where
  "gvisor_run I s runtime env args attempt heartbeat =
     ebind (lift_res (container_name I (rs_run_id args) attempt)) (\<lambda>name.
       ebind (image_digest_of s (re_digest env)) (\<lambda>digest.
         ebind
           (eseq (emit (Make_tmp (lit ''sbx-'')
                    (if sandbox_share_dir s = [] then None else Some (sandbox_share_dir s))))
             (lift_res (re_tmp env)))
           (\<lambda>tmp. ensure (in_staging I s runtime env args attempt heartbeat name digest tmp)
                    [Remove_tmp tmp])))"

section \<open>The bounded buffer\<close>

lemma cut_is_last_n:
  "(if int (length b) > limit then drop (nat (int (length b) - limit)) b else b)
     = last_n (nat limit) b"
proof (cases "0 \<le> limit")
  case True
  then have "nat (int (length b) - limit) = length b - nat limit" by arith
  with True show ?thesis by (simp add: last_n_def)
next
  case False
  then show ?thesis by (simp add: last_n_def)
qed

lemma read_trace_Nil [simp]: "read_trace limit buf count chunks \<noteq> []"
  by (cases chunks) simp_all

lemma read_loop_simps [simp]:
  "read_loop limit buf count [] = (buf, count)"
  "read_loop limit buf count (c # chunks) =
     (if c = [] then (buf, count)
      else read_loop limit (last_n (nat limit) (buf @ c)) (count + length c) chunks)"
  by (simp_all only: read_loop_def read_trace.simps Let_def cut_is_last_n last.simps
      if_distrib [of last] if_distrib [of "\<lambda>l. l = []"] read_trace_Nil list.distinct
      if_False if_True simp_thms if_cancel split: if_split) (auto simp: Let_def)

lemma read_loop_tail:
  "read_loop limit (last_n (nat limit) pre) (length pre) chunks =
     (let d = pre @ concat (takeWhile (\<lambda>c. c \<noteq> []) chunks) in (last_n (nat limit) d, length d))"
proof (induction chunks arbitrary: pre)
  case (Cons c cs)
  with Cons.IH [of "pre @ c"] show ?case by (simp add: Let_def last_n_append_last_n)
qed simp

lemma read_capped_tail:
  "read_capped (Some chunks) limit =
     (let d = concat (takeWhile (\<lambda>c. c \<noteq> []) chunks) in
      (last_n (nat limit) d, int (length d) > limit))"
  using read_loop_tail [of limit "[]" chunks] by (simp add: read_capped_def Let_def)

lemma safe_bound:
  "safe cap d = Inr (bs, t) \<Longrightarrow> length bs \<le> nat cap"
  by (auto simp: safe_def read_capped_tail Let_def split: drain_env.splits if_splits)

lemma length_decode: "length (decode bs) \<le> length bs"
  by (simp add: decode_def length_utf8_decode)

section \<open>The calls of a run\<close>

lemma launches_control [simp]: "launches (fst (control cmd c)) = []"
  by (cases "run_cmd c") (simp_all add: control_def)

lemma launches_image_digest [simp]: "launches (fst (image_digest_of s c)) = []"
  by (auto simp: image_digest_of_def eff_unfold Let_def split: outcome.splits)

lemma launches_kill [simp]: "launches (fst (kill I c run_id attempt)) = []"
  by (auto simp: kill_def eff_unfold split: outcome.splits)

lemma launches_stage_files [simp]: "launches (fst (stage_files env tmp code)) = []"
  by (auto simp: stage_files_def stage_def eff_unfold split: outcome.splits)

lemma launches_poll_loop [simp]: "launches (fst (poll_loop hb wall start heartbeat ps)) = []"
  by (induction ps) (auto simp: Let_def eff_unfold split: wait_env.splits)

lemma launches_deadline [simp]:
  "launches (fst (deadline_result I runtime env args attempt digest elapsed)) = []"
  by (auto simp: deadline_result_def Let_def eff_unfold split: outcome.splits)

lemma launches_exit [simp]: "launches (fst (exit_result I runtime env args digest rc now)) = []"
  by (auto simp: exit_result_def Let_def eff_unfold split: outcome.splits)

lemma launches_watch [simp]:
  "launches (fst (watch I s runtime env args attempt heartbeat digest)) = []"
  by (auto simp: watch_def eff_unfold split: outcome.splits loop_end.splits)

lemma launches_in_staging:
  "launches (fst (in_staging I s runtime env args attempt heartbeat name digest tmp)) =
     (if snd (stage_files env tmp (rs_code args)) = Return () then
        [docker_run_cmd I s runtime name (tmp @ lit ''/code.py'') (tmp @ lit ''/input.json'')
           (rs_limits args)]
      else [])"
  by (auto simp: in_staging_def eff_unfold split: outcome.splits sum.splits)

text \<open>Every launch of a run is its own command line, and there is at most one.\<close>

lemma launches_run:
  assumes "launches (fst (gvisor_run I s runtime env args attempt heartbeat)) \<noteq> []"
  obtains name tmp where
    "container_name I (rs_run_id args) attempt = Inr name" and "re_tmp env = Inr tmp"
    "launches (fst (gvisor_run I s runtime env args attempt heartbeat)) =
       [docker_run_cmd I s runtime name (tmp @ lit ''/code.py'') (tmp @ lit ''/input.json'')
          (rs_limits args)]"
  using assms
  by (auto simp: gvisor_run_def eff_unfold snd_lift_res launches_in_staging
      split: outcome.splits sum.splits if_splits)

end
