(* ===== verification/Containment.thy ===== *)
theory Containment
  imports Gvisor
begin

text \<open>
  What the command line of a sandbox promises.  \<open>parse_flags\<close> reads the arguments of
  \<^verbatim>\<open>docker run\<close> as the options before the image and the words from the image on;
  \<open>contained_argv\<close> is the isolation policy that the documentation of the service states, read
  off the options: no network, a read-only root, an unprivileged user, no capabilities, no new
  privileges, limits for memory (without swap), processors and processes, mounts that are
  read-only, and no option that would add a capability, a device, a port or an environment
  variable.  It is independent of how the command line is built.
\<close>

definition BOOL_FLAGS :: "pystr list" where
  "BOOL_FLAGS = [lit ''--rm'', lit ''--read-only'']"

definition ALLOWED_FLAGS :: "pystr list" where
  "ALLOWED_FLAGS = BOOL_FLAGS @
     [lit ''--name'', lit ''--runtime'', lit ''--network'', lit ''--user'', lit ''--cap-drop'',
      lit ''--security-opt'', lit ''--cpus'', lit ''--memory'', lit ''--memory-swap'',
      lit ''--pids-limit'', lit ''--ulimit'', lit ''--tmpfs'', lit ''--workdir'', lit ''-v'']"

definition is_flag :: "pystr \<Rightarrow> bool" where
  "is_flag a \<longleftrightarrow> prefix [45] a"

fun parse_flags :: "pystr list \<Rightarrow> (pystr \<times> pystr option) list \<times> pystr list" where
  "parse_flags [] = ([], [])"
| "parse_flags (a # as) =
     (if \<not> is_flag a then ([], a # as)
      else if a \<in> set BOOL_FLAGS then
        (case parse_flags as of (fl, r) \<Rightarrow> ((a, None) # fl, r))
      else
        (case as of
           [] \<Rightarrow> ([(a, None)], [])
         | v # as' \<Rightarrow> (case parse_flags as' of (fl, r) \<Rightarrow> ((a, Some v) # fl, r))))"

definition flag_values :: "string \<Rightarrow> (pystr \<times> pystr option) list \<Rightarrow> pystr list" where
  "flag_values f fl = concat (map (\<lambda>(k, v). if k = lit f then (case v of None \<Rightarrow> [] | Some x \<Rightarrow> [x]) else []) fl)"

definition contained_argv :: "pystr list \<Rightarrow> bool" where
  "contained_argv argv \<longleftrightarrow>
     (case parse_flags (drop 2 argv) of (fl, words) \<Rightarrow>
        take 2 argv = [lit ''docker'', lit ''run'']
        \<and> flag_values ''--network'' fl = [lit ''none'']
        \<and> (lit ''--read-only'', None) \<in> set fl
        \<and> flag_values ''--user'' fl = [lit ''65534:65534'']
        \<and> flag_values ''--cap-drop'' fl = [lit ''ALL'']
        \<and> lit ''no-new-privileges'' \<in> set (flag_values ''--security-opt'' fl)
        \<and> length (flag_values ''--memory'' fl) = 1
        \<and> flag_values ''--memory-swap'' fl = flag_values ''--memory'' fl
        \<and> length (flag_values ''--cpus'' fl) = 1
        \<and> length (flag_values ''--pids-limit'' fl) = 1
        \<and> list_all (suffix (lit '':ro'')) (flag_values ''-v'' fl)
        \<and> set (map fst fl) \<subseteq> set ALLOWED_FLAGS
        \<and> length words = 1)"

text \<open>The options that the runner passes, as read back from its command line.\<close>

definition sandbox_flags ::
  "interp \<Rightarrow> Settings \<Rightarrow> pystr \<Rightarrow> pystr \<Rightarrow> pystr \<Rightarrow> pystr \<Rightarrow> ResourceLimits \<Rightarrow>
     (pystr \<times> pystr option) list" where
  "sandbox_flags I s runtime name code_file input_file limits =
     [(lit ''--rm'', None),
      (lit ''--name'', Some name),
      (lit ''--runtime'', Some runtime),
      (lit ''--network'', Some (lit ''none'')),
      (lit ''--read-only'', None),
      (lit ''--user'', Some (lit ''65534:65534'')),
      (lit ''--cap-drop'', Some (lit ''ALL'')),
      (lit ''--security-opt'', Some (lit ''no-new-privileges'')),
      (lit ''--cpus'', Some (float_str I (cpus limits))),
      (lit ''--memory'', Some (str_int (memory_mb limits) @ lit ''m'')),
      (lit ''--memory-swap'', Some (str_int (memory_mb limits) @ lit ''m'')),
      (lit ''--pids-limit'', Some (str_int (pids limits))),
      (lit ''--ulimit'',
        Some (lit ''nofile='' @ str_int (nofile limits) @ lit '':'' @ str_int (nofile limits))),
      (lit ''--tmpfs'',
        Some (lit ''/work:rw,noexec,nosuid,size='' @ str_int (tmpfs_mb limits) @ lit ''m,nr_inodes=4096'')),
      (lit ''--workdir'', Some (lit ''/work'')),
      (lit ''-v'', Some (code_file @ lit '':/sandbox/code.py:ro'')),
      (lit ''-v'', Some (input_file @ lit '':/sandbox/input.json:ro''))] @
     (if sandbox_seccomp_path s \<noteq> [] then
        [(lit ''--security-opt'', Some (lit ''seccomp='' @ sandbox_seccomp_path s))] else [])"

lemma parse_docker_run_cmd:
  assumes "\<not> is_flag (sandbox_image s)"
  shows "parse_flags (drop 2 (docker_run_cmd I s runtime name code_file input_file limits)) =
    (sandbox_flags I s runtime name code_file input_file limits, [sandbox_image s])"
  using assms
  by (simp add: docker_run_cmd_def sandbox_flags_def is_flag_def BOOL_FLAGS_def lit_Cons)

lemma suffix_ro:
  "suffix (lit '':ro'') (f @ lit '':/sandbox/code.py:ro'')"
  "suffix (lit '':ro'') (f @ lit '':/sandbox/input.json:ro'')"
  by (simp_all add: suffix_def lit_Cons)

lemma docker_run_cmd_contained:
  assumes "\<not> is_flag (sandbox_image s)"
  shows "contained_argv (docker_run_cmd I s runtime name code_file input_file limits)"
proof -
  let ?fl = "sandbox_flags I s runtime name code_file input_file limits"
  have "take 2 (docker_run_cmd I s runtime name code_file input_file limits)
      = [lit ''docker'', lit ''run'']"
    by (simp add: docker_run_cmd_def)
  moreover have "set (map fst ?fl) \<subseteq> set ALLOWED_FLAGS"
    by (auto simp: sandbox_flags_def ALLOWED_FLAGS_def BOOL_FLAGS_def)
  moreover have "(lit ''--read-only'', None) \<in> set ?fl" by (simp add: sandbox_flags_def)
  ultimately show ?thesis
    by (simp add: contained_argv_def parse_docker_run_cmd [OF assms])
      (simp add: sandbox_flags_def flag_values_def suffix_ro)
qed

end
