(* ===== verification/Sandbox.thy ===== *)
theory Sandbox
  imports Containment
begin

text \<open>
  The gVisor and Firecracker runners as implementations of the contract \<open>sandbox_runner\<close>,
  the dispatch between them, and the properties of a gVisor run: its verdict, its bounded
  output, its deadline, its teardown and its classification of launch failures.
\<close>

section \<open>How a run ends\<close>

lemma remaining_le_0_iff: "remaining wall elapsed \<le> 0 \<longleftrightarrow> float_of_int wall \<le> elapsed"
  by (simp add: remaining_def fsub_def round_double_le_0_iff)

lemma poll_loop_exited:
  "snd (poll_loop hb wall start heartbeat ps) = Return (Loop_exited rc now) \<Longrightarrow>
     \<exists>p \<in> set ps. po_wait p = Exited rc now \<and> fsub (po_now p) start < float_of_int wall
       \<and> Wait_exit (wait_for hb (remaining wall (fsub (po_now p) start)))
           \<in> set (fst (poll_loop hb wall start heartbeat ps))"
proof (induction ps)
  case (Cons p ps)
  show ?case
  proof (cases "\<exists>now'. po_wait p = Wait_timeout now'")
    case True
    with Cons.prems have "snd (poll_loop hb wall start heartbeat ps) = Return (Loop_exited rc now)"
      and "\<not> remaining wall (fsub (po_now p) start) \<le> 0"
      by (auto simp: Let_def eff_unfold split: if_splits)
    with Cons.IH True show ?thesis by (auto simp: Let_def eff_unfold)
  next
    case False
    with Cons.prems show ?thesis
      by (auto simp: Let_def eff_unfold remaining_le_0_iff split: wait_env.splits if_splits)
  qed
qed simp

lemma poll_loop_deadline:
  "snd (poll_loop hb wall start heartbeat ps) = Return (Loop_deadline el) \<Longrightarrow>
     \<exists>p \<in> set ps. el = fsub (po_now p) start \<and> float_of_int wall \<le> el"
  by (induction ps)
    (auto simp: Let_def eff_unfold remaining_le_0_iff split: wait_env.splits if_splits)

lemma poll_loop_raise:
  "snd (poll_loop hb wall start heartbeat ps) = Raise e \<Longrightarrow> \<exists>p \<in> set ps. po_wait p = Wait_raises e"
  by (induction ps)
    (auto simp: Let_def eff_unfold split: wait_env.splits if_splits)

abbreviation kill_cmd :: "pystr \<Rightarrow> event" where
  "kill_cmd name \<equiv> Control [lit ''docker'', lit ''rm'', lit ''-f'', name]"

lemma fst_kill:
  "fst (kill I c run_id attempt) =
     (case container_name I run_id attempt of Inl e \<Rightarrow> [] | Inr name \<Rightarrow> [kill_cmd name])"
  by (cases "run_cmd c") (auto simp: kill_def control_def eff_unfold snd_lift_res split: sum.splits)

lemma safe_decode_bound: "safe cap d = Inr (bs, t) \<Longrightarrow> length (decode bs) \<le> nat cap"
  using safe_bound length_decode order.trans by blast

lemma deadline_result_Return:
  assumes "snd (deadline_result I runtime env args attempt digest elapsed) = Return r"
  shows "sb_runtime r = runtime \<and> exit_code r = 124 \<and> wall_clock_exceeded r \<and> \<not> oom_killed r
    \<and> length (stdout_tail r) \<le> nat (output_max_bytes (rs_limits args))
    \<and> length (stderr_tail r) \<le> nat (output_max_bytes (rs_limits args))"
  using assms
  by (auto simp: deadline_result_def Let_def eff_unfold snd_lift_res split: outcome.splits sum.splits
      dest!: safe_decode_bound)

lemma exit_result_Return:
  assumes "snd (exit_result I runtime env args digest rc now) = Return r"
  shows "sb_runtime r = runtime \<and> exit_code r = rc \<and> \<not> wall_clock_exceeded r
    \<and> oom_killed r = (rc = 137) \<and> classify_infra I runtime rc (stderr_tail r) = Inr ()
    \<and> length (stdout_tail r) \<le> nat (output_max_bytes (rs_limits args))
    \<and> length (stderr_tail r) \<le> nat (output_max_bytes (rs_limits args))"
  using assms
  by (auto simp: exit_result_def Let_def eff_unfold snd_lift_res split: outcome.splits sum.splits
      dest!: safe_decode_bound)

lemma deadline_kills:
  assumes "container_name I (rs_run_id args) attempt = Inr name"
  shows "kill_cmd name \<in> set (fst (deadline_result I runtime env args attempt digest elapsed))"
  by (simp add: deadline_result_def Let_def eff_unfold fst_kill assms)

text \<open>A returned result comes from one of the two branches of the loop.\<close>

lemma watch_Return_Inl:
  assumes "snd (watch I s runtime env args attempt heartbeat digest) = Return (Inl r)"
  obtains el where
    "snd (deadline_result I runtime env args attempt digest el) = Return r"
    "\<exists>p \<in> set (re_polls env). el = fsub (po_now p) (re_start env)"
    "float_of_int (wall_clock_s (rs_limits args)) \<le> el"
    "set (fst (deadline_result I runtime env args attempt digest el))
       \<subseteq> set (fst (watch I s runtime env args attempt heartbeat digest))"
  using assms
  by (auto simp: watch_def eff_unfold split: outcome.splits loop_end.splits if_splits
      dest!: poll_loop_deadline)

lemma watch_Return_Inr:
  assumes "snd (watch I s runtime env args attempt heartbeat digest) = Return (Inr (rc, now))"
  shows "\<exists>p \<in> set (re_polls env). po_wait p = Exited rc now
    \<and> fsub (po_now p) (re_start env) < float_of_int (wall_clock_s (rs_limits args))
    \<and> Wait_exit (wait_for (sandbox_heartbeat_s s)
          (remaining (wall_clock_s (rs_limits args)) (fsub (po_now p) (re_start env))))
        \<in> set (fst (watch I s runtime env args attempt heartbeat digest))"
  using assms
  by (auto simp: watch_def eff_unfold split: outcome.splits loop_end.splits if_splits
      dest!: poll_loop_exited)

lemma in_staging_Return:
  assumes "snd (in_staging I s runtime env args attempt heartbeat name digest tmp) = Return r"
  shows "(snd (watch I s runtime env args attempt heartbeat digest) = Return (Inl r)
      \<or> (\<exists>rc now. snd (watch I s runtime env args attempt heartbeat digest) = Return (Inr (rc, now))
            \<and> snd (exit_result I runtime env args digest rc now) = Return r))
    \<and> set (fst (watch I s runtime env args attempt heartbeat digest))
        \<subseteq> set (fst (in_staging I s runtime env args attempt heartbeat name digest tmp))"
  using assms
  by (auto simp: in_staging_def eff_unfold split: outcome.splits sum.splits)

lemma gvisor_run_Return:
  assumes "snd (gvisor_run I s runtime env args attempt heartbeat) = Return r"
  obtains name digest tmp where
    "container_name I (rs_run_id args) attempt = Inr name"
    "re_tmp env = Inr tmp"
    "snd (in_staging I s runtime env args attempt heartbeat name digest tmp) = Return r"
    "set (fst (in_staging I s runtime env args attempt heartbeat name digest tmp))
       \<subseteq> set (fst (gvisor_run I s runtime env args attempt heartbeat))"
  using assms
  by (auto simp: gvisor_run_def eff_unfold snd_lift_res split: outcome.splits sum.splits)

section \<open>Sample environments\<close>

text \<open>A run whose control commands succeed and whose loop and outputs are given, for closed
  instances of the properties.\<close>

definition sample_env :: "poll list \<Rightarrow> byte list list \<Rightarrow> byte list list \<Rightarrow> run_env" where
  "sample_env polls out err =
     \<lparr>re_preflight = Comm_done (Some 0) (ascii_bytes ''{\"runsc\":1}'') [],
      re_digest = Comm_done (Some 0) (ascii_bytes ''sha256:1'') [],
      re_tmp = Inr (lit ''/tmp/sbx-1''), re_stage = (\<lambda>_. Inr ()), re_launch = Inr (),
      re_start = 0, re_polls = polls, re_stdout = Drained out, re_stderr = Drained err,
      re_kill = Comm_done (Some 0) [] [], re_kill_cancel = Comm_done (Some 0) [] [],
      re_kill_outer = Comm_done (Some 0) [] []\<rparr>"

lemma sample_env_simps [simp]:
  "re_preflight (sample_env polls out err) = Comm_done (Some 0) (ascii_bytes ''{\"runsc\":1}'') []"
  "re_digest (sample_env polls out err) = Comm_done (Some 0) (ascii_bytes ''sha256:1'') []"
  "re_tmp (sample_env polls out err) = Inr (lit ''/tmp/sbx-1'')"
  "re_stage (sample_env polls out err) = (\<lambda>_. Inr ())"
  "re_launch (sample_env polls out err) = Inr ()"
  "re_start (sample_env polls out err) = 0"
  "re_polls (sample_env polls out err) = polls"
  "re_stdout (sample_env polls out err) = Drained out"
  "re_stderr (sample_env polls out err) = Drained err"
  "re_kill (sample_env polls out err) = Comm_done (Some 0) [] []"
  "re_kill_cancel (sample_env polls out err) = Comm_done (Some 0) [] []"
  "re_kill_outer (sample_env polls out err) = Comm_done (Some 0) [] []"
  by (simp_all add: sample_env_def)

definition sample_args :: "int \<Rightarrow> RunSandboxArgs" where
  "sample_args wall =
     \<lparr>rs_run_id = lit ''demo:1'', rs_tenant_id = lit ''demo'', rs_code = lit ''pass'',
      rs_limits = default_limits\<lparr>wall_clock_s := wall\<rparr>, rs_runtime = lit ''runsc''\<rparr>"

lemma sample_args_simps [simp]:
  "rs_run_id (sample_args wall) = lit ''demo:1''"
  "rs_code (sample_args wall) = lit ''pass''"
  "wall_clock_s (rs_limits (sample_args wall)) = wall"
  "output_max_bytes (rs_limits (sample_args wall)) = 1048576"
  by (simp_all add: sample_args_def default_limits_def)

abbreviation exit_poll :: "int \<Rightarrow> poll" where
  "exit_poll rc \<equiv> \<lparr>po_now = 0, po_wait = Exited rc 0\<rparr>"

lemma utf8_encode_lit: "is_ascii (lit t) \<Longrightarrow> utf8_encode (lit t) = Inr (ascii_bytes t)"
  by (simp add: utf8_encode_ascii ascii_bytes_def)

lemma utf8_decode_ascii_bytes: "is_ascii (lit t) \<Longrightarrow> utf8_decode (ascii_bytes t) = lit t"
  by (rule utf8_decode_encode) (rule utf8_encode_lit)

lemma round_double_pos: "0 < x \<Longrightarrow> \<not> round_double x \<le> 0"
  by (simp add: round_double_le_0_iff)

lemma remaining_30 [simp]: "\<not> remaining 30 (fsub 0 0) \<le> 0"
  by (simp add: remaining_def fsub_def float_of_int_def round_double_le_0_iff not_le)

lemma remaining_0 [simp]: "remaining 0 (fsub 0 0) \<le> 0"
  by (simp add: remaining_def fsub_def float_of_int_def)

lemma container_name_sample:
  "container_name I (lit ''demo:1'') 1 =
     Inr (lit ''sbx-'' @ take 16 (sha1_hex I (ascii_bytes ''demo:1'')) @ lit ''-'' @ str_int 1)"
  by (simp add: container_name_def utf8_encode_lit)

lemma sample_run_args:
  assumes "rs_run_id args = lit ''demo:1''" and "is_ascii (rs_code args)"
    and "wall_clock_s (rs_limits args) = 30"
  shows "snd (gvisor_run I s runtime (sample_env [exit_poll rc] out err) args 1 hb) =
     snd (exit_result I runtime (sample_env [exit_poll rc] out err) args (Some (lit ''sha256:1'')) rc 0)"
proof -
  let ?env = "sample_env [exit_poll rc] out err"
  have w: "snd (watch I s runtime ?env args 1 hb d) = Return (Inr (rc, 0))" for d
    using assms by (simp add: watch_def Let_def)
  have f: "snd (stage_files ?env tmp (rs_code args)) = Return ()" for tmp
    by (simp add: stage_files_def stage_def utf8_encode_ascii [OF assms(2)])
  have d: "snd (image_digest_of s (Comm_done (Some 0) (ascii_bytes ''sha256:1'') []))
      = Return (Some (lit ''sha256:1''))"
    by (simp add: image_digest_of_def control_def Let_def utf8_decode_ascii_bytes
        py_eval strip_def is_space_def)
  show ?thesis
    using w f d assms(1)
    by (simp add: gvisor_run_def in_staging_def snd_ebind snd_lift_res container_name_sample)
qed

lemma sample_run:
  "snd (gvisor_run I s runtime (sample_env [exit_poll rc] out err) (sample_args 30) 1 hb) =
     snd (exit_result I runtime (sample_env [exit_poll rc] out err) (sample_args 30)
            (Some (lit ''sha256:1'')) rc 0)"
  by (rule sample_run_args) simp_all

lemma sample_run_returns:
  assumes "rc \<notin> set LAUNCH_RCS"
  shows "\<exists>r. snd (gvisor_run I s runtime (sample_env [exit_poll rc] out err) (sample_args 30) 1 hb)
      = Return r \<and> exit_code r = rc \<and> \<not> wall_clock_exceeded r"
  using assms
  by (simp add: sample_run exit_result_def safe_def classify_infra_def Let_def split: prod.split)

lemma sample_run_0:
  "\<exists>r. snd (gvisor_run I s runtime (sample_env [exit_poll 0] out err) (sample_args 30) 1 hb)
      = Return r \<and> exit_code r = 0 \<and> \<not> wall_clock_exceeded r"
  by (rule sample_run_returns) (simp add: LAUNCH_RCS_def)

section \<open>Properties of a gVisor run\<close>

text \<open>
  C6. What the fields of a returned result mean.  If it says that the wall clock was exceeded, the
  container's own teardown command was issued, the loop had read a time at or past the limit, and
  the code is 124.  Otherwise the container ended by itself with exactly the reported exit code,
  in a round that began before the limit and whose wait was for no more than the time that
  remained, or a tenth of a second when less remained: only such a last wait can let a container
  end past the limit without the flag.  The memory flag is an inference from the exit code alone:
  it is set exactly for 137 outside the deadline, whatever killed the container.
\<close>

theorem run_verdict:
  assumes "snd (gvisor_run I s runtime env args attempt heartbeat) = Return r"
  shows "if wall_clock_exceeded r then
      exit_code r = 124 \<and> \<not> oom_killed r
      \<and> (\<exists>p \<in> set (re_polls env).
            float_of_int (wall_clock_s (rs_limits args)) \<le> fsub (po_now p) (re_start env))
      \<and> (\<exists>name. container_name I (rs_run_id args) attempt = Inr name
            \<and> kill_cmd name \<in> set (fst (gvisor_run I s runtime env args attempt heartbeat)))
    else
      oom_killed r = (exit_code r = 137)
      \<and> (\<exists>p \<in> set (re_polls env). (\<exists>now. po_wait p = Exited (exit_code r) now)
            \<and> fsub (po_now p) (re_start env) < float_of_int (wall_clock_s (rs_limits args))
            \<and> (\<exists>w. Wait_exit w \<in> set (fst (gvisor_run I s runtime env args attempt heartbeat))
                  \<and> w \<le> max (remaining (wall_clock_s (rs_limits args))
                               (fsub (po_now p) (re_start env))) float_0_1))"
  using assms
proof (rule gvisor_run_Return)
  fix name digest tmp
  assume n: "container_name I (rs_run_id args) attempt = Inr name"
    and st: "snd (in_staging I s runtime env args attempt heartbeat name digest tmp) = Return r"
    and sub: "set (fst (in_staging I s runtime env args attempt heartbeat name digest tmp))
       \<subseteq> set (fst (gvisor_run I s runtime env args attempt heartbeat))"
  from in_staging_Return [OF st] consider
      (deadline) "snd (watch I s runtime env args attempt heartbeat digest) = Return (Inl r)"
    | (exited) rc now where
        "snd (watch I s runtime env args attempt heartbeat digest) = Return (Inr (rc, now))"
        "snd (exit_result I runtime env args digest rc now) = Return r"
    by blast
  then show ?thesis
  proof cases
    case deadline
    then show ?thesis
    proof (rule watch_Return_Inl)
      fix el
      assume "snd (deadline_result I runtime env args attempt digest el) = Return r"
        and "\<exists>p \<in> set (re_polls env). el = fsub (po_now p) (re_start env)"
        and "float_of_int (wall_clock_s (rs_limits args)) \<le> el"
        and "set (fst (deadline_result I runtime env args attempt digest el))
              \<subseteq> set (fst (watch I s runtime env args attempt heartbeat digest))"
      with in_staging_Return [OF st] sub deadline_kills [OF n] deadline_result_Return n
      show ?thesis by fastforce
    qed
  next
    case exited
    obtain p where p: "p \<in> set (re_polls env)" "po_wait p = Exited rc now"
        "fsub (po_now p) (re_start env) < float_of_int (wall_clock_s (rs_limits args))"
      and w: "Wait_exit (wait_for (sandbox_heartbeat_s s)
          (remaining (wall_clock_s (rs_limits args)) (fsub (po_now p) (re_start env))))
        \<in> set (fst (gvisor_run I s runtime env args attempt heartbeat))"
      using watch_Return_Inr [OF exited(1)] in_staging_Return [OF st] sub by blast
    have "wait_for (sandbox_heartbeat_s s)
          (remaining (wall_clock_s (rs_limits args)) (fsub (po_now p) (re_start env)))
        \<le> max (remaining (wall_clock_s (rs_limits args)) (fsub (po_now p) (re_start env))) float_0_1"
      by (simp add: wait_for_def)
    with p w exit_result_Return [OF exited(2)] show ?thesis by auto
  qed
qed

theorem run_verdict_witness:
  "\<forall>I. \<exists>r. snd (gvisor_run I default_settings (lit ''runsc'') (sample_env [exit_poll 0] [] [])
          (sample_args 30) 1 True) = Return r
    \<and> \<not> wall_clock_exceeded r \<and> oom_killed r = (exit_code r = 137)"
proof (intro allI)
  fix I
  show "\<exists>r. snd (gvisor_run I default_settings (lit ''runsc'') (sample_env [exit_poll 0] [] [])
          (sample_args 30) 1 True) = Return r
    \<and> \<not> wall_clock_exceeded r \<and> oom_killed r = (exit_code r = 137)"
  proof -
    obtain r where "snd (gvisor_run I default_settings (lit ''runsc'') (sample_env [exit_poll 0] [] [])
        (sample_args 30) 1 True) = Return r" and "\<not> wall_clock_exceeded r"
      using sample_run_0 by blast
    with run_verdict [OF this(1)] show ?thesis by auto
  qed
qed

lemma run_result_fields:
  assumes "snd (gvisor_run I s runtime env args attempt heartbeat) = Return r"
  shows "length (stdout_tail r) \<le> nat (output_max_bytes (rs_limits args))
    \<and> length (stderr_tail r) \<le> nat (output_max_bytes (rs_limits args))
    \<and> sb_runtime r = runtime"
  using assms
proof (rule gvisor_run_Return)
  fix name digest tmp
  assume "snd (in_staging I s runtime env args attempt heartbeat name digest tmp) = Return r"
  from in_staging_Return [OF this] consider
      "snd (watch I s runtime env args attempt heartbeat digest) = Return (Inl r)"
    | rc now where "snd (exit_result I runtime env args digest rc now) = Return r"
    by blast
  then show ?thesis
  proof cases
    case 1
    then show ?thesis by (rule watch_Return_Inl) (use deadline_result_Return in blast)
  next
    case 2
    then show ?thesis using exit_result_Return by blast
  qed
qed

text \<open>
  The captured output is bounded whatever the program writes: a run that returns keeps at
  most the configured number of characters of each stream.
\<close>

theorem run_output_bounded:
  assumes "snd (gvisor_run I s runtime env args attempt heartbeat) = Return r"
  shows "length (stdout_tail r) \<le> nat (output_max_bytes (rs_limits args))
    \<and> length (stderr_tail r) \<le> nat (output_max_bytes (rs_limits args))"
  using run_result_fields [OF assms] by blast

theorem run_output_bounded_witness:
  "\<forall>I. \<exists>r. snd (gvisor_run I default_settings (lit ''runsc'')
          (sample_env [exit_poll 0] [ascii_bytes ''hello''] []) (sample_args 30) 1 True) = Return r
    \<and> length (stdout_tail r) \<le> 1048576"
proof (intro allI)
  fix I
  show "\<exists>r. snd (gvisor_run I default_settings (lit ''runsc'')
          (sample_env [exit_poll 0] [ascii_bytes ''hello''] []) (sample_args 30) 1 True) = Return r
    \<and> length (stdout_tail r) \<le> 1048576"
  proof -
    obtain r where r: "snd (gvisor_run I default_settings (lit ''runsc'')
        (sample_env [exit_poll 0] [ascii_bytes ''hello''] []) (sample_args 30) 1 True) = Return r"
      using sample_run_0 by blast
    with run_output_bounded [OF r] show ?thesis by simp
  qed
qed

text \<open>The values of the buffer, read off the trace of the loop.\<close>

lemma read_trace_bound:
  assumes "\<forall>c \<in> set chunks. length c \<le> n" and "length buf \<le> m"
    and "x \<in> set (read_trace (int m) buf count chunks)"
  shows "length (fst x) \<le> m + n"
  using assms
proof (induction chunks arbitrary: buf count)
  case (Cons c chunks)
  have l: "length (last_n m (buf @ c)) \<le> m" by simp
  from Cons.prems(3) consider "fst x = buf" | "fst x = buf @ c"
    | "x \<in> set (read_trace (int m) (last_n m (buf @ c)) (count + length c) chunks)"
    by (auto simp only: read_trace.simps Let_def cut_is_last_n nat_int set_simps split: if_splits) auto
  then show ?case
    using Cons.IH [OF _ l] Cons.prems(1,2) by cases (auto intro: add_mono)
qed simp

text \<open>
  C32. A flood of output cannot exhaust the worker: with reads of at most \<open>_READ_CHUNK\<close> bytes, at
  no moment of the reading loop, also between appending a chunk and cutting the buffer, does the
  buffer hold more than the limit and one chunk, however much the program writes, and what the
  reader returns is within the limit.
\<close>

theorem reader_memory_bounded:
  assumes "0 \<le> limit" and "\<forall>c \<in> set chunks. length c \<le> READ_CHUNK"
  shows "(\<forall>(buf, count) \<in> set (read_trace limit [] 0 chunks).
        int (length buf) \<le> limit + int READ_CHUNK)
    \<and> int (length (fst (read_capped (Some chunks) limit))) \<le> limit"
proof (intro conjI ballI)
  fix x assume "x \<in> set (read_trace limit [] 0 chunks)"
  with read_trace_bound [OF assms(2), of "[]" "nat limit" x 0] assms(1)
  show "case x of (buf, count) \<Rightarrow> int (length buf) \<le> limit + int READ_CHUNK"
    by (auto split: prod.split)
next
  show "int (length (fst (read_capped (Some chunks) limit))) \<le> limit"
    using assms(1) by (simp add: read_capped_tail Let_def)
qed

theorem reader_memory_bounded_witness:
  "list_all (\<lambda>(buf, count). int (length buf) \<le> 65540) (read_trace 4 [] 0 [[1, 2, 3], [4, 5, 6]])
   \<and> int (length (fst (read_capped (Some [[1, 2, 3], [4, 5, 6]]) 4))) \<le> 4"
proof -
  let ?chunks = "[[1, 2, 3], [4, 5, 6]] :: byte list list"
  have "\<forall>c \<in> set ?chunks. length c \<le> READ_CHUNK" by (simp add: READ_CHUNK_def)
  with reader_memory_bounded [of 4 ?chunks]
  have "(\<forall>(buf, count) \<in> set (read_trace 4 [] 0 ?chunks). int (length buf) \<le> 4 + int READ_CHUNK)
    \<and> int (length (fst (read_capped (Some ?chunks) 4))) \<le> 4" by simp
  then show ?thesis unfolding list_all_iff by (simp only: READ_CHUNK_def) simp
qed

section \<open>The deadline\<close>

fun is_heartbeat :: "event \<Rightarrow> bool" where
  "is_heartbeat (Heartbeat ms) = True"
| "is_heartbeat _ = False"

definition heartbeats :: "event list \<Rightarrow> nat" where
  "heartbeats es = length (filter is_heartbeat es)"

lemma poll_loop_bound:
  assumes "\<forall>i < length ps. int (j + i) * \<delta> \<le> fsub (po_now (ps ! i)) start"
    and "float_of_int wall \<le> int k * \<delta>" and "j \<le> k" and "k < j + length ps"
  shows "snd (poll_loop hb wall start heartbeat ps) \<noteq> Pending
    \<and> heartbeats (fst (poll_loop hb wall start heartbeat ps)) + j \<le> k"
  using assms(1,3,4)
proof (induction ps arbitrary: j)
  case Nil
  then show ?case by simp
next
  case (Cons p ps)
  let ?el = "fsub (po_now p) start"
  have "int j * \<delta> \<le> ?el" using Cons.prems(1) by force
  show ?case
  proof (cases "remaining wall ?el \<le> 0")
    case True
    with Cons.prems(2) show ?thesis by (simp add: heartbeats_def)
  next
    case False
    then have "j \<noteq> k"
      using \<open>int j * \<delta> \<le> ?el\<close> assms(2) by (auto simp: remaining_le_0_iff)
    then have "Suc j \<le> k" "k < Suc j + length ps" using Cons.prems by auto
    moreover have "\<forall>i < length ps. int (Suc j + i) * \<delta> \<le> fsub (po_now (ps ! i)) start"
      using Cons.prems(1) by fastforce
    ultimately have "snd (poll_loop hb wall start heartbeat ps) \<noteq> Pending
        \<and> heartbeats (fst (poll_loop hb wall start heartbeat ps)) + Suc j \<le> k"
      by (rule Cons.IH [rotated])
    with False show ?thesis
      by (auto simp: Let_def heartbeats_def eff_unfold split: wait_env.splits)
  qed
qed

text \<open>
  C27. The wall clock bounds the loop.  If the elapsed time that the code computes at round
  \<open>i\<close> is at least \<open>i\<close> times some step, then the loop has ended, by exit, deadline or
  exception, within the first \<open>k + 1\<close> rounds as soon as \<open>k\<close> steps cover the limit, and it has
  sent at most \<open>k\<close> heartbeats, however the container behaves.
\<close>

theorem wall_clock_ends_loop:
  assumes "\<forall>i < length ps. int i * \<delta> \<le> fsub (po_now (ps ! i)) start"
    and "float_of_int wall \<le> int k * \<delta>" and "k < length ps"
  shows "snd (poll_loop hb wall start heartbeat ps) \<noteq> Pending
    \<and> heartbeats (fst (poll_loop hb wall start heartbeat ps)) \<le> k"
  using poll_loop_bound [of ps 0 \<delta> start wall k hb heartbeat] assms by simp

definition timeout_poll :: "int \<Rightarrow> poll" where
  "timeout_poll t = \<lparr>po_now = float_of_int t, po_wait = Wait_timeout (float_of_int t)\<rparr>"

lemma timeout_poll_elapsed:
  "0 \<le> t \<Longrightarrow> t < 2 ^ 53 \<Longrightarrow> fsub (po_now (timeout_poll t)) 0 = t * float_scale"
  by (simp add: timeout_poll_def fsub_def float_of_int_exact round_double_int)

theorem wall_clock_ends_loop_witness:
  "snd (poll_loop 10 30 0 True (map timeout_poll [0, 10, 20, 30])) \<noteq> Pending
   \<and> heartbeats (fst (poll_loop 10 30 0 True (map timeout_poll [0, 10, 20, 30]))) \<le> 3"
proof (rule wall_clock_ends_loop [where \<delta> = "10 * float_scale"])
  show "\<forall>i<length (map timeout_poll [0, 10, 20, 30]).
      int i * (10 * float_scale) \<le> fsub (po_now (map timeout_poll [0, 10, 20, 30] ! i)) 0"
    by (simp add: All_less_Suc timeout_poll_elapsed)
qed (simp_all add: float_of_int_exact)

lemma poll_loop_events:
  "i < length (fst (poll_loop hb wall start True ps)) \<Longrightarrow>
     i div 2 < length ps
     \<and> 0 < remaining wall (fsub (po_now (ps ! (i div 2))) start)
     \<and> (if even i then fst (poll_loop hb wall start True ps) ! i =
            Wait_exit (wait_for hb (remaining wall (fsub (po_now (ps ! (i div 2))) start)))
        else \<exists>now. po_wait (ps ! (i div 2)) = Wait_timeout now
            \<and> fst (poll_loop hb wall start True ps) ! i = Heartbeat (elapsed_ms start now))"
proof (induction ps arbitrary: i)
  case (Cons p ps)
  let ?rem = "remaining wall (fsub (po_now p) start)"
  have pos: "0 < ?rem" using Cons.prems by (auto simp: Let_def not_le split: if_splits)
  have w: "fst (poll_loop hb wall start True (p # ps)) =
      Wait_exit (wait_for hb ?rem) #
        (case po_wait p of Wait_timeout now \<Rightarrow>
            Heartbeat (elapsed_ms start now) # fst (poll_loop hb wall start True ps) | _ \<Rightarrow> [])"
    using pos by (simp add: Let_def eff_unfold split: wait_env.split)
  consider "i = 0" | "i = 1" | j where "i = Suc (Suc j)"
    by (metis One_nat_def not0_implies_Suc)
  then show ?case
  proof cases
    case 3
    then obtain now where now: "po_wait p = Wait_timeout now"
      using Cons.prems unfolding w by (auto split: wait_env.splits)
    with Cons.prems 3 have "j < length (fst (poll_loop hb wall start True ps))"
      unfolding w by simp
    from Cons.IH [OF this] show ?thesis unfolding w now 3 by simp
  qed (use Cons.prems pos in \<open>auto simp: w split: wait_env.splits\<close>)
qed simp

text \<open>
  C38. The cadence of the loop.  Its calls alternate strictly: a wait, then a heartbeat, so no
  heartbeat comes before the first wait has timed out.  Every wait is the smaller of
  \<open>sandbox_heartbeat_s\<close> and the time that remains, or a tenth of a second when less remains; the
  first wait is one full interval whenever at least the interval remains.
\<close>

theorem first_heartbeat_after_interval:
  assumes "i < length (fst (poll_loop hb wall start True ps))"
  shows "let rem = remaining wall (fsub (po_now (ps ! (i div 2))) start);
             ev = fst (poll_loop hb wall start True ps) ! i in
    if even i then
      ev = Wait_exit (min (float_of_int hb) (max rem float_0_1))
      \<and> (float_of_int hb \<le> rem \<longrightarrow> ev = Wait_exit (float_of_int hb))
    else \<exists>now. po_wait (ps ! (i div 2)) = Wait_timeout now \<and> ev = Heartbeat (elapsed_ms start now)"
  using poll_loop_events [OF assms] by (auto simp: Let_def wait_for_def min_def max_def)

theorem first_heartbeat_after_interval_witness:
  "fst (poll_loop 10 30 0 True [timeout_poll 0]) ! 0 = Wait_exit (10 * float_scale)"
proof -
  have r: "remaining 30 (fsub (po_now (timeout_poll 0)) 0) = 30 * float_scale"
    using timeout_poll_elapsed [of 0]
    by (simp add: remaining_def float_of_int_exact fsub_def round_double_int)
  moreover have "float_of_int 10 \<le> 30 * float_scale" by (simp add: float_of_int_exact)
  moreover have "min (10 * float_scale) (max (30 * float_scale) float_0_1) = 10 * float_scale"
    using float_scale_pos by (intro min_absorb1) (simp add: le_max_iff_disj)
  moreover have "0 < length (fst (poll_loop 10 30 0 True [timeout_poll 0]))"
    using r float_scale_pos by (simp add: Let_def eff_unfold not_le)
  ultimately show ?thesis
    using first_heartbeat_after_interval [of 0 10 30 0 "[timeout_poll 0]"]
    by (simp add: Let_def float_of_int_exact del: poll_loop.simps)
qed

section \<open>Failing closed\<close>

text \<open>
  C34. The preflight check passes only for \<^verbatim>\<open>runc\<close> or when the control command succeeded and its
  answer contains the quoted name of the runtime; a missing command line tool, a timeout, a
  failing daemon and an unregistered runtime all end as a policy violation, which is never
  retried.
\<close>

theorem preflight_fails_closed:
  "(snd (preflight I runtime c) = Return ()) =
     (runtime = lit ''runc''
      \<or> (\<exists>out err. run_cmd c = Inr (0, out, err) \<and> py_in ([34] @ runtime @ [34]) (utf8_decode out)))
   \<and> (\<forall>e. snd (preflight I runtime c) = Raise e \<longrightarrow>
        (\<exists>m. e = SandboxPolicyViolation m) \<or> run_cmd c = Inl e)
   \<and> (runtime \<noteq> lit ''runc'' \<longrightarrow> c = Spawn_raises FileNotFoundError \<or> c = Comm_times_out \<longrightarrow>
        (\<exists>m. snd (preflight I runtime c) = Raise (SandboxPolicyViolation m)))"
proof -
  have "(snd (preflight I runtime c) = Return ()) =
     (runtime = lit ''runc''
      \<or> (\<exists>out err. run_cmd c = Inr (0, out, err) \<and> py_in ([34] @ runtime @ [34]) (utf8_decode out)))"
    by (auto simp: preflight_def control_def eff_unfold snd_lift_res split: sum.splits)
  moreover have "\<forall>e. snd (preflight I runtime c) = Raise e \<longrightarrow>
        (\<exists>m. e = SandboxPolicyViolation m) \<or> run_cmd c = Inl e"
    by (auto simp: preflight_def control_def eff_unfold snd_lift_res split: sum.splits if_splits)
  moreover have "runtime \<noteq> lit ''runc'' \<longrightarrow> c = Spawn_raises FileNotFoundError \<or> c = Comm_times_out \<longrightarrow>
        (\<exists>m. snd (preflight I runtime c) = Raise (SandboxPolicyViolation m))"
    by (auto simp: preflight_def control_def)
  ultimately show ?thesis by blast
qed

theorem preflight_fails_closed_witness:
  "\<forall>I. \<exists>m. snd (preflight I (lit ''runsc'') (Spawn_raises FileNotFoundError))
      = Raise (SandboxPolicyViolation m)"
proof (intro allI)
  fix I
  show "\<exists>m. snd (preflight I (lit ''runsc'') (Spawn_raises FileNotFoundError))
      = Raise (SandboxPolicyViolation m)"
    using preflight_fails_closed [of I "lit ''runsc''" "Spawn_raises FileNotFoundError"] by simp
qed

text \<open>
  Only the three launch codes of the container tool can turn an ended container into an
  error, and then only with a launch signature in its error output: a run with any other exit
  code, or without a signature, is returned as a result.
\<close>

theorem infra_needs_launch_signature:
  "classify_infra I runtime rc err = Inr ()
     \<or> (rc \<in> {125, 126, 127}
        \<and> (\<exists>sig \<in> set LAUNCH_SIGNATURES. py_in sig (lower (case_tab I) err))
        \<and> (if py_in (lit ''unknown runtime'') (lower (case_tab I) err)
              \<or> py_in runtime (lower (case_tab I) err)
            then \<exists>m. classify_infra I runtime rc err = Inl (SandboxPolicyViolation m)
            else \<exists>m. classify_infra I runtime rc err = Inl (SandboxInfraError m)))"
  by (auto simp: classify_infra_def LAUNCH_RCS_def Let_def list_ex_iff)

text \<open>
  The classification trusts the program's own error output: a contained program that exits
  with 125 after writing a line that starts like a message of the container tool makes the run
  raise the retryable launch error, so a user-code failure is reported as an infrastructure
  fault.
\<close>

theorem forged_launch_failure:
  "\<exists>m. snd (gvisor_run I default_settings (lit ''runsc'')
          (sample_env [exit_poll 125] [] [ascii_bytes ''docker: written by the program''])
          (sample_args 30) 1 True) = Raise (SandboxInfraError m)"
proof -
  let ?t = "''docker: written by the program''"
  have cap: "read_capped (Some [ascii_bytes ?t]) 1048576 = (ascii_bytes ?t, False)"
    by (simp add: read_capped_def ascii_bytes_def last_n_def lit_def)
  have dec: "decode (ascii_bytes ?t) = lit ?t"
    by (simp add: decode_def utf8_decode_ascii_bytes)
  have "\<exists>m. classify_infra I (lit ''runsc'') 125 (lit ?t) = Inl (SandboxInfraError m)"
    by (simp add: classify_infra_def LAUNCH_RCS_def LAUNCH_SIGNATURES_def Let_def py_eval
        ascii_lower_def)
  then show ?thesis
    by (auto simp: sample_run exit_result_def safe_def Let_def cap dec split: prod.split)
qed

end
