(* ===== verification/Dispatch.thy ===== *)
theory Dispatch
  imports Sandbox
begin

text \<open>
  The runners behind the one interface: the methods dispatched on the class of the runner, the
  interpretations of the contract \<open>sandbox_runner\<close> for the gVisor runner, the Firecracker stub
  and the dispatch, and what ties a container to its run: its name, its teardown, its staging
  directory and its independence of the code.
\<close>

section \<open>Dynamic dispatch\<close>

definition runner_preflight :: "interp \<Rightarrow> runner \<Rightarrow> run_env \<Rightarrow> (event, unit) eff" where
  "runner_preflight I r env =
     (case r of
        GvisorRunner runtime \<Rightarrow> preflight I runtime (re_preflight env)
      | FirecrackerRunner \<Rightarrow> firecracker_preflight)"

definition runner_run ::
  "interp \<Rightarrow> Settings \<Rightarrow> runner \<Rightarrow> run_env \<Rightarrow> RunSandboxArgs \<Rightarrow> int \<Rightarrow> bool \<Rightarrow>
     (event, SandboxResult) eff" where
  "runner_run I s r env args attempt heartbeat =
     (case r of
        GvisorRunner runtime \<Rightarrow> gvisor_run I s runtime env args attempt heartbeat
      | FirecrackerRunner \<Rightarrow> firecracker_run)"

definition runner_kill :: "interp \<Rightarrow> runner \<Rightarrow> run_env \<Rightarrow> pystr \<Rightarrow> int \<Rightarrow> (event, unit) eff" where
  "runner_kill I r env run_id attempt =
     (case r of
        GvisorRunner runtime \<Rightarrow> kill I (re_kill_outer env) run_id attempt
      | FirecrackerRunner \<Rightarrow> firecracker_kill)"

definition runner_runtime :: "runner \<Rightarrow> pystr" where
  "runner_runtime r =
     (case r of GvisorRunner runtime \<Rightarrow> runtime | FirecrackerRunner \<Rightarrow> lit ''firecracker'')"

section \<open>The contract holds\<close>

text \<open>A command line runs the container of its run and attempt when it carries that name.\<close>

definition names_container :: "interp \<Rightarrow> pystr \<Rightarrow> int \<Rightarrow> pystr list \<Rightarrow> bool" where
  "names_container I run_id attempt argv \<longleftrightarrow>
     (case container_name I run_id attempt of
        Inl e \<Rightarrow> False
      | Inr name \<Rightarrow> take 2 (drop 3 argv) = [lit ''--name'', name])"

definition policy_holds :: "Settings \<Rightarrow> pystr list \<Rightarrow> bool" where
  "policy_holds s argv \<longleftrightarrow> is_flag (sandbox_image s) \<or> contained_argv argv"

lemma launches_preflight [simp]: "launches (fst (preflight I runtime c)) = []"
  by (auto simp: preflight_def eff_unfold split: outcome.splits)

lemma length_launches_run:
  "length (launches (fst (gvisor_run I s runtime env args attempt heartbeat))) \<le> 1"
proof (cases "launches (fst (gvisor_run I s runtime env args attempt heartbeat)) = []")
  case False
  then show ?thesis by (rule launches_run) simp
qed simp

lemma launch_names_container:
  assumes "argv \<in> set (launches (fst (gvisor_run I s runtime env args attempt heartbeat)))"
  shows "names_container I (rs_run_id args) attempt argv"
proof -
  from assms have "launches (fst (gvisor_run I s runtime env args attempt heartbeat)) \<noteq> []" by auto
  then show ?thesis
    by (rule launches_run) (use assms in \<open>simp add: names_container_def docker_run_cmd_def\<close>)
qed

interpretation gvisor: sandbox_runner
  "\<lambda>env. preflight I runtime (re_preflight env)"
  "gvisor_run I s runtime"
  "\<lambda>env. kill I (re_kill_outer env)"
  "names_container I" "policy_holds s" runtime
  for I s runtime
proof unfold_locales
  show "launches (fst (preflight I runtime (re_preflight env))) = []" for env by simp
  show "launches (fst (kill I (re_kill_outer env) run_id attempt)) = []" for env run_id attempt
    by simp
  show "length (launches (fst (gvisor_run I s runtime env args attempt hb))) \<le> 1"
    for env args attempt hb by (rule length_launches_run)
  show "argv \<in> set (launches (fst (gvisor_run I s runtime env args attempt hb))) \<Longrightarrow>
      names_container I (rs_run_id args) attempt argv" for argv env args attempt hb
    by (rule launch_names_container)
  show "argv \<in> set (launches (fst (gvisor_run I s runtime env args attempt hb))) \<Longrightarrow>
      policy_holds s argv" for argv env args attempt hb
    using docker_run_cmd_contained launches_run unfolding policy_holds_def
    by (metis empty_iff empty_set list.set_intros(1) set_ConsD)
  show "snd (gvisor_run I s runtime env args attempt hb) = Return r \<Longrightarrow> sb_runtime r = runtime"
    for env args attempt hb r
    using run_result_fields by blast
qed

interpretation firecracker: sandbox_runner
  "\<lambda>env::run_env. firecracker_preflight" "\<lambda>env args attempt hb. firecracker_run"
  "\<lambda>env run_id attempt. firecracker_kill" "names_container I" "policy_holds s" "lit ''firecracker''"
  for I s
  by unfold_locales
    (simp_all add: firecracker_preflight_def firecracker_run_def firecracker_kill_def)

interpretation dispatch: sandbox_runner
  "runner_preflight I r" "runner_run I s r" "runner_kill I r" "names_container I" "policy_holds s"
  "runner_runtime r"
  for I s r
proof (cases r)
  case (GvisorRunner runtime)
  then show "sandbox_runner (runner_preflight I r) (runner_run I s r) (runner_kill I r)
      (names_container I) (policy_holds s) (runner_runtime r)"
    using gvisor.sandbox_runner_axioms [of I runtime s]
    by (simp add: runner_preflight_def [abs_def] runner_run_def [abs_def] runner_kill_def [abs_def]
        runner_runtime_def)
next
  case FirecrackerRunner
  then show "sandbox_runner (runner_preflight I r) (runner_run I s r) (runner_kill I r)
      (names_container I) (policy_holds s) (runner_runtime r)"
    using firecracker.sandbox_runner_axioms [of I s]
    by (simp add: runner_preflight_def [abs_def] runner_run_def [abs_def] runner_kill_def [abs_def]
        runner_runtime_def)
qed

section \<open>Names and teardown\<close>

text \<open>
  Containers are told apart by their attempt: with a 40-digit digest, two containers have
  the same name only if they belong to the same attempt of runs whose identifiers have the same
  digest prefix, so killing one attempt never removes the container of a later one.
\<close>

theorem container_name_inject:
  assumes "\<And>b. length (sha1_hex I b) = 40"
    and "container_name I run_id attempt = Inr name"
    and "container_name I run_id' attempt' = Inr name"
  shows "attempt = attempt'
    \<and> (\<exists>b b'. utf8_encode run_id = Inr b \<and> utf8_encode run_id' = Inr b'
          \<and> take 16 (sha1_hex I b) = take 16 (sha1_hex I b'))"
  using assms by (auto simp: container_name_def rmap_eq_Inr dest!: append_eq_append_conv [THEN iffD1, rotated])

theorem container_name_inject_witness:
  "\<exists>I name. (\<forall>b. length (sha1_hex I b) = 40)
     \<and> container_name I (lit ''demo:1'') 2 = Inr name
     \<and> container_name I (lit ''demo:1'') 3 \<noteq> Inr name"
proof -
  define I where "I = \<lparr>case_tab = (\<lambda>b c a. [c]), py_repr = id, float_str = (\<lambda>f. []),
    sha1_hex = (\<lambda>b. replicate 40 48), sha256_hex = (\<lambda>b. replicate 64 48)\<rparr>"
  have l: "\<And>b. length (sha1_hex I b) = 40" by (simp add: I_def)
  obtain name where n: "container_name I (lit ''demo:1'') 2 = Inr name"
    by (simp add: container_name_def utf8_encode_lit)
  have "container_name I (lit ''demo:1'') 3 \<noteq> Inr name"
    using container_name_inject [OF l _ n, of "lit ''demo:1''" 3] by auto
  with l n show ?thesis by blast
qed

text \<open>
  Teardown aims at the right container: whenever a gVisor run launches a container, its
  command line carries a name, and killing the same run and attempt issues exactly one control
  command, the forced removal of that name.
\<close>

theorem kill_targets_launched_container:
  assumes "argv \<in> set (launches (fst (gvisor_run I s runtime env args attempt heartbeat)))"
  shows "\<exists>name. take 2 (drop 3 argv) = [lit ''--name'', name]
    \<and> fst (kill I c (rs_run_id args) attempt)
        = [Control [lit ''docker'', lit ''rm'', lit ''-f'', name]]"
  using launch_names_container [OF assms]
  by (auto simp: names_container_def fst_kill split: sum.splits)

lemma sample_launch_code:
  assumes "is_ascii code"
  shows "launches (fst (gvisor_run I s runtime (sample_env polls out err)
      ((sample_args w)\<lparr>rs_code := code\<rparr>) 1 hb)) \<noteq> []"
proof -
  have f: "snd (stage_files (sample_env polls out err) tmp code) = Return ()" for tmp
    by (simp add: stage_files_def stage_def utf8_encode_ascii [OF assms])
  have d: "\<exists>d. snd (image_digest_of s (Comm_done (Some 0) (ascii_bytes ''sha256:1'') [])) = Return d"
    by (simp add: image_digest_of_def control_def Let_def)
  show ?thesis
    using d by (auto simp: gvisor_run_def eff_unfold snd_lift_res container_name_sample
        launches_in_staging f)
qed

lemma sample_launch:
  "launches (fst (gvisor_run I s runtime (sample_env polls out err) (sample_args w) 1 hb)) \<noteq> []"
  using sample_launch_code [of "lit ''pass''" I s runtime polls out err w hb]
  by (simp add: sample_args_def)

theorem kill_targets_launched_container_witness:
  "\<exists>argv name. argv \<in> set (launches (fst (gvisor_run I default_settings (lit ''runsc'')
        (sample_env [exit_poll 0] [] []) (sample_args 30) 1 True)))
     \<and> fst (kill I Comm_times_out (lit ''demo:1'') 1)
        = [Control [lit ''docker'', lit ''rm'', lit ''-f'', name]]"
proof -
  obtain argv where a: "argv \<in> set (launches (fst (gvisor_run I default_settings (lit ''runsc'')
        (sample_env [exit_poll 0] [] []) (sample_args 30) 1 True)))"
    using sample_launch by (metis list.set_intros(1) neq_Nil_conv)
  show ?thesis
    using a kill_targets_launched_container [OF a, of Comm_times_out] by auto
qed

text \<open>
  Every container that the gVisor runner starts is contained: whatever the run, the
  staging directory, the limits and the environment are, the command line of each launch
  satisfies the isolation policy, provided that the configured image is not an option itself.
  Since the only word after the options is the image, the untrusted code is never on it.
\<close>

theorem launched_containers_contained:
  assumes "\<not> is_flag (sandbox_image s)"
    and "argv \<in> set (launches (fst (gvisor_run I s runtime env args attempt heartbeat)))"
  shows "contained_argv argv"
proof -
  from assms(2) have "launches (fst (gvisor_run I s runtime env args attempt heartbeat)) \<noteq> []"
    by auto
  then show ?thesis
    by (rule launches_run) (use assms docker_run_cmd_contained in auto)
qed

theorem launched_containers_contained_witness:
  "\<exists>argv. argv \<in> set (launches (fst (gvisor_run I default_settings (lit ''runsc'')
        (sample_env [exit_poll 0] [] []) (sample_args 30) 1 True))) \<and> contained_argv argv"
proof -
  obtain argv where a: "argv \<in> set (launches (fst (gvisor_run I default_settings (lit ''runsc'')
        (sample_env [exit_poll 0] [] []) (sample_args 30) 1 True)))"
    using sample_launch by (metis list.set_intros(1) neq_Nil_conv)
  have "\<not> is_flag (sandbox_image default_settings)"
    by (simp add: default_settings_def is_flag_def lit_Cons)
  from launched_containers_contained [OF this a] a show ?thesis by blast
qed

text \<open>
  The code is data: two runs that differ only in their code launch the same command line, so
  the untrusted text influences neither the options nor the arguments of the container tool.
\<close>

theorem command_line_ignores_code:
  assumes "argv \<in> set (launches (fst (gvisor_run I s runtime env args attempt heartbeat)))"
    and "argv' \<in> set (launches (fst (gvisor_run I s runtime env (args\<lparr>rs_code := code\<rparr>) attempt heartbeat)))"
  shows "argv = argv'"
proof -
  have "launches (fst (gvisor_run I s runtime env args attempt heartbeat)) \<noteq> []"
    and "launches (fst (gvisor_run I s runtime env (args\<lparr>rs_code := code\<rparr>) attempt heartbeat)) \<noteq> []"
    using assms by auto
  then show ?thesis
    by (elim launches_run) (use assms in auto)
qed

lemma code_is_ascii: "is_ascii (lit ''while True: pass'')"
  by simp

theorem command_line_ignores_code_witness:
  "\<forall>I. \<exists>argv. argv \<in> set (launches (fst (gvisor_run I default_settings (lit ''runsc'')
        (sample_env [exit_poll 0] [] []) (sample_args 30) 1 True)))
     \<and> argv \<in> set (launches (fst (gvisor_run I default_settings (lit ''runsc'')
        (sample_env [exit_poll 0] [] []) ((sample_args 30)\<lparr>rs_code := lit ''while True: pass''\<rparr>) 1 True)))"
proof (intro allI)
  fix I
  show "\<exists>argv. argv \<in> set (launches (fst (gvisor_run I default_settings (lit ''runsc'')
        (sample_env [exit_poll 0] [] []) (sample_args 30) 1 True)))
     \<and> argv \<in> set (launches (fst (gvisor_run I default_settings (lit ''runsc'')
        (sample_env [exit_poll 0] [] []) ((sample_args 30)\<lparr>rs_code := lit ''while True: pass''\<rparr>) 1 True)))"
  proof -
    obtain argv where l: "argv \<in> set (launches (fst (gvisor_run I default_settings (lit ''runsc'')
          (sample_env [exit_poll 0] [] []) (sample_args 30) 1 True)))"
      using sample_launch by (metis list.set_intros(1) neq_Nil_conv)
    obtain argv' where l': "argv' \<in> set (launches (fst (gvisor_run I default_settings (lit ''runsc'')
          (sample_env [exit_poll 0] [] []) ((sample_args 30)\<lparr>rs_code := lit ''while True: pass''\<rparr>) 1 True)))"
      using sample_launch_code [of "lit ''while True: pass''"]
      by (metis code_is_ascii list.set_intros(1) neq_Nil_conv)
    from command_line_ignores_code [OF l l'] l l' show ?thesis by blast
  qed
qed

text \<open>
  C33. Nothing stays behind: once the staging directory exists, a run that ends, by a result or by
  any exception, removes it as its last call.
\<close>

theorem staging_directory_removed:
  assumes "Make_tmp p d \<in> set (fst (gvisor_run I s runtime env args attempt heartbeat))"
    and "re_tmp env = Inr tmp"
    and "snd (gvisor_run I s runtime env args attempt heartbeat) \<noteq> Pending"
  shows "last (fst (gvisor_run I s runtime env args attempt heartbeat)) = Remove_tmp tmp"
proof -
  have c: "Make_tmp p d \<notin> set (fst (image_digest_of s c))" for c
    by (cases "run_cmd c") (auto simp: image_digest_of_def control_def eff_unfold Let_def)
  from assms c show ?thesis
    by (auto simp: gvisor_run_def eff_unfold snd_lift_res split: outcome.splits sum.splits)
      (metis outcome.exhaust)+
qed

theorem staging_directory_removed_witness:
  "\<forall>I. last (fst (gvisor_run I default_settings (lit ''runsc'')
        (sample_env [exit_poll 0] [] []) (sample_args 30) 1 True)) = Remove_tmp (lit ''/tmp/sbx-1'')"
proof (intro allI)
  fix I
  show "last (fst (gvisor_run I default_settings (lit ''runsc'')
        (sample_env [exit_poll 0] [] []) (sample_args 30) 1 True)) = Remove_tmp (lit ''/tmp/sbx-1'')"
  proof (rule staging_directory_removed)
    show "Make_tmp (lit ''sbx-'') None \<in> set (fst (gvisor_run I default_settings (lit ''runsc'')
          (sample_env [exit_poll 0] [] []) (sample_args 30) 1 True))"
      by (simp add: gvisor_run_def container_name_sample eff_unfold snd_lift_res image_digest_of_def
          control_def Let_def default_settings_def)
    show "snd (gvisor_run I default_settings (lit ''runsc'')
          (sample_env [exit_poll 0] [] []) (sample_args 30) 1 True) \<noteq> Pending"
      using sample_run_0 [of I default_settings "lit ''runsc''" "[]" "[]" True] by auto
  qed simp
qed

end
