(* ===== verification/SandboxActivity.thy ===== *)
theory SandboxActivity
  imports Dispatch Tracing
begin

text \<open>
  The activity that executes untrusted code (\<^verbatim>\<open>app/activities/sandbox.py\<close>): its size guard, the
  selection of the runner, the preflight check, the run with its telemetry, and the three
  handlers.  \<open>guarded_run\<close> is the \<^verbatim>\<open>try\<close> statement over any runner; what holds of it for every
  runner is proved from the contract \<open>sandbox_runner\<close>.
\<close>

abbreviation act_span :: pystr where
  "act_span \<equiv> lit ''activity.run_sandbox''"

abbreviation exec_span :: pystr where
  "exec_span \<equiv> lit ''sandbox.exec''"

text \<open>The attributes and the log record of a result.\<close>

definition result_events :: "SandboxResult \<Rightarrow> act_event list" where
  "result_events r =
     set_attrs exec_span
       [(lit ''sandbox.exit_code'', AInt (exit_code r)),
        (lit ''sandbox.wall_ms'', AInt (wall_ms r)),
        (lit ''sandbox.oom'', ABool (oom_killed r)),
        (lit ''sandbox.wall_clock_exceeded'', ABool (wall_clock_exceeded r)),
        (lit ''sandbox.image.digest'', opt_attr (image_digest r)),
        (lit ''result.truncated'', ABool (truncated r))] @
     (if \<not> ok r then
        [Attr exec_span (lit ''failure.terminal'') (ABool True),
         Attr exec_span (lit ''sandbox.failure_reason'')
           (AStr (case failure_reason r of None \<Rightarrow> [] | Some t \<Rightarrow> t))]
      else []) @
     [Log (lit ''INFO'') (lit ''sandbox finished'')
        [(lit ''step'', AStr (lit ''run_sandbox'')), (lit ''exit_code'', AInt (exit_code r)),
         (lit ''wall_ms'', AInt (wall_ms r)), (lit ''ok'', ABool (ok r)),
         (lit ''source'', AStr (lit ''sandbox''))]]"

definition guarded_body ::
  "('env \<Rightarrow> (event, unit) eff) \<Rightarrow>
   ('env \<Rightarrow> RunSandboxArgs \<Rightarrow> int \<Rightarrow> bool \<Rightarrow> (event, SandboxResult) eff) \<Rightarrow>
   'env \<Rightarrow> RunSandboxArgs \<Rightarrow> int \<Rightarrow> (act_event, SandboxResult) eff" where
  "guarded_body r_preflight r_run env args attempt =
     eseq (map_eff Sbx (r_preflight env))
       (eseq (emit_all (set_observation_type exec_span (lit ''tool'') @
                set_attrs exec_span [(lit ''sandbox.runtime'', AStr (rs_runtime args))]))
         (ebind (map_eff Sbx (r_run env args attempt True)) (\<lambda>result.
            eseq (emit_all (result_events result)) (ret result))))"

definition on_fault ::
  "('env \<Rightarrow> pystr \<Rightarrow> int \<Rightarrow> (event, unit) eff) \<Rightarrow>
   'env \<Rightarrow> RunSandboxArgs \<Rightarrow> int \<Rightarrow> exn \<Rightarrow> (act_event, SandboxResult) eff" where
  "on_fault r_kill env args attempt e =
     (case e of
        CancelledError \<Rightarrow>
          eseq (map_eff Sbx (r_kill env (rs_run_id args) attempt))
            (eseq (emit (Log (lit ''WARNING'') (lit ''sandbox cancelled; torn down'')
                           [(lit ''step'', AStr (lit ''run_sandbox''))]))
              (throw CancelledError))
      | SandboxPolicyViolation m \<Rightarrow>
          eseq (emit_all (record_error act_span e m False True))
            (throw (ApplicationError m (lit ''SandboxPolicyViolation'') True))
      | SandboxInfraError m \<Rightarrow>
          eseq (emit_all (record_error act_span e m True False))
            (throw (ApplicationError m (lit ''SandboxInfraError'') False))
      | _ \<Rightarrow> throw e)"

definition guarded_run ::
  "('env \<Rightarrow> (event, unit) eff) \<Rightarrow>
   ('env \<Rightarrow> RunSandboxArgs \<Rightarrow> int \<Rightarrow> bool \<Rightarrow> (event, SandboxResult) eff) \<Rightarrow>
   ('env \<Rightarrow> pystr \<Rightarrow> int \<Rightarrow> (event, unit) eff) \<Rightarrow>
   'env \<Rightarrow> RunSandboxArgs \<Rightarrow> int \<Rightarrow> (act_event, SandboxResult) eff" where
  "guarded_run r_preflight r_run r_kill env args attempt =
     catch (guarded_body r_preflight r_run env args attempt) (on_fault r_kill env args attempt)"

definition run_sandbox ::
  "interp \<Rightarrow> Settings \<Rightarrow> int \<Rightarrow> run_env \<Rightarrow> RunSandboxArgs \<Rightarrow> (act_event, SandboxResult) eff" where
  "run_sandbox I settings attempt env args =
     eseq (emit_all [Set_run_id (rs_run_id args), Set_tenant_id (Some (rs_tenant_id args))])
      (if int (length (rs_code args)) > max_code_bytes settings then
         throw (ApplicationError
           (lit ''generated code exceeds '' @ str_int (max_code_bytes settings) @ lit '' bytes'')
           (lit ''PayloadTooLarge'') True)
       else
         ebind (lift_res (get_runner I (rs_runtime args))) (\<lambda>runner.
           eseq (emit_all (set_observation_type act_span (lit ''span'')))
            (ebind (lift_res (utf8_encode (rs_code args))) (\<lambda>code_bytes.
              eseq (emit_all (set_attrs act_span
                      [(lit ''run.id'', AStr (rs_run_id args)),
                       (lit ''tenant.id'', AStr (rs_tenant_id args)),
                       (lit ''step.name'', AStr (lit ''run_sandbox'')),
                       (lit ''attempt'', AInt attempt),
                       (lit ''sandbox.runtime'', AStr (rs_runtime args)),
                       (lit ''code.sha256'', AStr (sha256_hex I code_bytes))]))
               (guarded_run (runner_preflight I runner) (runner_run I settings runner)
                  (runner_kill I runner) env args attempt)))))"

section \<open>What holds for every runner\<close>

definition act_launches :: "(act_event, 'a) eff \<Rightarrow> pystr list list" where
  "act_launches m = launches (sbx_events (fst m))"

lemma sbx_result_events [simp]: "sbx_events (result_events r) = []"
  by (simp add: result_events_def)

lemma on_fault_cancelled:
  "fst (on_fault r_kill env args attempt CancelledError) =
     map Sbx (fst (r_kill env (rs_run_id args) attempt)) @
     (case snd (r_kill env (rs_run_id args) attempt) of
        Return _ \<Rightarrow> [Log (lit ''WARNING'') (lit ''sandbox cancelled; torn down'')
                       [(lit ''step'', AStr (lit ''run_sandbox''))]]
      | _ \<Rightarrow> [])"
  by (simp add: on_fault_def fst_ebind split: outcome.splits)

lemma on_fault_raises_cancelled:
  "snd (on_fault r_kill env args attempt e) = Raise CancelledError \<Longrightarrow> e = CancelledError"
  by (cases e) (auto simp: on_fault_def)

lemma on_fault_not_Return: "snd (on_fault r_kill env args attempt e) \<noteq> Return r"
  by (cases e) (auto simp: on_fault_def snd_ebind split: outcome.splits)

lemma on_fault_sbx:
  "sbx_events (fst (on_fault r_kill env args attempt e)) =
     (if e = CancelledError then fst (r_kill env (rs_run_id args) attempt) else [])"
  by (cases e) (auto simp: on_fault_cancelled, auto simp: on_fault_def split: outcome.splits)

lemma guarded_body_sbx:
  "sbx_events (fst (guarded_body r_preflight r_run env args attempt)) =
     fst (r_preflight env) @
     (if snd (r_preflight env) = Return () then fst (r_run env args attempt True) else [])"
  by (auto simp: guarded_body_def fst_ebind split: outcome.splits)

lemma guarded_body_end:
  "snd (guarded_body r_preflight r_run env args attempt) =
     (case snd (r_preflight env) of
        Return _ \<Rightarrow> snd (r_run env args attempt True)
      | Raise e \<Rightarrow> Raise e
      | Pending \<Rightarrow> Pending)"
  by (auto simp: guarded_body_def snd_ebind split: outcome.splits)

text \<open>The exceptions of the handlers: the sandbox's own classes never leave them.\<close>

lemma on_fault_errors:
  "snd (on_fault r_kill env args attempt e) = Raise e' \<Longrightarrow>
     (\<exists>m. e' = ApplicationError m (lit ''SandboxPolicyViolation'') True)
     \<or> (\<exists>m. e' = ApplicationError m (lit ''SandboxInfraError'') False)
     \<or> e = e' \<and> (\<forall>m. e \<noteq> SandboxPolicyViolation m \<and> e \<noteq> SandboxInfraError m)
     \<or> snd (r_kill env (rs_run_id args) attempt) = Raise e'"
  by (cases e) (auto simp: on_fault_def snd_ebind split: outcome.splits)

context sandbox_runner
begin

text \<open>Nothing is started unless the preflight check has returned.\<close>

lemma guarded_run_launches:
  "act_launches (guarded_run preflight run kill env args attempt) =
     (if snd (preflight env) = Return () then launches (fst (run env args attempt True)) else [])"
  by (auto simp: act_launches_def guarded_run_def fst_catch guarded_body_sbx on_fault_sbx
      preflight_launches kill_launches split: outcome.splits)

lemma guarded_run_safe:
  assumes "argv \<in> set (act_launches (guarded_run preflight run kill env args attempt))"
  shows "snd (preflight env) = Return () \<and> contained argv
    \<and> runs_container (rs_run_id args) attempt argv"
  using assms run_contained run_launches_own
  by (auto simp: guarded_run_launches split: if_splits)

lemma guarded_run_launches_once:
  "length (act_launches (guarded_run preflight run kill env args attempt)) \<le> 1"
  using run_launches_once by (simp add: guarded_run_launches)

text \<open>A result of the runner is the result of the activity, whatever it says about the code.\<close>

lemma guarded_run_Return:
  "snd (guarded_run preflight run kill env args attempt) = Return r \<longleftrightarrow>
     snd (preflight env) = Return () \<and> snd (run env args attempt True) = Return r"
  by (auto simp: guarded_run_def snd_catch guarded_body_end on_fault_not_Return
      split: outcome.splits)

lemma guarded_run_runtime:
  "snd (guarded_run preflight run kill env args attempt) = Return r \<Longrightarrow> sb_runtime r = runtime_of"
  using run_runtime by (auto simp: guarded_run_Return)

text \<open>A cancellation ends with the kill of this run's container.\<close>

lemma guarded_run_cancelled:
  assumes "snd (guarded_run preflight run kill env args attempt) = Raise CancelledError"
  shows "suffix (fst (kill env (rs_run_id args) attempt))
           (sbx_events (fst (guarded_run preflight run kill env args attempt)))"
  using assms
  by (auto simp: guarded_run_def snd_catch fst_catch on_fault_sbx suffix_def split: outcome.splits
      dest: on_fault_raises_cancelled)

text \<open>The errors that the activity raises: never one of the sandbox's own classes.\<close>

lemma guarded_run_errors:
  assumes "snd (guarded_run preflight run kill env args attempt) = Raise e"
  shows "(\<exists>m. e = ApplicationError m (lit ''SandboxPolicyViolation'') True)
     \<or> (\<exists>m. e = ApplicationError m (lit ''SandboxInfraError'') False)
     \<or> (\<forall>m. e \<noteq> SandboxPolicyViolation m \<and> e \<noteq> SandboxInfraError m)
     \<or> snd (kill env (rs_run_id args) attempt) = Raise e"
proof -
  from assms obtain e' where "snd (on_fault kill env args attempt e') = Raise e"
    by (auto simp: guarded_run_def snd_catch split: outcome.splits)
  from on_fault_errors [OF this] show ?thesis by auto
qed

end

section \<open>The activity\<close>

text \<open>What has been passed when the \<^verbatim>\<open>try\<close> statement is reached.\<close>

definition admitted :: "interp \<Rightarrow> Settings \<Rightarrow> RunSandboxArgs \<Rightarrow> runner \<Rightarrow> bool" where
  "admitted I s args r \<longleftrightarrow>
     int (length (rs_code args)) \<le> max_code_bytes s \<and> get_runner I (rs_runtime args) = Inr r
     \<and> (\<exists>bs. utf8_encode (rs_code args) = Inr bs)"

lemma run_sandbox_admitted:
  assumes "admitted I s args r"
  shows "\<exists>es. sbx_events es = []
    \<and> fst (run_sandbox I s attempt env args) =
        es @ fst (guarded_run (runner_preflight I r) (runner_run I s r) (runner_kill I r) env args attempt)
    \<and> snd (run_sandbox I s attempt env args) =
        snd (guarded_run (runner_preflight I r) (runner_run I s r) (runner_kill I r) env args attempt)"
  using assms by (auto simp: admitted_def run_sandbox_def fst_ebind snd_ebind)

lemma run_sandbox_not_admitted:
  assumes "\<forall>r. \<not> admitted I s args r"
  shows "sbx_events (fst (run_sandbox I s attempt env args)) = []
    \<and> (\<exists>e. snd (run_sandbox I s attempt env args) = Raise e \<and> e \<noteq> CancelledError)"
proof -
  have g: "get_runner I rt = Inl e \<Longrightarrow> e \<noteq> CancelledError" for rt e
    by (auto simp: get_runner_def split: if_splits)
  have u: "utf8_encode c = Inl e \<Longrightarrow> e = UnicodeEncodeError" for c e
    by (auto simp: utf8_encode_def split: if_splits)
  show ?thesis
    using assms g u
    by (cases "get_runner I (rs_runtime args)"; cases "utf8_encode (rs_code args)")
      (auto simp: admitted_def run_sandbox_def fst_ebind snd_ebind)
qed

lemma sbx_run_sandbox:
  assumes "admitted I s args r"
  shows "sbx_events (fst (run_sandbox I s attempt env args)) =
    sbx_events (fst (guarded_run (runner_preflight I r) (runner_run I s r) (runner_kill I r) env args attempt))"
  using run_sandbox_admitted [OF assms, of attempt env] by auto

lemma snd_run_sandbox:
  assumes "admitted I s args r"
  shows "snd (run_sandbox I s attempt env args) =
    snd (guarded_run (runner_preflight I r) (runner_run I s r) (runner_kill I r) env args attempt)"
  using run_sandbox_admitted [OF assms, of attempt env] by auto

lemma launch_facts:
  assumes "\<not> is_flag (sandbox_image s)"
    and "argv \<in> set (act_launches (run_sandbox I s attempt env args))"
  shows "int (length (rs_code args)) \<le> max_code_bytes s
    \<and> (rs_runtime args = lit ''runsc'' \<or> rs_runtime args = lit ''runc'')
    \<and> snd (preflight I (rs_runtime args) (re_preflight env)) = Return ()
    \<and> contained_argv argv \<and> names_container I (rs_run_id args) attempt argv
    \<and> act_launches (run_sandbox I s attempt env args) = [argv]"
proof -
  from assms(2) obtain r where r: "admitted I s args r"
    using run_sandbox_not_admitted by (fastforce simp: act_launches_def)
  let ?g = "guarded_run (runner_preflight I r) (runner_run I s r) (runner_kill I r) env args attempt"
  have l: "act_launches (run_sandbox I s attempt env args) = act_launches ?g"
    by (simp add: act_launches_def sbx_run_sandbox [OF r])
  note safe = dispatch.guarded_run_safe [of argv I r s env args attempt]
    and once = dispatch.guarded_run_launches_once [of I r s env args attempt]
  obtain rt where g: "r = GvisorRunner rt"
    using safe assms(2) l
    by (cases r) (auto simp: runner_preflight_def firecracker_preflight_def)
  with r have "rt = rs_runtime args \<and> (rt = lit ''runsc'' \<or> rt = lit ''runc'')"
    by (auto simp: admitted_def get_runner_def split: if_splits)
  moreover have "act_launches ?g = [argv]"
    using once assms(2) l by (cases "act_launches ?g") auto
  ultimately show ?thesis
    using safe assms l g r
    by (auto simp: admitted_def policy_holds_def runner_preflight_def)
qed

text \<open>
  C2. The activity fails closed: every container that it launches is launched after a successful
  preflight check of the gVisor or the runc runtime, for code within the size limit, with a
  command line that satisfies the isolation policy and carries the name of this run and
  attempt; and there is at most one.  The laws are those of the runner contract, so the
  statement holds for the dispatch over all runners.
\<close>

theorem activity_launches_guarded:
  assumes "\<not> is_flag (sandbox_image s)"
    and "argv \<in> set (act_launches (run_sandbox I s attempt env args))"
  shows "int (length (rs_code args)) \<le> max_code_bytes s
    \<and> (rs_runtime args = lit ''runsc'' \<or> rs_runtime args = lit ''runc'')
    \<and> snd (preflight I (rs_runtime args) (re_preflight env)) = Return ()
    \<and> contained_argv argv \<and> names_container I (rs_run_id args) attempt argv
    \<and> act_launches (run_sandbox I s attempt env args) = [argv]"
  using assms by (rule launch_facts)

lemma sample_preflight:
  "snd (preflight I (lit ''runsc'') (re_preflight (sample_env polls out err))) = Return ()"
  by (simp add: preflight_def control_def py_eval utf8_decode_ascii_bytes lit_Cons)

lemma sample_admitted: "admitted I default_settings (sample_args w) (GvisorRunner (lit ''runsc''))"
  by (simp add: admitted_def default_settings_def sample_args_def get_runner_def utf8_encode_lit)

lemma sample_activity:
  "snd (run_sandbox I default_settings 1 (sample_env polls out err) (sample_args w)) =
     snd (guarded_run (runner_preflight I (GvisorRunner (lit ''runsc'')))
       (runner_run I default_settings (GvisorRunner (lit ''runsc'')))
       (runner_kill I (GvisorRunner (lit ''runsc''))) (sample_env polls out err) (sample_args w) 1)"
  by (rule snd_run_sandbox [OF sample_admitted])

lemma sample_activity_launches:
  "act_launches (run_sandbox I default_settings 1 (sample_env polls out err) (sample_args w)) \<noteq> []"
  using sample_launch [of I default_settings "lit ''runsc''" polls out err w True]
  by (simp add: act_launches_def sbx_run_sandbox [OF sample_admitted])
    (simp add: dispatch.guarded_run_launches [unfolded act_launches_def] runner_preflight_def
      runner_run_def sample_preflight del: sample_env_simps)

theorem activity_launches_guarded_witness:
  "\<forall>I. \<exists>argv. act_launches (run_sandbox I default_settings 1 (sample_env [exit_poll 0] [] [])
        (sample_args 30)) = [argv] \<and> contained_argv argv"
proof (intro allI)
  fix I
  show "\<exists>argv. act_launches (run_sandbox I default_settings 1 (sample_env [exit_poll 0] [] [])
        (sample_args 30)) = [argv] \<and> contained_argv argv"
  proof -
    have "\<not> is_flag (sandbox_image default_settings)"
      by (simp add: default_settings_def is_flag_def lit_Cons)
    moreover obtain argv where "argv \<in> set (act_launches (run_sandbox I default_settings 1
        (sample_env [exit_poll 0] [] []) (sample_args 30)))"
      using sample_activity_launches by (metis list.set_intros(1) neq_Nil_conv)
    ultimately show ?thesis using activity_launches_guarded by blast
  qed
qed

lemma activity_result_cases:
  "snd (run_sandbox I s attempt env args) = Return r \<longleftrightarrow>
     int (length (rs_code args)) \<le> max_code_bytes s
     \<and> (rs_runtime args = lit ''runsc'' \<or> rs_runtime args = lit ''runc'')
     \<and> (\<exists>bs. utf8_encode (rs_code args) = Inr bs)
     \<and> snd (preflight I (rs_runtime args) (re_preflight env)) = Return ()
     \<and> snd (gvisor_run I s (rs_runtime args) env args attempt True) = Return r"
proof (cases "\<exists>q. admitted I s args q")
  case True
  then obtain q where q: "admitted I s args q" by blast
  then show ?thesis
    by (auto simp: snd_run_sandbox [OF q] dispatch.guarded_run_Return admitted_def get_runner_def
        runner_preflight_def runner_run_def firecracker_preflight_def split: if_splits)
next
  case False
  then show ?thesis
    using run_sandbox_not_admitted [of I s args attempt env]
    by (auto simp: admitted_def get_runner_def)
qed

text \<open>
  C7. A user-code failure is a normal outcome: the activity returns exactly the result of the
  gVisor run, whatever exit code, memory kill or time limit it reports, and it returns one
  exactly when the code was within the limit and encodable, the runtime was known, the preflight
  check passed and the run returned that result.
\<close>

theorem activity_returns_run_result:
  "snd (run_sandbox I s attempt env args) = Return r \<longleftrightarrow>
     int (length (rs_code args)) \<le> max_code_bytes s
     \<and> (rs_runtime args = lit ''runsc'' \<or> rs_runtime args = lit ''runc'')
     \<and> (\<exists>bs. utf8_encode (rs_code args) = Inr bs)
     \<and> snd (preflight I (rs_runtime args) (re_preflight env)) = Return ()
     \<and> snd (gvisor_run I s (rs_runtime args) env args attempt True) = Return r"
  by (rule activity_result_cases)

text \<open>
  C29. The error taxonomy of the activity: with the code within the limit and encodable, a fault
  of the preflight check or of the run becomes a non-retryable application error if it is a
  policy violation and a retryable one if it is an infrastructure fault, with the message kept;
  every other exception except a cancellation passes unchanged.
\<close>

theorem activity_fault_classification:
  assumes "int (length (rs_code args)) \<le> max_code_bytes s"
    and "utf8_encode (rs_code args) = Inr bs"
    and "get_runner I (rs_runtime args) = Inr q"
    and "snd (runner_preflight I q env) = Raise e
      \<or> snd (runner_preflight I q env) = Return () \<and> snd (runner_run I s q env args attempt True) = Raise e"
  shows "snd (run_sandbox I s attempt env args) =
    (case e of
       SandboxPolicyViolation m \<Rightarrow> Raise (ApplicationError m (lit ''SandboxPolicyViolation'') True)
     | SandboxInfraError m \<Rightarrow> Raise (ApplicationError m (lit ''SandboxInfraError'') False)
     | CancelledError \<Rightarrow>
         (case snd (runner_kill I q env (rs_run_id args) attempt) of
            Return _ \<Rightarrow> Raise CancelledError | Raise e' \<Rightarrow> Raise e' | Pending \<Rightarrow> Pending)
     | _ \<Rightarrow> Raise e)"
proof -
  have q: "admitted I s args q" using assms by (auto simp: admitted_def)
  have b: "snd (guarded_body (runner_preflight I q) (runner_run I s q) env args attempt) = Raise e"
    using assms(4) by (auto simp: guarded_body_end)
  show ?thesis
    by (cases e) (simp_all add: snd_run_sandbox [OF q] guarded_run_def snd_catch b,
      simp_all add: on_fault_def snd_ebind split: outcome.splits)
qed

theorem activity_fault_classification_witness:
  "\<forall>I. \<exists>m. snd (run_sandbox I default_settings 1 (sample_env [] [] [])
        ((sample_args 30)\<lparr>rs_runtime := lit ''firecracker''\<rparr>))
      = Raise (ApplicationError m (lit ''SandboxPolicyViolation'') True)"
proof (intro allI)
  fix I
  show "\<exists>m. snd (run_sandbox I default_settings 1 (sample_env [] [] [])
        ((sample_args 30)\<lparr>rs_runtime := lit ''firecracker''\<rparr>))
      = Raise (ApplicationError m (lit ''SandboxPolicyViolation'') True)"
  proof -
    let ?args = "(sample_args 30)\<lparr>rs_runtime := lit ''firecracker''\<rparr>"
    have "\<exists>m. snd (runner_preflight I FirecrackerRunner (sample_env [] [] []))
        = Raise (SandboxPolicyViolation m)"
      by (simp add: runner_preflight_def firecracker_preflight_def)
    then obtain m where m: "snd (runner_preflight I FirecrackerRunner (sample_env [] [] []))
        = Raise (SandboxPolicyViolation m)" by blast
    have c: "int (length (rs_code ?args)) \<le> max_code_bytes default_settings"
      "utf8_encode (rs_code ?args) = Inr (ascii_bytes ''pass'')"
      "get_runner I (rs_runtime ?args) = Inr FirecrackerRunner"
      by (simp_all add: default_settings_def utf8_encode_lit get_runner_def)
    show ?thesis
      using activity_fault_classification [OF c disjI1 [OF m]] by simp
  qed
qed

text \<open>
  C8. Cancellation tears the container down: when the activity ends by a cancellation after it
  launched a container, the last call that it issues to the sandbox is the forced removal of the
  container whose name is on the command line of the launch.
\<close>

theorem cancelled_activity_kills_container:
  assumes "snd (run_sandbox I s attempt env args) = Raise CancelledError"
    and "argv \<in> set (act_launches (run_sandbox I s attempt env args))"
  shows "\<exists>name. take 2 (drop 3 argv) = [lit ''--name'', name]
    \<and> last (sbx_events (fst (run_sandbox I s attempt env args)))
        = Control [lit ''docker'', lit ''rm'', lit ''-f'', name]"
proof -
  from assms(1) obtain q where q: "admitted I s args q"
    using run_sandbox_not_admitted [of I s args attempt env] by auto
  note ev = sbx_run_sandbox [OF q, of attempt env] and en = snd_run_sandbox [OF q, of attempt env]
  have n: "names_container I (rs_run_id args) attempt argv"
    and p: "snd (runner_preflight I q env) = Return ()"
    using dispatch.guarded_run_safe [of argv I q s env args attempt] assms(2)
    by (simp_all add: act_launches_def ev)
  obtain rt where g: "q = GvisorRunner rt"
    using p by (cases q) (auto simp: runner_preflight_def firecracker_preflight_def)
  obtain name where nm: "container_name I (rs_run_id args) attempt = Inr name"
    "take 2 (drop 3 argv) = [lit ''--name'', name]"
    using n by (auto simp: names_container_def split: sum.splits)
  have "suffix [Control [lit ''docker'', lit ''rm'', lit ''-f'', name]]
      (sbx_events (fst (run_sandbox I s attempt env args)))"
    using dispatch.guarded_run_cancelled [of I q s env args attempt] assms(1) nm(1)
    by (simp add: ev en g runner_kill_def fst_kill)
  with nm(2) show ?thesis by (auto simp: suffix_def)
qed

theorem cancelled_activity_kills_container_witness:
  "\<forall>I. \<exists>name. last (sbx_events (fst (run_sandbox I default_settings 1
        (sample_env [\<lparr>po_now = 0, po_wait = Wait_raises CancelledError\<rparr>] [] []) (sample_args 30))))
      = Control [lit ''docker'', lit ''rm'', lit ''-f'', name]"
proof (intro allI)
  fix I
  show "\<exists>name. last (sbx_events (fst (run_sandbox I default_settings 1
        (sample_env [\<lparr>po_now = 0, po_wait = Wait_raises CancelledError\<rparr>] [] []) (sample_args 30))))
      = Control [lit ''docker'', lit ''rm'', lit ''-f'', name]"
  proof -
    let ?env = "sample_env [\<lparr>po_now = 0, po_wait = Wait_raises CancelledError\<rparr>] [] []"
    let ?q = "GvisorRunner (lit ''runsc'')"
    have k: "snd (kill I (Comm_done (Some 0) [] []) (lit ''demo:1'') 1) = Return ()"
      by (simp add: kill_def container_name_sample control_def snd_ebind)
    have w: "snd (watch I default_settings (lit ''runsc'') ?env (sample_args 30) 1 True d)
        = Raise CancelledError" for d
      using k by (simp add: watch_def Let_def snd_ebind)
    have f: "snd (stage_files ?env tmp (lit ''pass'')) = Return ()" for tmp
      by (simp add: stage_files_def stage_def utf8_encode_lit)
    have d: "\<exists>d. snd (image_digest_of default_settings (Comm_done (Some 0) (ascii_bytes ''sha256:1'') []))
        = Return d"
      by (simp add: image_digest_of_def control_def Let_def)
    have r: "snd (gvisor_run I default_settings (lit ''runsc'') ?env (sample_args 30) 1 True)
        = Raise CancelledError"
      using w f d by (auto simp: gvisor_run_def in_staging_def snd_ebind snd_lift_res container_name_sample)
    have c: "snd (run_sandbox I default_settings 1 ?env (sample_args 30)) = Raise CancelledError"
      using r k by (simp add: sample_activity guarded_run_def snd_catch guarded_body_end
          runner_preflight_def runner_run_def sample_preflight on_fault_def snd_ebind runner_kill_def
          del: sample_env_simps(1))
    moreover obtain argv where "argv \<in> set (act_launches (run_sandbox I default_settings 1 ?env
        (sample_args 30)))"
      using sample_activity_launches by (metis list.set_intros(1) neq_Nil_conv)
    ultimately show ?thesis using cancelled_activity_kills_container by blast
  qed
qed

end
