(* ===== verification/Lifecycle.thy ===== *)
theory Lifecycle
  imports RunsApi
begin

text \<open>
  The life of a run as its readers see it: an abstract order of phases that every step of the
  workflow goes up in, the completed steps of a state, and the responses that a reader gets when
  the service's answers tell the states of a run.
\<close>

section \<open>Phases\<close>

datatype phase = Queued | Planning | Coding | Sandboxing | Summarizing | Closed

fun phase_rank :: "phase \<Rightarrow> nat" where
  "phase_rank Queued = 0"
| "phase_rank Planning = 1"
| "phase_rank Coding = 2"
| "phase_rank Sandboxing = 3"
| "phase_rank Summarizing = 4"
| "phase_rank Closed = 5"

lemma phase_rank_inject [simp]: "phase_rank a = phase_rank b \<longleftrightarrow> a = b"
  by (cases a; cases b) simp_all

instantiation phase :: linorder
begin

definition less_eq_phase :: "phase \<Rightarrow> phase \<Rightarrow> bool" where
  "less_eq_phase a b \<longleftrightarrow> phase_rank a \<le> phase_rank b"

definition less_phase :: "phase \<Rightarrow> phase \<Rightarrow> bool" where
  "less_phase a b \<longleftrightarrow> phase_rank a < phase_rank b"

instance
  by standard (auto simp: less_eq_phase_def less_phase_def dest: antisym)

end

fun phase_of :: "pc \<Rightarrow> phase" where
  "phase_of Start = Queued"
| "phase_of (Await_plan i) = Planning"
| "phase_of (Await_code i p) = Coding"
| "phase_of (Await_sandbox i p c) = Sandboxing"
| "phase_of (Await_summary i p c r) = Summarizing"
| "phase_of (Done r) = Closed"

text \<open>A step goes to the next phase, or closes the run.\<close>

inductive advance :: "phase \<Rightarrow> phase \<Rightarrow> bool" where
  to_next: "phase_rank b = Suc (phase_rank a) \<Longrightarrow> advance a b"
| to_end: "Queued < a \<Longrightarrow> a < Closed \<Longrightarrow> advance a Closed"

lemma advance_less: "advance a b \<Longrightarrow> a < b"
  by (induction rule: advance.induct) (auto simp: less_phase_def)

lemma phase_bounds [simp]: "Queued \<le> a" "a \<le> Closed"
  by (cases a; simp add: less_eq_phase_def)+

lemma step_advances: "wf_step inp c c' \<Longrightarrow> advance (phase_of (fst c)) (phase_of (fst c'))"
proof (induction rule: wf_step.induct)
  case (fault q i st e)
  then show ?case by (cases q) (auto simp: less_phase_def intro: advance.to_end)
next
  case (sandbox_failed r i p c st)
  then show ?case by (auto simp: less_phase_def intro: advance.to_end)
qed (auto intro: advance.to_next)

lemma phase_top [simp]: "Closed \<le> a \<longleftrightarrow> a = Closed" "\<not> Closed < a"
  by (cases a; simp add: less_eq_phase_def less_phase_def)+

text \<open>The workflow refines the order of phases: whatever it does is a sequence of advances.\<close>

lemma steps_advance:
  "(wf_step inp)\<^sup>*\<^sup>* c c' \<Longrightarrow> advance\<^sup>*\<^sup>* (phase_of (fst c)) (phase_of (fst c'))"
  by (induction rule: rtranclp_induct) (auto intro: rtranclp.rtrancl_into_rtrancl step_advances)

lemma advances_le: "advance\<^sup>*\<^sup>* a b \<Longrightarrow> a \<le> b"
  by (induction rule: rtranclp_induct) (auto dest: advance_less)

lemma steps_phase_le: "(wf_step inp)\<^sup>*\<^sup>* c c' \<Longrightarrow> phase_of (fst c) \<le> phase_of (fst c')"
  by (rule advances_le) (rule steps_advance)

lemma steps_phase_less:
  assumes "(wf_step inp)\<^sup>*\<^sup>* c c'" and "c \<noteq> c'"
  shows "phase_of (fst c) < phase_of (fst c')"
proof -
  from assms obtain d where "wf_step inp c d" "(wf_step inp)\<^sup>*\<^sup>* d c'"
    by (cases rule: converse_rtranclpE) auto
  then have "phase_of (fst c) < phase_of (fst d)" "phase_of (fst d) \<le> phase_of (fst c')"
    using advance_less step_advances steps_phase_le by blast+
  then show ?thesis by simp
qed

section \<open>The completed steps of a state\<close>

text \<open>In every state, also a final one, the completed steps are a part of the four that only grows.\<close>

definition completed_names :: "Workflow \<Rightarrow> pystr list" where
  "completed_names st = map st_name (filter (\<lambda>x. st_state x = lit ''completed'') (wf_steps st))"

lemma running_completed_names [simp]:
  "rsr_completed_steps (running run_id (status_query w st)) = completed_names st"
  by (simp add: running_def status_query_def completed_names_def)

lemma completed_names_upto:
  assumes "n < 4"
  shows "completed_names \<lparr>wf_stage = g, wf_steps = steps_upto n x d\<rparr>
    = take (if x = lit ''completed'' then Suc n else n) STEP_NAMES"
proof -
  from assms consider "n = 0" | "n = 1" | "n = 2" | "n = 3" by linarith
  then show ?thesis by cases (simp_all add: completed_names_def steps_upto_def STEP_NAMES_def)
qed

lemma completed_names_states [simp]:
  "completed_names init_workflow = []"
  "n < 4 \<Longrightarrow> completed_names (state_at n) = take n STEP_NAMES"
  "n < 4 \<Longrightarrow> completed_names (faulted n e) = take n STEP_NAMES"
  "completed_names (state_failed r) = take 2 STEP_NAMES"
  "completed_names state_completed = STEP_NAMES"
  by (simp_all add: state_at_def faulted_def state_failed_def state_completed_def completed_names_upto)
    (simp_all add: completed_names_def init_workflow_def STEP_NAMES_def)

lemma take_prefix: "m \<le> n \<Longrightarrow> prefix (take m xs) (take n xs)"
  by (metis min.absorb1 take_is_prefix take_take)

lemma step_completed_names:
  assumes "wf_step inp k k'" and "wf_inv inp k"
  shows "prefix (completed_names (snd k)) (completed_names (snd k'))"
  using assms
proof (cases rule: wf_step.cases)
  case (fault q i st e)
  then show ?thesis using wf_inv_await [of q i inp st e] assms(2) by auto
next
  case (summary i p c r st m)
  then show ?thesis using assms(2) by (auto simp: take_is_prefix)
qed (use assms(2) in \<open>auto intro: take_prefix\<close>)

lemma steps_completed_names:
  assumes "(wf_step inp)\<^sup>*\<^sup>* k k'" and "wf_reaches inp k"
  shows "prefix (completed_names (snd k)) (completed_names (snd k'))"
  using assms
proof (induction rule: rtranclp_induct)
  case (step k1 k2)
  then have "wf_inv inp k1" using wf_inv_reaches [of inp k1] by (auto intro: rtranclp_trans)
  with step step_completed_names [OF step(2)] show ?case by (auto intro: prefix_order.trans)
qed simp

section \<open>What the service says of a run\<close>

text \<open>
  The answers to a handler that describes a run in one state and asks for more in a later one: an
  open run is running and answers the query with its attributes at that later time, a returned
  one is completed and its result can be fetched, and a run that raised has one of the four other
  terminal statuses and fetching its result raises.
\<close>

definition reflects :: "pystr \<Rightarrow> client \<Rightarrow> conf \<Rightarrow> conf \<Rightarrow> bool" where
  "reflects w c k k' =
     (case fst k of
        Done (Inr res) \<Rightarrow>
          (\<exists>d. cl_describe c = Inr d \<and> de_status d = Some COMPLETED) \<and> cl_result c = Inr res
      | Done (Inl e) \<Rightarrow>
          (\<exists>d x. cl_describe c = Inr d \<and> de_status d = Some x
             \<and> x \<in> {FAILED, CANCELED, TERMINATED, TIMED_OUT})
          \<and> (\<exists>e'. cl_result c = Inl e' \<and> is_Exception e')
      | _ \<Rightarrow>
          (\<exists>d. cl_describe c = Inr d \<and> de_status d = Some RUNNING)
          \<and> cl_query c = Inr (status_query w (snd k')))"

lemma reflects_open:
  assumes "reflects w c k k'" and "phase_of (fst k) \<noteq> Closed"
  shows "snd (resolve_status I c run_id) = Return (running run_id (status_query w (snd k')))"
  using assms
  by (cases "fst k") (auto simp: reflects_def resolve_status_def or_not_found_def eff_unfold)

lemma reflects_returned:
  assumes "reflects w c (Done (Inr res), st) k'"
  shows "snd (resolve_status I c run_id) = Return (completed run_id res)"
  using assms by (auto simp: reflects_def resolve_status_def or_not_found_def eff_unfold)

lemma reflects_raised:
  assumes "reflects w c (Done (Inl e), st) k'"
  shows "\<exists>r. snd (resolve_status I c run_id) = Return r
    \<and> rsr_status r \<in> {lit ''FAILED'', lit ''TIMED_OUT'', lit ''CANCELLED''}"
proof -
  from assms obtain d x e' where "cl_describe c = Inr d" "de_status d = Some x"
    "x \<noteq> RUNNING" "x \<noteq> COMPLETED" "cl_result c = Inl e'" "is_Exception e'"
    by (auto simp: reflects_def)
  then show ?thesis
    using terminal_status_TERMINAL [of "Some x"]
    by (simp add: resolve_status_def or_not_found_def terminal_failure_def eff_unfold Let_def)
qed

lemma closed_stays: "(wf_step inp)\<^sup>*\<^sup>* k k' \<Longrightarrow> phase_of (fst k) = Closed \<Longrightarrow> k' = k"
  using steps_phase_less [of inp k k'] by auto

definition sample_reader :: "description \<Rightarrow> RunStatus result \<Rightarrow> RunResult result \<Rightarrow> client" where
  "sample_reader d q r =
     \<lparr>cl_start = Inr (), cl_describe = Inr d, cl_query = q, cl_result = r, cl_cancel = Inr (), cl_str = exn_name\<rparr>"

lemma sample_reader_simps [simp]:
  "cl_describe (sample_reader d q r) = Inr d" "cl_query (sample_reader d q r) = q"
  "cl_result (sample_reader d q r) = r"
  by (simp_all add: sample_reader_def)

definition sample_description :: "wf_status \<Rightarrow> description" where
  "sample_description x = \<lparr>de_status = Some x, de_memo = Memo_method\<rparr>"

lemma sample_description_status [simp]: "de_status (sample_description x) = Some x"
  by (simp add: sample_description_def)

end
