(* ===== verification/Execution.thy ===== *)
theory Execution
  imports AgentActivities SandboxActivity Lifecycle
begin

text \<open>
  A run with its activities: the workflow moves on only with values that its own activities
  returned in some attempt, and the state of the run tells what they were.  Nothing is said of
  how often an activity is tried; faults, timeouts and cancellations are the exceptions with
  which any of the four calls may end.
\<close>

section \<open>Steps with the activities' answers\<close>

definition sandbox_ran ::
  "interp \<Rightarrow> Settings \<Rightarrow> RunInput \<Rightarrow> pystr \<Rightarrow> SandboxResult \<Rightarrow> bool" where
  "sandbox_ran I s inp code r \<longleftrightarrow> (\<exists>env k. snd (run_sandbox I s k env (sandbox_args inp code)) = Return r)"

text \<open>The value with which a call ended is one that its activity returned, for the argument of the
  call; \<open>s\<close> are the settings of the worker.\<close>

fun answered :: "interp \<Rightarrow> Settings \<Rightarrow> RunInput \<Rightarrow> pc \<Rightarrow> pc \<Rightarrow> bool" where
  "answered I s inp (Await_plan i) (Await_code j p) =
     (\<exists>k. snd (plan_act I (ri_run_id inp) k (ri_task inp)) = Return p)"
| "answered I s inp (Await_code i p) (Await_sandbox j q code) =
     (\<exists>k. snd (generate_code_act I s (ri_run_id inp) k p) = Return code)"
| "answered I s inp (Await_sandbox i p code) (Await_summary j q c r) = sandbox_ran I s inp code r"
| "answered I s inp (Await_sandbox i p code) (Done (Inr res)) =
     (\<exists>r. rr_sandbox res = Some r \<and> sandbox_ran I s inp code r)"
| "answered I s inp (Await_summary i p code r) (Done (Inr res)) =
     (\<exists>k m. rr_summary res = Some m
        \<and> snd (summarize_act (ri_run_id inp) k \<lparr>sa_plan = p, sa_sandbox = r\<rparr>) = Return m)"
| "answered I s inp _ _ = True"

definition run_step_of :: "interp \<Rightarrow> Settings \<Rightarrow> RunInput \<Rightarrow> conf \<Rightarrow> conf \<Rightarrow> bool" where
  "run_step_of I s inp k k' \<longleftrightarrow> wf_step inp k k' \<and> answered I s inp (fst k) (fst k')"

lemma run_step_wf: "run_step_of I s inp k k' \<Longrightarrow> wf_step inp k k'"
  by (simp add: run_step_of_def)

section \<open>What a state tells of its run\<close>

definition planned :: "interp \<Rightarrow> RunInput \<Rightarrow> Plan \<Rightarrow> bool" where
  "planned I inp p \<longleftrightarrow> p = plan (case_tab I) (ri_task inp)"

definition coded :: "interp \<Rightarrow> RunInput \<Rightarrow> Plan \<Rightarrow> pystr \<Rightarrow> bool" where
  "coded I inp p code \<longleftrightarrow> planned I inp p \<and> generate_code p = Inr code"

definition finished :: "interp \<Rightarrow> Settings \<Rightarrow> RunInput \<Rightarrow> RunResult \<Rightarrow> bool" where
  "finished I s inp res \<longleftrightarrow>
     (\<exists>p code r. coded I inp p code \<and> sandbox_ran I s inp code r
        \<and> res = (if ok r
                 then RunResult_completed (ri_run_id inp) (summarize \<lparr>sa_plan = p, sa_sandbox = r\<rparr>) code r
                 else failed_result inp code r))"

fun tells :: "interp \<Rightarrow> Settings \<Rightarrow> RunInput \<Rightarrow> pc \<Rightarrow> bool" where
  "tells I s inp (Await_code i p) = planned I inp p"
| "tells I s inp (Await_sandbox i p code) = coded I inp p code"
| "tells I s inp (Await_summary i p code r) = (coded I inp p code \<and> sandbox_ran I s inp code r \<and> ok r)"
| "tells I s inp (Done (Inr res)) = finished I s inp res"
| "tells I s inp _ = True"

lemma plan_act_planned:
  "snd (plan_act I wid k (ri_task inp)) = Return p \<Longrightarrow> planned I inp p"
  by (simp add: agent_activity_results planned_def split: sum.splits)

lemma code_act_coded:
  "planned I inp p \<Longrightarrow> snd (generate_code_act I s wid k p) = Return code \<Longrightarrow> coded I inp p code"
  by (simp add: agent_activity_results coded_def split: sum.splits)

lemma step_tells:
  assumes "run_step_of I s inp k k'" and "tells I s inp (fst k)"
  shows "tells I s inp (fst k')"
proof -
  have "wf_step inp k k'" and a: "answered I s inp (fst k) (fst k')"
    using assms(1) by (simp_all add: run_step_of_def)
  then show ?thesis
    using assms(2)
  proof (cases rule: wf_step.cases)
    case (plan i st p)
    then show ?thesis using a by (auto intro: plan_act_planned)
  next
    case (code i p st c)
    then show ?thesis using a assms(2) by (auto intro: code_act_coded)
  next
    case (sandbox_failed r i p c st)
    then have "rr_sandbox (failed_result inp c r) = Some r"
      by (simp add: failed_result_def RunResult_failed_def)
    then have "sandbox_ran I s inp c r" using a sandbox_failed by simp
    moreover have "coded I inp p c" using assms(2) sandbox_failed by simp
    ultimately show ?thesis using sandbox_failed by (auto simp: finished_def)
  next
    case (summary i p c r st m)
    then have "m = summarize \<lparr>sa_plan = p, sa_sandbox = r\<rparr>"
      using a by (simp add: agent_activity_results RunResult_completed_def)
    then show ?thesis using assms(2) summary by (auto simp: finished_def)
  qed auto
qed

text \<open>A run that finished was executed: its code is the program of the task, a sandbox with a passed
  preflight check ran that program, and the result reports that run.\<close>

lemma finished_executed:
  assumes "finished I s inp res" and "ri_task inp = task"
  shows "\<exists>code sb env k. generate_program (parse_directive (case_tab I) task) task = Inr code
    \<and> snd (preflight I (ri_sandbox_runtime inp) (re_preflight env)) = Return ()
    \<and> snd (gvisor_run I s (ri_sandbox_runtime inp) env (sandbox_args inp code) k True) = Return sb
    \<and> rr_code res = Some code \<and> rr_sandbox res = Some sb
    \<and> (rr_status res = lit ''completed'') = ok sb
    \<and> (ok sb \<longrightarrow> rr_summary res = Some (summarize \<lparr>sa_plan = plan (case_tab I) task, sa_sandbox = sb\<rparr>))"
proof -
  obtain p code r where c: "coded I inp p code" "sandbox_ran I s inp code r"
    and res: "res = (if ok r
                 then RunResult_completed (ri_run_id inp) (summarize \<lparr>sa_plan = p, sa_sandbox = r\<rparr>) code r
                 else failed_result inp code r)"
    using assms(1) unfolding finished_def by blast
  obtain env k where e: "snd (run_sandbox I s k env (sandbox_args inp code)) = Return r"
    using c(2) unfolding sandbox_ran_def by blast
  have a: "rs_runtime (sandbox_args inp code) = ri_sandbox_runtime inp" by (simp add: sandbox_args_def)
  have "generate_program (parse_directive (case_tab I) task) task = Inr code" "p = plan (case_tab I) task"
    using c(1) assms(2) by (auto simp: coded_def planned_def generate_code_def)
  moreover have "rr_code res = Some code \<and> rr_sandbox res = Some r
      \<and> (rr_status res = lit ''completed'') = ok r
      \<and> (ok r \<longrightarrow> rr_summary res = Some (summarize \<lparr>sa_plan = p, sa_sandbox = r\<rparr>))"
    by (simp add: res failed_result_def RunResult_completed_def RunResult_failed_def)
  ultimately show ?thesis
    using e [unfolded activity_result_cases a]
    by (intro exI [of _ code] exI [of _ r] exI [of _ env] exI [of _ k]) simp
qed

section \<open>Programs of a task\<close>

lemma utf8_length:
  assumes "utf8_encode t = Inr b"
  shows "length b = length (concat (map utf8_units t))"
  using assms by (auto simp: utf8_encode_def split: if_splits)

lemma plan_code:
  assumes "utf8_encode task = Inr b"
  shows "\<exists>code. generate_code (plan tab task) = Inr code \<and> is_ascii code
    \<and> int (length code) \<le> 6 * int (length b) + 514"
proof -
  obtain code where c: "generate_program (parse_directive tab task) task = Inr code"
    using parse_directive_in [of tab task] generate_program_known by blast
  with generated_bounds [OF c] utf8_length [OF assms] show ?thesis
    by (intro exI [of _ code]) (simp add: generate_code_def)
qed

section \<open>A sample run\<close>

lemma sample_sandbox_activity:
  assumes "is_ascii code" and "length code \<le> 262144" and "wall_clock_s limits = 30"
    and "rc \<notin> {125, 126, 127, 137}"
  shows "\<exists>r. snd (run_sandbox I default_settings 1 (sample_env [exit_poll rc] [] [])
      \<lparr>rs_run_id = lit ''demo:1'', rs_tenant_id = lit ''demo'', rs_code = code, rs_limits = limits,
       rs_runtime = lit ''runsc''\<rparr>) = Return r
    \<and> exit_code r = rc \<and> \<not> oom_killed r \<and> \<not> wall_clock_exceeded r"
proof -
  let ?args = "\<lparr>rs_run_id = lit ''demo:1'', rs_tenant_id = lit ''demo'', rs_code = code,
    rs_limits = limits, rs_runtime = lit ''runsc''\<rparr>"
  have "\<exists>r. snd (gvisor_run I default_settings (lit ''runsc'') (sample_env [exit_poll rc] [] []) ?args 1 True)
      = Return r \<and> exit_code r = rc \<and> \<not> oom_killed r \<and> \<not> wall_clock_exceeded r"
    using assms by (subst sample_run_args)
      (auto simp: exit_result_def safe_def classify_infra_def LAUNCH_RCS_def Let_def split: prod.split)
  then show ?thesis
    using assms sample_preflight [of I "[exit_poll rc]" "[]" "[]"]
    by (auto simp: activity_result_cases default_settings_def utf8_encode_ascii)
qed

text \<open>A run of a short task under the default settings, whose program exits with 0.\<close>

lemma sample_run_completes:
  assumes "ri_run_id inp = lit ''demo:1''" and "ri_tenant_id inp = lit ''demo''"
    and "ri_sandbox_runtime inp = lit ''runsc''" and "wall_clock_s (ri_limits inp) = 30"
    and "utf8_encode (ri_task inp) = Inr b" and "is_ascii code" and "length code \<le> 262144"
    and "generate_code (plan (case_tab I) (ri_task inp)) = Inr code"
  shows "\<exists>res sb. (run_step_of I default_settings inp)\<^sup>*\<^sup>* (Start, init_workflow) (Done (Inr res), state_completed)
    \<and> rr_status res = lit ''completed'' \<and> rr_sandbox res = Some sb \<and> exit_code sb = 0"
proof -
  let ?p = "plan (case_tab I) (ri_task inp)"
  have "sandbox_args inp code = \<lparr>rs_run_id = lit ''demo:1'', rs_tenant_id = lit ''demo'', rs_code = code,
      rs_limits = ri_limits inp, rs_runtime = lit ''runsc''\<rparr>"
    using assms(1-3) by (simp add: sandbox_args_def)
  then obtain r where r: "snd (run_sandbox I default_settings 1 (sample_env [exit_poll 0] [] [])
      (sandbox_args inp code)) = Return r" "ok r" "exit_code r = 0"
    using sample_sandbox_activity [OF assms(6,7,4), of 0 I] by (auto simp: ok_def)
  then have ran: "sandbox_ran I default_settings inp code r" unfolding sandbox_ran_def by blast
  let ?m = "summarize \<lparr>sa_plan = ?p, sa_sandbox = r\<rparr>"
  let ?res = "RunResult_completed (ri_run_id inp) ?m code r"
  have plan: "snd (plan_act I wid k (ri_task inp)) = Return ?p"
    and gen: "snd (generate_code_act I default_settings wid k ?p) = Return code"
    and sum: "snd (summarize_act wid k \<lparr>sa_plan = ?p, sa_sandbox = r\<rparr>) = Return ?m" for wid k
    using assms(5,8) by (simp_all add: agent_activity_results)
  have "run_step_of I default_settings inp (Start, init_workflow) (Await_plan 0, state_at 0)"
    using wf_step.start [of inp init_workflow] by (simp add: run_step_of_def)
  moreover have "run_step_of I default_settings inp (Await_plan 0, state_at 0) (Await_code 1 ?p, state_at 1)"
    using wf_step.plan [of inp 0 "state_at 0" ?p] plan by (simp add: run_step_of_def)
  moreover have "run_step_of I default_settings inp (Await_code 1 ?p, state_at 1) (Await_sandbox 2 ?p code, state_at 2)"
    using wf_step.code [of inp 1 ?p "state_at 1" code] gen by (simp add: run_step_of_def)
  moreover have "run_step_of I default_settings inp (Await_sandbox 2 ?p code, state_at 2)
      (Await_summary 3 ?p code r, state_at 3)"
    using wf_step.sandbox_ok [OF r(2), of inp 2 ?p code "state_at 2"] r(2) ran by (simp add: run_step_of_def)
  moreover have "run_step_of I default_settings inp (Await_summary 3 ?p code r, state_at 3)
      (Done (Inr ?res), state_completed)"
    using wf_step.summary [of inp 3 ?p code r "state_at 3" ?m] sum
    by (simp add: run_step_of_def RunResult_completed_def)
  ultimately have "(run_step_of I default_settings inp)\<^sup>*\<^sup>* (Start, init_workflow) (Done (Inr ?res), state_completed)"
    by (meson converse_rtranclp_into_rtranclp rtranclp.rtrancl_refl)
  with r(3) show ?thesis
    by (intro exI [of _ ?res] exI [of _ r]) (simp add: RunResult_completed_def)
qed

end
