(* ===== verification/Service.thy ===== *)
theory Service
  imports Replies Execution
begin

text \<open>
  The service as a whole: requests to the application, in any order and by anyone, while the
  workflows of the started runs move on.  The state is the orchestration service's table of runs.
  A request is an exchange, whose reply is that of \<open>app\<close> for answers that the table allows; between
  and during exchanges, runs take the steps of their workflows.  The API and the worker have
  settings of their own, \<open>s\<close> and \<open>sw\<close>.
\<close>

section \<open>The table of runs\<close>

text \<open>A run: the request and the call that started it, whether a cancellation was asked for, and the
  state of its workflow.\<close>

record job =
  jb_request :: RunRequest
  jb_start :: start_call
  jb_cancel :: bool
  jb_conf :: conf

type_synonym jobs = "pystr \<rightharpoonup> job"

definition new_job :: "RunRequest \<Rightarrow> start_call \<Rightarrow> job" where
  "new_job r sc = \<lparr>jb_request = r, jb_start = sc, jb_cancel = False, jb_conf = (Start, init_workflow)\<rparr>"

abbreviation job_input :: "job \<Rightarrow> RunInput" where
  "job_input j \<equiv> sc_input (jb_start j)"

text \<open>One run moves on.\<close>

inductive move :: "interp \<Rightarrow> Settings \<Rightarrow> jobs \<Rightarrow> jobs \<Rightarrow> bool" for I sw where
  "\<lbrakk>jobs w = Some j; run_step_of I sw (job_input j) (jb_conf j) k\<rbrakk> \<Longrightarrow>
    move I sw jobs (jobs(w \<mapsto> j\<lparr>jb_conf := k\<rparr>))"

text \<open>
  What a description says of a run: an open run is running, a returned one is completed, and a run
  that raised has one of the four other terminal statuses, the one for a cancellation only if
  one was asked for.
\<close>

definition describes :: "description \<Rightarrow> job \<Rightarrow> bool" where
  "describes d j =
     (case fst (jb_conf j) of
        Done (Inr res) \<Rightarrow> de_status d = Some COMPLETED
      | Done (Inl e) \<Rightarrow>
          (\<exists>x. de_status d = Some x \<and> x \<in> {FAILED, CANCELED, TERMINATED, TIMED_OUT}
             \<and> (x = CANCELED \<longrightarrow> jb_cancel j))
      | _ \<Rightarrow> de_status d = Some RUNNING)"

text \<open>
  The service's answers about a run, to a handler that describes it in one state of the table and
  queries it, or fetches its result, in a later one.  Each call may fail instead, in any way; the
  description of an unknown run fails.
\<close>

definition answers :: "pystr \<Rightarrow> client \<Rightarrow> job option \<Rightarrow> job option \<Rightarrow> bool" where
  "answers w c before after \<longleftrightarrow>
     (\<forall>d. cl_describe c = Inr d \<longrightarrow> (\<exists>j. before = Some j \<and> describes d j))
     \<and> (\<forall>j. after = Some j \<longrightarrow>
          (\<forall>q. cl_query c = Inr q \<longrightarrow> q = status_query w (snd (jb_conf j)))
          \<and> (\<forall>res. cl_result c = Inr res \<longrightarrow> fst (jb_conf j) = Done (Inr res)))"

section \<open>Exchanges\<close>

record exchange =
  ex_request :: http_request
  ex_route :: route
  ex_outcome :: "reply outcome"

definition serve :: "interp \<Rightarrow> Settings \<Rightarrow> app_env \<Rightarrow> http_request \<Rightarrow> route \<Rightarrow> exchange" where
  "serve I s env req rt = \<lparr>ex_request = req, ex_route = rt, ex_outcome = snd (app I s env req rt)\<rparr>"

lemma serve_simps [simp]:
  "ex_request (serve I s env req rt) = req" "ex_route (serve I s env req rt) = rt"
  "ex_outcome (serve I s env req rt) = snd (app I s env req rt)"
  by (simp_all add: serve_def)

definition ask_cancel :: "pystr \<Rightarrow> jobs \<Rightarrow> jobs" where
  "ask_cancel w jobs = (case jobs w of None \<Rightarrow> jobs | Some j \<Rightarrow> jobs(w \<mapsto> j\<lparr>jb_cancel := True\<rparr>))"

text \<open>
  An exchange: one that starts no run; one that starts a run under an identifier that no run has,
  whether or not its reply tells so (a duplicate is rejected, which the service documents for as
  long as it retains the run); a read or the opening of a stream, during which runs move on; and a
  cancellation, which the service may have taken even if the reply was lost.
\<close>

inductive exchanges :: "interp \<Rightarrow> Settings \<Rightarrow> Settings \<Rightarrow> jobs \<Rightarrow> exchange \<Rightarrow> jobs \<Rightarrow> bool" for I s sw where
  probe: "\<lbrakk>foreign_errors env; rt = Healthz \<or> rt = Readyz\<rbrakk> \<Longrightarrow>
    exchanges I s sw jobs (serve I s env req rt) jobs"
| no_start: "\<lbrakk>foreign_errors env;
      cl_start (ae_client env) \<noteq> Inr () \<or> (\<forall>sc. Start_workflow sc \<notin> set (fst (app I s env req Post_runs)))\<rbrakk> \<Longrightarrow>
    exchanges I s sw jobs (serve I s env req Post_runs) jobs"
| new_run: "\<lbrakk>foreign_errors env; hr_body req = Body r;
      Start_workflow sc \<in> set (fst (app I s env req Post_runs)); jobs (sc_id sc) = None\<rbrakk> \<Longrightarrow>
    exchanges I s sw jobs (serve I s env req Post_runs) (jobs(sc_id sc \<mapsto> new_job r sc))"
| read: "\<lbrakk>foreign_errors env; rt = Get_run_route w \<or> rt = Stream_route w; (move I sw)\<^sup>*\<^sup>* jobs jobs';
      answers w (ae_client env) (jobs w) (jobs' w)\<rbrakk> \<Longrightarrow>
    exchanges I s sw jobs (serve I s env req rt) jobs'"
| cancel: "\<lbrakk>foreign_errors env;
      jobs' = jobs \<or> jobs' = ask_cancel w jobs \<and> Cancel_workflow w \<in> set (fst (app I s env req (Cancel_route w)))\<rbrakk> \<Longrightarrow>
    exchanges I s sw jobs (serve I s env req (Cancel_route w)) jobs'"

text \<open>A service in operation: the exchanges so far and the table they left.\<close>

inductive served :: "interp \<Rightarrow> Settings \<Rightarrow> Settings \<Rightarrow> exchange list \<Rightarrow> jobs \<Rightarrow> bool" for I s sw where
  boot: "served I s sw [] Map.empty"
| progress: "\<lbrakk>served I s sw tr jobs; move I sw jobs jobs'\<rbrakk> \<Longrightarrow> served I s sw tr jobs'"
| exchange: "\<lbrakk>served I s sw tr jobs; exchanges I s sw jobs x jobs'\<rbrakk> \<Longrightarrow> served I s sw (tr @ [x]) jobs'"

section \<open>Runs only move on\<close>

definition later :: "job \<Rightarrow> job \<Rightarrow> bool" where
  "later j j' \<longleftrightarrow> jb_request j' = jb_request j \<and> jb_start j' = jb_start j
     \<and> (wf_step (job_input j))\<^sup>*\<^sup>* (jb_conf j) (jb_conf j') \<and> (jb_cancel j \<longrightarrow> jb_cancel j')"

lemma later_refl [simp]: "later j j"
  by (simp add: later_def)

lemma later_trans: "later j j' \<Longrightarrow> later j' j'' \<Longrightarrow> later j j''"
  unfolding later_def by (auto intro: rtranclp_trans)

definition evolves :: "jobs \<Rightarrow> jobs \<Rightarrow> bool" where
  "evolves jobs jobs' \<longleftrightarrow> (\<forall>w j. jobs w = Some j \<longrightarrow> (\<exists>j'. jobs' w = Some j' \<and> later j j'))"

lemma evolves_refl [simp]: "evolves jobs jobs"
  by (simp add: evolves_def)

lemma evolves_trans: "evolves jobs jobs' \<Longrightarrow> evolves jobs' jobs'' \<Longrightarrow> evolves jobs jobs''"
  unfolding evolves_def by (meson later_trans)

lemma evolves_fresh: "jobs w = None \<Longrightarrow> evolves jobs (jobs(w \<mapsto> j))"
  by (auto simp: evolves_def)

lemma move_evolves: "move I sw jobs jobs' \<Longrightarrow> evolves jobs jobs'"
proof (induction rule: move.induct)
  case (1 jobs w j k)
  then have "later j (j\<lparr>jb_conf := k\<rparr>)" by (auto simp: later_def dest: run_step_wf)
  with 1(1) show ?case by (auto simp: evolves_def)
qed

lemma moves_evolve: "(move I sw)\<^sup>*\<^sup>* jobs jobs' \<Longrightarrow> evolves jobs jobs'"
  by (induction rule: rtranclp_induct) (auto intro: evolves_trans move_evolves)

lemma ask_cancel_evolves: "evolves jobs (ask_cancel w jobs)"
  by (auto simp: evolves_def ask_cancel_def later_def split: option.split)

lemma exchanges_evolve: "exchanges I s sw jobs x jobs' \<Longrightarrow> evolves jobs jobs'"
proof (induction rule: exchanges.induct)
  case (new_run env jobs req r sc)
  show ?case by (rule evolves_fresh) (rule new_run.hyps(4))
qed (auto intro: moves_evolve ask_cancel_evolves)

text \<open>The table at an earlier point of an operation, and at each of its exchanges.\<close>

lemma served_earlier:
  "served I s sw (tr @ us) jobs \<Longrightarrow> \<exists>jobs0. served I s sw tr jobs0 \<and> evolves jobs0 jobs"
proof (induction "tr @ us" jobs arbitrary: us rule: served.induct)
  case boot
  then show ?case by (auto intro: served.boot)
next
  case (progress jobs jobs')
  then show ?case using move_evolves evolves_trans by blast
next
  case (exchange tr' jobs x jobs')
  show ?case
  proof (cases us rule: rev_cases)
    case Nil
    with exchange show ?thesis by (metis append_Nil2 evolves_refl served.exchange)
  next
    case (snoc vs y)
    with exchange(2,4) have "\<exists>jobs0. served I s sw tr jobs0 \<and> evolves jobs0 jobs" by auto
    then show ?thesis using exchanges_evolve [OF exchange(3)] evolves_trans by blast
  qed
qed

lemma served_at:
  "served I s sw (tr @ x # us) jobs \<Longrightarrow>
     \<exists>jobs0 jobs1. served I s sw tr jobs0 \<and> exchanges I s sw jobs0 x jobs1 \<and> evolves jobs1 jobs"
proof (induction "tr @ x # us" jobs arbitrary: us rule: served.induct)
  case (progress jobs jobs')
  then show ?case using move_evolves evolves_trans by blast
next
  case (exchange tr' jobs y jobs')
  show ?case
  proof (cases us rule: rev_cases)
    case Nil
    with exchange show ?thesis by (auto intro: evolves_refl)
  next
    case (snoc vs z)
    with exchange(2,4) obtain jobs0 jobs1 where "served I s sw tr jobs0"
      "exchanges I s sw jobs0 x jobs1" "evolves jobs1 jobs" by fastforce
    then show ?thesis using exchanges_evolve [OF exchange(3)] evolves_trans by blast
  qed
qed simp

section \<open>The invariant of the table\<close>

definition submitted :: "Settings \<Rightarrow> exchange list \<Rightarrow> RunRequest \<Rightarrow> bool" where
  "submitted s tr r \<longleftrightarrow>
     (\<exists>x \<in> set tr. ex_route x = Post_runs \<and> hr_body (ex_request x) = Body r \<and> has_token s (ex_request x))"

definition cancel_asked :: "Settings \<Rightarrow> exchange list \<Rightarrow> pystr \<Rightarrow> bool" where
  "cancel_asked s tr w \<longleftrightarrow>
     (\<exists>x \<in> set tr. ex_route x = Cancel_route w \<and> has_token s (ex_request x))"

lemma asked_mono:
  "submitted s tr r \<Longrightarrow> submitted s (tr @ us) r"
  "cancel_asked s tr w \<Longrightarrow> cancel_asked s (tr @ us) w"
  by (auto simp: submitted_def cancel_asked_def)

text \<open>A run in the table was submitted with the token under its own identifier, within the limit of
  the task and with the input of its request, is in a reachable state of its workflow that tells the truth, and is marked as
  cancelled only if that was asked for with the token.\<close>

definition job_ok ::
  "interp \<Rightarrow> Settings \<Rightarrow> Settings \<Rightarrow> exchange list \<Rightarrow> pystr \<Rightarrow> job \<Rightarrow> bool" where
  "job_ok I s sw tr w j \<longleftrightarrow>
     submitted s tr (jb_request j)
     \<and> (\<exists>b. utf8_encode (rq_task (jb_request j)) = Inr b \<and> int (length b) \<le> max_task_bytes s)
     \<and> workflow_id I (jb_request j) = Inr w
     \<and> sc_id (jb_start j) = w \<and> job_input j = run_input s (jb_request j) w
     \<and> wf_reaches (job_input j) (jb_conf j) \<and> tells I sw (job_input j) (fst (jb_conf j))
     \<and> (jb_cancel j \<longrightarrow> cancel_asked s tr w)"

definition table_ok :: "interp \<Rightarrow> Settings \<Rightarrow> Settings \<Rightarrow> exchange list \<Rightarrow> jobs \<Rightarrow> bool" where
  "table_ok I s sw tr jobs \<longleftrightarrow> (\<forall>w j. jobs w = Some j \<longrightarrow> job_ok I s sw tr w j)"

lemma table_ok_append: "table_ok I s sw tr jobs \<Longrightarrow> table_ok I s sw (tr @ us) jobs"
  using asked_mono unfolding table_ok_def job_ok_def by blast

lemma table_ok_upd:
  assumes "table_ok I s sw tr jobs" and "job_ok I s sw tr w j"
  shows "table_ok I s sw tr (jobs(w \<mapsto> j))"
  using assms by (simp add: table_ok_def)

lemma move_ok:
  assumes "move I sw jobs jobs'" and "table_ok I s sw tr jobs"
  shows "table_ok I s sw tr jobs'"
  using assms
proof (induction rule: move.induct)
  case (1 jobs w j k)
  have ok: "job_ok I s sw tr w j" using 1 by (simp add: table_ok_def)
  have "wf_reaches (job_input j) k" "tells I sw (job_input j) (fst k)"
    using ok step_tells [OF 1(2)] run_step_wf [OF 1(2)] rtranclp.rtrancl_into_rtrancl
    unfolding job_ok_def by metis+
  with ok have "job_ok I s sw tr w (j\<lparr>jb_conf := k\<rparr>)" by (simp add: job_ok_def)
  with 1(3) show ?case by (rule table_ok_upd)
qed

lemma moves_ok: "(move I sw)\<^sup>*\<^sup>* jobs jobs' \<Longrightarrow> table_ok I s sw tr jobs \<Longrightarrow> table_ok I s sw tr jobs'"
  by (induction rule: rtranclp_induct) (auto intro: move_ok)

lemma new_job_ok:
  assumes "Start_workflow sc \<in> set (fst (app I s env req Post_runs))" and "hr_body req = Body r"
    and "ex_request x = req" and "ex_route x = Post_runs"
  shows "job_ok I s sw (tr @ [x]) (sc_id sc) (new_job r sc)"
proof -
  obtain q where q: "has_token s req" "hr_body req = Body q"
    "Start_workflow sc \<in> set (fst (create_run I s (ae_client env) q))"
    using submit_calls [OF assms(1)] by blast
  then have "workflow_id I r = Inr (sc_id sc)" "sc_input sc = run_input s r (sc_id sc)"
    "\<exists>b. utf8_encode (rq_task r) = Inr b \<and> int (length b) \<le> max_task_bytes s"
    using create_run_start_call [OF q(3)] assms(2) by auto
  with q(1) assms show ?thesis
    by (auto simp: job_ok_def new_job_def submitted_def)
qed

lemma ask_cancel_ok:
  assumes "table_ok I s sw tr jobs" and "cancel_asked s tr w"
  shows "table_ok I s sw tr (ask_cancel w jobs)"
proof (cases "jobs w")
  case (Some j)
  then have "job_ok I s sw tr w j" using assms(1) by (simp add: table_ok_def)
  with assms(2) have "job_ok I s sw tr w (j\<lparr>jb_cancel := True\<rparr>)" by (auto simp: job_ok_def)
  with assms(1) Some show ?thesis by (simp add: ask_cancel_def table_ok_upd)
qed (use assms in \<open>simp add: ask_cancel_def\<close>)

lemma exchanges_ok:
  assumes "exchanges I s sw jobs x jobs'" and "table_ok I s sw tr jobs"
  shows "table_ok I s sw (tr @ [x]) jobs'"
  using assms
proof (induction rule: exchanges.induct)
  case (new_run env jobs req r sc)
  show ?case
    by (rule table_ok_upd [OF table_ok_append [OF new_run.prems]])
      (rule new_job_ok [OF new_run.hyps(3,2)], simp_all)
next
  case (read env rt w jobs jobs' req)
  show ?case by (rule table_ok_append) (rule moves_ok [OF read.hyps(3) read.prems])
next
  case (cancel env jobs' jobs w req)
  let ?x = "serve I s env req (Cancel_route w)"
  have ok: "table_ok I s sw (tr @ [?x]) jobs" using cancel.prems by (rule table_ok_append)
  show ?case
  proof (cases "jobs' = jobs")
    case False
    then have c: "jobs' = ask_cancel w jobs" "Cancel_workflow w \<in> set (fst (app I s env req (Cancel_route w)))"
      using cancel.hyps(2) by blast+
    then have "has_token s req" using app_calls_token [of I s env req "Cancel_route w"] by fastforce
    then have "cancel_asked s (tr @ [?x]) w" by (auto simp: cancel_asked_def)
    with ok c(1) show ?thesis by (simp add: ask_cancel_ok)
  qed (use ok in simp)
qed (auto intro: table_ok_append)

lemma served_ok: "served I s sw tr jobs \<Longrightarrow> table_ok I s sw tr jobs"
proof (induction rule: served.induct)
  case boot
  then show ?case by (simp add: table_ok_def)
qed (auto intro: move_ok exchanges_ok)

lemma served_job: "served I s sw tr jobs \<Longrightarrow> jobs w = Some j \<Longrightarrow> job_ok I s sw tr w j"
  using served_ok by (simp add: table_ok_def)

end
