(* ===== verification/Reads.thy ===== *)
theory Reads
  imports Service
begin

text \<open>
  What clients of the service read: every response is true, and reads of a run never go back.
\<close>

section \<open>What a reader gets\<close>

text \<open>The response to a read whose handler describes the run in one state and asks for more in a
  later one: that of an open run, of a returned one, or of one that raised.\<close>

definition read_of :: "pystr \<Rightarrow> job \<Rightarrow> job \<Rightarrow> RunStatusResponse \<Rightarrow> bool" where
  "read_of w j j' y \<longleftrightarrow>
     (case fst (jb_conf j) of
        Done (Inr res) \<Rightarrow> y = completed w res
      | Done (Inl e) \<Rightarrow>
          rsr_run_id y = w \<and> rsr_status y \<in> {lit ''FAILED'', lit ''TIMED_OUT'', lit ''CANCELLED''}
          \<and> (rsr_status y = lit ''CANCELLED'' \<longrightarrow> jb_cancel j)
          \<and> rsr_completed_steps y = [] \<and> rsr_result y = None
      | _ \<Rightarrow> y = running w (status_query w (snd (jb_conf j'))))"

lemma terminal_failure_response:
  assumes "snd (terminal_failure I w st c) = Return y"
  shows "rsr_run_id y = w \<and> rsr_status y = terminal_status st \<and> rsr_completed_steps y = []
    \<and> rsr_result y = None"
  using assms
  by (auto simp: terminal_failure_def Let_def eff_unfold split: outcome.splits if_splits)

lemma terminal_status_raised:
  assumes "x \<in> {FAILED, CANCELED, TERMINATED, TIMED_OUT}"
  shows "terminal_status (Some x) \<in> {lit ''FAILED'', lit ''TIMED_OUT'', lit ''CANCELLED''}
    \<and> (terminal_status (Some x) = lit ''CANCELLED'') = (x = CANCELED)"
  using assms by (auto simp: terminal_status_def STATUS_MAPPING_def)

lemma closed_later:
  assumes "later j j'" and "fst (jb_conf j) = Done x"
  shows "jb_conf j' = jb_conf j"
  using assms closed_stays [of "job_input j" "jb_conf j" "jb_conf j'"] by (simp add: later_def)

lemma read_of_answers:
  assumes "answers w c (Some j) (Some j')" and "later j j'"
    and "snd (resolve_status I c w) = Return y"
  shows "read_of w j j' y"
proof -
  obtain d where d: "cl_describe c = Inr d" "describes d j"
    using assms(1,3)
    by (cases "cl_describe c")
      (auto simp: answers_def resolve_status_def or_not_found_def eff_unfold split: if_splits)
  have q: "cl_query c = Inr rs \<Longrightarrow> rs = status_query w (snd (jb_conf j'))"
    and r: "cl_result c = Inr res \<Longrightarrow> fst (jb_conf j') = Done (Inr res)" for rs res
    using assms(1) by (simp_all add: answers_def)
  have open_case: "y = running w (status_query w (snd (jb_conf j')))" if "de_status d = Some RUNNING"
    using assms(3) that q
    by (cases "cl_query c") (auto simp: resolve_status_def or_not_found_def eff_unfold d(1))
  show ?thesis
  proof (cases "fst (jb_conf j)")
    case (Done out)
    show ?thesis
    proof (cases out)
      case (Inr res)
      with Done d(2) have "de_status d = Some COMPLETED" by (simp add: describes_def)
      then obtain res' where "cl_result c = Inr res'" "y = completed w res'"
        using assms(3)
        by (cases "cl_result c") (auto simp: resolve_status_def or_not_found_def eff_unfold d(1))
      with r closed_later [OF assms(2) Done] Done Inr show ?thesis by (simp add: read_of_def)
    next
      case (Inl e)
      with Done d(2) obtain x where x: "de_status d = Some x" "x \<in> {FAILED, CANCELED, TERMINATED, TIMED_OUT}"
        "x = CANCELED \<longrightarrow> jb_cancel j" by (auto simp: describes_def)
      then have "snd (terminal_failure I w (Some x) c) = Return y"
        using assms(3) by (auto simp: resolve_status_def or_not_found_def eff_unfold d(1))
      with terminal_failure_response terminal_status_raised [OF x(2)] x(3) Done Inl show ?thesis
        by (auto simp: read_of_def)
    qed
  qed (use d(2) open_case in \<open>simp_all add: describes_def read_of_def\<close>)
qed

text \<open>An answered read is a read of a run of the table.\<close>

lemma answered_read:
  assumes "answers w c (jobs w) (jobs' w)" and "evolves jobs jobs'"
    and "snd (resolve_status I c w) = Return y"
  shows "\<exists>j j'. jobs w = Some j \<and> jobs' w = Some j' \<and> later j j' \<and> read_of w j j' y"
proof -
  obtain j where j: "jobs w = Some j"
    using assms(1,3)
    by (cases "cl_describe c")
      (auto simp: answers_def resolve_status_def or_not_found_def eff_unfold split: if_splits)
  obtain j' where j': "jobs' w = Some j'" "later j j'"
    using assms(2) j unfolding evolves_def by blast
  from read_of_answers [OF assms(1) [unfolded j j'(1)] j'(2) assms(3)] j j' show ?thesis by blast
qed

text \<open>A read with a response, at its place in the operation of the service.\<close>

lemma read_exchange:
  assumes "exchanges I s sw jobs x jobs'" and "ex_route x = Get_run_route w"
    and "ex_outcome x = Return rep" and "reply_status rep = 200"
  shows "\<exists>j j' y. jobs w = Some j \<and> jobs' w = Some j' \<and> later j j'
    \<and> has_token s (ex_request x) \<and> read_reply y rep \<and> read_of w j j' y"
  using assms
proof (cases rule: exchanges.cases)
  case (read env rt v req)
  with assms(2) have rt: "rt = Get_run_route w" "v = w" by auto
  have "snd (app I s env req (Get_run_route w)) = Return rep" using assms(3) read rt by simp
  from get_reply [OF this read(2)] assms(4) obtain y where
    y: "has_token s req" "snd (resolve_status I (ae_client env) w) = Return y" "read_reply y rep" by auto
  have a: "answers w (ae_client env) (jobs w) (jobs' w)" using read rt by simp
  from answered_read [OF a moves_evolve [OF read(4)] y(2)] y read(1) show ?thesis by auto
qed simp_all

lemma limits_bounded:
  "wall_clock_s (ri_limits (run_input s r w)) \<le> sandbox_wall_clock_s s"
  "output_max_bytes (rs_limits (sandbox_args (run_input s r w) code)) = sandbox_output_max_bytes s"
  by (simp_all add: sandbox_args_def run_input_def request_limits_def resource_limits_def split: option.split)

text \<open>A returned workflow's response comes from a run of the sandbox.\<close>

lemma result_executed:
  assumes "finished I sw (run_input s r w) res" and "y = completed w res"
  shows "\<exists>code sb env k m.
    generate_program (parse_directive (case_tab I) (rq_task r)) (rq_task r) = Inr code
    \<and> snd (preflight I (sandbox_runtime s) (re_preflight env)) = Return ()
    \<and> snd (gvisor_run I sw (sandbox_runtime s) env (sandbox_args (run_input s r w) code) k True) = Return sb
    \<and> wall_clock_s (ri_limits (run_input s r w)) \<le> sandbox_wall_clock_s s
    \<and> length (stdout_tail sb) \<le> nat (sandbox_output_max_bytes s)
    \<and> length (stderr_tail sb) \<le> nat (sandbox_output_max_bytes s)
    \<and> (rsr_status y = lit ''COMPLETED'') = (exit_code sb = 0 \<and> \<not> oom_killed sb \<and> \<not> wall_clock_exceeded sb)
    \<and> rsr_result y = Some \<lparr>rm_summary = m, rm_code = Some code, rm_sandbox = Some (sandbox_model sb)\<rparr>
    \<and> (ok sb \<longrightarrow> m = Some (summarize \<lparr>sa_plan = plan (case_tab I) (rq_task r), sa_sandbox = sb\<rparr>))"
proof -
  have inp: "ri_task (run_input s r w) = rq_task r" "ri_sandbox_runtime (run_input s r w) = sandbox_runtime s"
    by (simp_all add: run_input_def)
  have "\<exists>code sb env k m.
      generate_program (parse_directive (case_tab I) (rq_task r)) (rq_task r) = Inr code
      \<and> snd (preflight I (sandbox_runtime s) (re_preflight env)) = Return ()
      \<and> snd (gvisor_run I sw (sandbox_runtime s) env (sandbox_args (run_input s r w) code) k True) = Return sb
      \<and> (rsr_status y = lit ''COMPLETED'') = (exit_code sb = 0 \<and> \<not> oom_killed sb \<and> \<not> wall_clock_exceeded sb)
      \<and> rsr_result y = Some \<lparr>rm_summary = m, rm_code = Some code, rm_sandbox = Some (sandbox_model sb)\<rparr>
      \<and> (ok sb \<longrightarrow> m = Some (summarize \<lparr>sa_plan = plan (case_tab I) (rq_task r), sa_sandbox = sb\<rparr>))"
    using finished_executed [OF assms(1) inp(1)]
    unfolding inp assms(2) by (auto simp: completed_def Let_def ok_def)
  then show ?thesis
    using run_result_fields [of I sw "sandbox_runtime s"] limits_bounded [of s r w] by metis
qed

text \<open>What a response says is true of a run that was submitted with the token.\<close>

definition true_read ::
  "interp \<Rightarrow> Settings \<Rightarrow> Settings \<Rightarrow> exchange list \<Rightarrow> pystr \<Rightarrow> RunStatusResponse \<Rightarrow> bool" where
  "true_read I s sw tr w y \<longleftrightarrow>
     (\<exists>r. rsr_run_id y = w \<and> submitted s tr r \<and> workflow_id I r = Inr w
     \<and> (rsr_status y = lit ''COMPLETED'' \<or> rsr_result y \<noteq> None \<longrightarrow>
         (\<exists>code sb env k m.
           generate_program (parse_directive (case_tab I) (rq_task r)) (rq_task r) = Inr code
           \<and> snd (preflight I (sandbox_runtime s) (re_preflight env)) = Return ()
           \<and> snd (gvisor_run I sw (sandbox_runtime s) env (sandbox_args (run_input s r w) code) k True) = Return sb
           \<and> wall_clock_s (ri_limits (run_input s r w)) \<le> sandbox_wall_clock_s s
           \<and> length (stdout_tail sb) \<le> nat (sandbox_output_max_bytes s)
           \<and> length (stderr_tail sb) \<le> nat (sandbox_output_max_bytes s)
           \<and> (rsr_status y = lit ''COMPLETED'')
               = (exit_code sb = 0 \<and> \<not> oom_killed sb \<and> \<not> wall_clock_exceeded sb)
           \<and> rsr_result y = Some \<lparr>rm_summary = m, rm_code = Some code, rm_sandbox = Some (sandbox_model sb)\<rparr>
           \<and> (ok sb \<longrightarrow> m = Some (summarize \<lparr>sa_plan = plan (case_tab I) (rq_task r), sa_sandbox = sb\<rparr>))))
     \<and> (rsr_status y = lit ''CANCELLED'' \<longrightarrow> cancel_asked s tr w))"

lemma true_read_append: "true_read I s sw tr w y \<Longrightarrow> true_read I s sw (tr @ us) w y"
  unfolding true_read_def using asked_mono by blast

lemma read_is_true:
  assumes ok: "job_ok I s sw tr w j" and y: "read_of w j j' y"
  shows "true_read I s sw tr w y"
proof -
  let ?r = "jb_request j"
  have base: "submitted s tr ?r" "workflow_id I ?r = Inr w" "job_input j = run_input s ?r w"
    using ok by (simp_all add: job_ok_def)
  have id: "rsr_run_id y = w"
    using y by (auto simp: read_of_def running_def completed_def Let_def split: pc.splits sum.splits)
  have res: "\<exists>res. finished I sw (run_input s ?r w) res \<and> y = completed w res"
    if "rsr_status y = lit ''COMPLETED'' \<or> rsr_result y \<noteq> None"
    using that y ok base(3) by (auto simp: read_of_def running_def job_ok_def split: pc.splits sum.splits)
  have can: "cancel_asked s tr w" if "rsr_status y = lit ''CANCELLED''"
    using that y ok
    by (auto simp: read_of_def running_def completed_def Let_def job_ok_def split: pc.splits sum.splits if_splits)
  with id base(1,2) res result_executed [of I sw s ?r w _ y] show ?thesis
    unfolding true_read_def by blast
qed

text \<open>
  C1. Whatever a client reads is true: in any operation of the service, with any requests by anyone
  in any order and runs that move on meanwhile, a response to a read of a run is for a run that
  some client submitted with the token under that identifier; if it is completed or carries a
  result, then the program of the submitted task ran in a sandbox under the API's runtime and
  clamped limits after a passed preflight check, each captured output is within the configured
  bound, the response is completed exactly when that program exited with 0 and was killed neither
  for memory nor for time, and the code, the sandbox model and the summary are those of that run;
  and it is cancelled only if a client with the token asked for it.
\<close>

theorem reads_are_true:
  assumes "served I s sw (pre @ x # post) jobs" and "ex_route x = Get_run_route w"
    and "ex_outcome x = Return rep" and "reply_status rep = 200"
  shows "\<exists>y r. read_reply y rep \<and> rsr_run_id y = w
    \<and> submitted s pre r \<and> workflow_id I r = Inr w
    \<and> (rsr_status y = lit ''COMPLETED'' \<or> rsr_result y \<noteq> None \<longrightarrow>
        (\<exists>code sb env k m.
          generate_program (parse_directive (case_tab I) (rq_task r)) (rq_task r) = Inr code
          \<and> snd (preflight I (sandbox_runtime s) (re_preflight env)) = Return ()
          \<and> snd (gvisor_run I sw (sandbox_runtime s) env (sandbox_args (run_input s r w) code) k True) = Return sb
          \<and> wall_clock_s (ri_limits (run_input s r w)) \<le> sandbox_wall_clock_s s
          \<and> length (stdout_tail sb) \<le> nat (sandbox_output_max_bytes s)
          \<and> length (stderr_tail sb) \<le> nat (sandbox_output_max_bytes s)
          \<and> (rsr_status y = lit ''COMPLETED'')
              = (exit_code sb = 0 \<and> \<not> oom_killed sb \<and> \<not> wall_clock_exceeded sb)
          \<and> rsr_result y = Some \<lparr>rm_summary = m, rm_code = Some code, rm_sandbox = Some (sandbox_model sb)\<rparr>
          \<and> (ok sb \<longrightarrow> m = Some (summarize \<lparr>sa_plan = plan (case_tab I) (rq_task r), sa_sandbox = sb\<rparr>))))
    \<and> (rsr_status y = lit ''CANCELLED'' \<longrightarrow> cancel_asked s pre w)"
proof -
  obtain jobs0 jobs1 where at: "served I s sw pre jobs0" "exchanges I s sw jobs0 x jobs1"
    using served_at [OF assms(1)] by blast
  from read_exchange [OF at(2) assms(2-4)] obtain j j' y where
    j: "jobs0 w = Some j" and y: "read_reply y rep" "read_of w j j' y" by blast
  have "true_read I s sw pre w y" by (rule read_is_true [OF served_job [OF at(1) j] y(2)])
  with y(1) show ?thesis unfolding true_read_def by blast
qed

text \<open>The completed steps of two reads, of which the second begins when the first has ended.\<close>

lemma reaches_later:
  assumes "wf_reaches (job_input j) (jb_conf j)" and "later j j'"
  shows "wf_reaches (job_input j') (jb_conf j') \<and> job_input j' = job_input j
    \<and> prefix (completed_names (snd (jb_conf j))) (completed_names (snd (jb_conf j')))"
  using assms steps_completed_names [of "job_input j" "jb_conf j" "jb_conf j'"]
  by (auto simp: later_def intro: rtranclp_trans)

lemma completed_read:
  assumes "wf_reaches inp (Done (Inr res), st)" and "rsr_status (completed w res) = lit ''COMPLETED''"
  shows "rsr_completed_steps (completed w res) = completed_names st"
  using wf_inv_reaches [OF assms(1)] assms(2)
  by (auto simp: completed_def Let_def STEP_NAMES_def failed_result_def RunResult_failed_def
      RunResult_completed_def)

lemma read_steps:
  assumes "wf_reaches (job_input j) (jb_conf j)" and "later j j'" and "read_of w j j' y"
    and "rsr_status y \<in> {lit ''RUNNING'', lit ''COMPLETED''}"
  shows "rsr_completed_steps y = completed_names (snd (jb_conf j'))"
proof (cases "fst (jb_conf j)")
  case (Done out)
  with assms(3,4) obtain res where r: "out = Inr res" "y = completed w res"
    by (auto simp: read_of_def split: sum.splits)
  with assms(4) have "rsr_status (completed w res) = lit ''COMPLETED''"
    by (auto simp: completed_def Let_def split: if_splits)
  moreover have "wf_reaches (job_input j) (Done (Inr res), snd (jb_conf j))"
    using assms(1) Done r(1) by (metis prod.collapse)
  ultimately show ?thesis
    using completed_read r(2) closed_later [OF assms(2) Done] by simp
qed (use assms(3) in \<open>simp_all add: read_of_def\<close>)

lemma read_steps_none:
  assumes "read_of w j j' y" and "rsr_status y \<notin> {lit ''RUNNING'', lit ''COMPLETED''}"
  shows "rsr_completed_steps y = []"
  using assms
  by (auto simp: read_of_def running_def completed_def Let_def split: pc.splits sum.splits if_splits)

lemma read_steps_grow:
  assumes "wf_reaches (job_input j0) (jb_conf j0)" and "later j0 j1" and "later j1 j2" and "later j2 j3"
    and "read_of w j0 j1 y" and "read_of w j2 j3 y'"
    and "rsr_status y' \<in> {lit ''RUNNING'', lit ''COMPLETED''}"
  shows "prefix (rsr_completed_steps y) (rsr_completed_steps y')"
proof -
  have r1: "wf_reaches (job_input j1) (jb_conf j1)" using reaches_later [OF assms(1,2)] by blast
  then have r2: "wf_reaches (job_input j2) (jb_conf j2)" using reaches_later [OF _ assms(3)] by blast
  have "rsr_completed_steps y' = completed_names (snd (jb_conf j3))"
    by (rule read_steps [OF r2 assms(4,6,7)])
  moreover have "prefix (completed_names (snd (jb_conf j1))) (completed_names (snd (jb_conf j3)))"
    using reaches_later [OF r1 later_trans [OF assms(3,4)]] by blast
  ultimately show ?thesis
    using read_steps [OF assms(1,2,5)] read_steps_none [OF assms(5)]
    by (cases "rsr_status y \<in> {lit ''RUNNING'', lit ''COMPLETED''}") auto
qed

text \<open>What a later response of a run may say after an earlier one.\<close>

definition goes_on :: "RunStatusResponse \<Rightarrow> RunStatusResponse \<Rightarrow> bool" where
  "goes_on y y' \<longleftrightarrow>
     (rsr_status y \<in> set TERMINAL \<longrightarrow> rsr_status y' \<in> set TERMINAL)
     \<and> (rsr_result y \<noteq> None \<longrightarrow> y' = y)
     \<and> (rsr_status y' \<in> {lit ''RUNNING'', lit ''COMPLETED''} \<longrightarrow>
          prefix (rsr_completed_steps y) (rsr_completed_steps y'))"

lemma goes_on_refl [simp]: "goes_on y y"
  by (simp add: goes_on_def)

lemma read_goes_on:
  assumes "wf_reaches (job_input j0) (jb_conf j0)" and "later j0 j1" and "later j1 j2" and "later j2 j3"
    and "read_of w j0 j1 y" and "read_of w j2 j3 y'"
  shows "goes_on y y'"
proof -
  have same_end: "fst (jb_conf j2) = Done out" if "fst (jb_conf j0) = Done out" for out
    using closed_later [OF later_trans [OF assms(2,3)] that] that by simp
  have terminal: "rsr_status y' \<in> set TERMINAL" if "rsr_status y \<in> set TERMINAL"
  proof -
    from that assms(5) obtain out where "fst (jb_conf j0) = Done out"
      by (auto simp: read_of_def running_def TERMINAL_def split: pc.splits)
    with same_end assms(6) show ?thesis
      by (auto simp: read_of_def TERMINAL_def completed_def Let_def split: sum.splits)
  qed
  have same: "y' = y" if "rsr_result y \<noteq> None"
  proof -
    from that assms(5) obtain res where "fst (jb_conf j0) = Done (Inr res)" "y = completed w res"
      by (auto simp: read_of_def running_def split: pc.splits sum.splits)
    with same_end assms(6) show ?thesis by (simp add: read_of_def)
  qed
  show ?thesis
    using terminal same read_steps_grow [OF assms] unfolding goes_on_def by blast
qed

text \<open>
  C5. Reads never contradict each other: of two reads of a run in any operation of the service, with
  other requests and progress between and during them, the second is no longer running once the
  first was terminal, and has the first one's result if that had one; while the second is running
  or completed, the completed steps of the first are the first ones of the second.
\<close>

theorem reads_are_monotonic:
  assumes "served I s sw (pre @ x # mid @ x' # post) jobs"
    and "ex_route x = Get_run_route w" and "ex_outcome x = Return rep" and "reply_status rep = 200"
    and "ex_route x' = Get_run_route w" and "ex_outcome x' = Return rep'" and "reply_status rep' = 200"
  shows "\<exists>y y'. read_reply y rep \<and> read_reply y' rep'
    \<and> (rsr_status y \<in> set TERMINAL \<longrightarrow> rsr_status y' \<in> set TERMINAL)
    \<and> (rsr_result y \<noteq> None \<longrightarrow> y' = y)
    \<and> (rsr_status y' \<in> {lit ''RUNNING'', lit ''COMPLETED''} \<longrightarrow>
         prefix (rsr_completed_steps y) (rsr_completed_steps y'))"
proof -
  have "served I s sw ((pre @ x # mid) @ x' # post) jobs" using assms(1) by simp
  from served_at [OF this] obtain jobs2 jobs3 where at': "served I s sw (pre @ x # mid) jobs2"
    "exchanges I s sw jobs2 x' jobs3" by blast
  from served_at [OF at'(1)] obtain jobs0 jobs1 where at: "served I s sw pre jobs0"
    "exchanges I s sw jobs0 x jobs1" "evolves jobs1 jobs2" by blast
  from read_exchange [OF at(2) assms(2-4)] obtain j0 j1 y where
    j: "jobs0 w = Some j0" "jobs1 w = Some j1" "later j0 j1" and y: "read_reply y rep" "read_of w j0 j1 y"
    by blast
  from read_exchange [OF at'(2) assms(5-7)] obtain j2 j3 y' where
    j': "jobs2 w = Some j2" "later j2 j3" and y': "read_reply y' rep'" "read_of w j2 j3 y'" by blast
  have l: "later j1 j2" using at(3) j(2) j'(1) unfolding evolves_def by force
  have ok: "wf_reaches (job_input j0) (jb_conf j0)"
    using served_job [OF at(1) j(1)] unfolding job_ok_def by blast
  show ?thesis
    using y(1) y'(1) read_goes_on [OF ok j(3) l j'(2) y(2) y'(2)] unfolding goes_on_def by blast
qed

section \<open>A sample service\<close>

definition sample_http_token :: http_request where
  "sample_http_token =
     \<lparr>hr_request_id = None, hr_authorization = Some (lit ''Bearer '' @ api_bearer_token default_settings),
      hr_body = Body (sample_request None (Some (lit ''1'')))\<rparr>"

lemma sample_token [simp]:
  "verify_token default_settings (hr_authorization sample_http_token) = Inr ()"
  "hr_body sample_http_token = Body (sample_request None (Some (lit ''1'')))"
  using bearer_split [of "lit ''Bearer '' @ api_bearer_token default_settings"]
  by (simp_all add: sample_http_token_def verify_token_def compare_digest_def default_settings_def)

lemma sample_admissible_1:
  "\<exists>b. admissible I default_settings (sample_request t (Some (lit ''1''))) (lit ''demo:1'') b"
  using sample_payload [of t "Some (lit ''1'')"]
  by (auto simp: admissible_def workflow_id_def lit_Cons utf8_encode_ascii default_settings_def)

lemma admissible_call:
  assumes "admissible I s r w b"
  shows "\<exists>sc. sc_id sc = w \<and> Start_workflow sc \<in> set (fst (create_run I s c r))"
  by (rule exI, rule conjI [OF _ admissible_starts [OF assms]]) simp

lemma app_submit_returns:
  assumes "verify_token s (hr_authorization req) = Inr ()" and "hr_body req = Body r"
    and "snd (create_run I s (ae_client env) r) = Return y"
  shows "\<exists>rep. snd (app I s env req Post_runs) = Return rep \<and> reply_status rep = status_code y"
  using assms
  by (simp add: app_def correlation_def Let_def handled_def endpoint_def authenticated_def eff_unfold)

lemma app_get_returns:
  assumes "verify_token s (hr_authorization req) = Inr ()"
    and "snd (resolve_status I (ae_client env) w) = Return y"
  shows "\<exists>rep. snd (app I s env req (Get_run_route w)) = Return rep \<and> reply_status rep = 200 \<and> read_reply y rep"
  using assms
  by (auto simp: read_reply_def app_def correlation_def Let_def handled_def endpoint_def authenticated_def eff_unfold
      get_run_def json_reply_def JSONResponse_def)

lemma admissible_created:
  assumes "admissible I s r w b" and "cl_start c = Inr ()"
  shows "snd (create_run I s c r) = Return (accepted_response 201 r w)"
  using assms
  by (auto simp: admissible_def create_run_def start_run_def eff_unfold snd_lift_res not_less split: outcome.split)

lemma sample_started:
  "\<exists>x sc rep. served I default_settings default_settings [x] [lit ''demo:1'' \<mapsto> new_job (sample_request None (Some (lit ''1''))) sc]
    \<and> ex_route x = Post_runs \<and> ex_request x = sample_http_token
    \<and> ex_outcome x = Return rep \<and> reply_status rep = 201
    \<and> sc_input sc = run_input default_settings (sample_request None (Some (lit ''1''))) (lit ''demo:1'')
    \<and> workflow_id I (sample_request None (Some (lit ''1''))) = Inr (lit ''demo:1'')"
proof -
  let ?r = "sample_request None (Some (lit ''1''))" and ?s = default_settings
  let ?env = "sample_env_of (sample_client (Inr ()) (Inl ValueError))"
  obtain b where b: "admissible I ?s ?r (lit ''demo:1'') b" using sample_admissible_1 by blast
  obtain sc where sc: "sc_id sc = lit ''demo:1''" "Start_workflow sc \<in> set (fst (create_run I ?s (ae_client ?env) ?r))"
    using admissible_call [OF b] by blast
  then have c: "Start_workflow sc \<in> set (fst (app I ?s ?env sample_http_token Post_runs))"
    using submit_calls_all [of ?s sample_http_token ?r I ?env] by auto
  have f: "foreign_errors ?env"
    by (auto simp: foreign_errors_def service_raises_def sample_client_def)
  have "exchanges I ?s ?s Map.empty (serve I ?s ?env sample_http_token Post_runs) [sc_id sc \<mapsto> new_job ?r sc]"
    by (rule exchanges.new_run [OF f _ c]) simp_all
  from served.exchange [OF served.boot this]
  have "served I ?s ?s [serve I ?s ?env sample_http_token Post_runs] [lit ''demo:1'' \<mapsto> new_job ?r sc]"
    by (simp add: sc(1))
  moreover obtain rep where "snd (app I ?s ?env sample_http_token Post_runs) = Return rep" "reply_status rep = 201"
    using app_submit_returns [OF sample_token, of I ?env] admissible_created [OF b, of "ae_client ?env"]
    by (auto simp: accepted_response_def JSONResponse_def)
  moreover have "sc_input sc = run_input ?s ?r (lit ''demo:1'')"
    using create_run_start_call [OF sc(2)] sc(1) by auto
  moreover have "workflow_id I ?r = Inr (lit ''demo:1'')" using b by (simp add: admissible_def)
  ultimately show ?thesis by (intro exI conjI) (assumption | simp)+
qed

lemma moves_run_n:
  assumes "(run_step_of I sw inp ^^ n) k k'" and "jobs w = Some j" and "jb_conf j = k" and "job_input j = inp"
  shows "(move I sw ^^ n) jobs (jobs(w \<mapsto> j\<lparr>jb_conf := k'\<rparr>))"
  using assms
proof (induction n arbitrary: k')
  case 0
  then have "jobs(w \<mapsto> j\<lparr>jb_conf := k'\<rparr>) = jobs" by auto
  then show ?case by simp
next
  case (Suc n)
  then obtain k1 where k1: "(run_step_of I sw inp ^^ n) k k1" "run_step_of I sw inp k1 k'" by auto
  let ?j = "j\<lparr>jb_conf := k1\<rparr>"
  have "move I sw (jobs(w \<mapsto> ?j)) ((jobs(w \<mapsto> ?j))(w \<mapsto> ?j\<lparr>jb_conf := k'\<rparr>))"
    by (rule move.intros) (use Suc k1 in simp_all)
  then have "move I sw (jobs(w \<mapsto> ?j)) (jobs(w \<mapsto> j\<lparr>jb_conf := k'\<rparr>))" by simp
  with Suc.IH [OF k1(1) Suc.prems(2-4)] show ?case 
    by (intro relpowp_Suc_I [where y = "jobs(w \<mapsto> ?j)"])
qed

lemma moves_run:
  assumes "(run_step_of I sw inp)\<^sup>*\<^sup>* k k'" and "jobs w = Some j" and "jb_conf j = k" and "job_input j = inp"
  shows "(move I sw)\<^sup>*\<^sup>* jobs (jobs(w \<mapsto> j\<lparr>jb_conf := k'\<rparr>))"
proof -
  obtain n where "(run_step_of I sw inp ^^ n) k k'" using assms(1) by (auto simp: rtranclp_power)
  from moves_run_n [where w = w and jobs = jobs, OF this assms(2-4)] show ?thesis by (rule relpowp_imp_rtranclp)
qed

lemma served_moves:
  "(move I sw)\<^sup>*\<^sup>* jobs jobs' \<Longrightarrow> served I s sw tr jobs \<Longrightarrow> served I s sw tr jobs'"
  by (induction rule: rtranclp_induct) (auto intro: served.progress)

lemma sample_read:
  assumes "served I default_settings default_settings tr jobs" and "jobs w = Some j"
    and "c = sample_reader (sample_description d) q res"
    and "foreign_errors (sample_env_of c)" and "answers w c (Some j) (Some j)"
    and "snd (resolve_status I c w) = Return y"
  shows "\<exists>x rep. served I default_settings default_settings (tr @ [x]) jobs \<and> ex_route x = Get_run_route w
    \<and> ex_outcome x = Return rep \<and> reply_status rep = 200 \<and> read_reply y rep"
proof -
  let ?env = "sample_env_of c" and ?s = default_settings
  let ?x = "serve I ?s ?env sample_http_token (Get_run_route w)"
  have "exchanges I ?s ?s jobs ?x jobs"
    by (rule exchanges.read [OF assms(4), of _ w]) (use assms(2,5) in simp_all)
  from served.exchange [OF assms(1) this] have "served I ?s ?s (tr @ [?x]) jobs" .
  moreover obtain rep where "snd (app I ?s ?env sample_http_token (Get_run_route w)) = Return rep"
    "reply_status rep = 200" "read_reply y rep"
    using app_get_returns [OF sample_token(1), of I ?env w y] assms(6) by auto
  ultimately show ?thesis by (intro exI [of _ ?x] exI [of _ rep]) simp
qed

lemma sample_execution:
  "\<exists>res. (run_step_of I default_settings (run_input default_settings (sample_request None (Some (lit ''1''))) (lit ''demo:1'')))\<^sup>*\<^sup>*
      (Start, init_workflow) (Done (Inr res), state_completed)
    \<and> rr_status res = lit ''completed''"
proof -
  let ?w = "lit ''demo:1''" and ?s = default_settings and ?r = "sample_request None (Some (lit ''1''))"
  have enc: "utf8_encode (lit ''count words'') = Inr (map word_of_nat (lit ''count words''))"
    by (simp add: utf8_encode_ascii)
  from plan_code [OF enc, of "case_tab I"] obtain code where
    code: "generate_code (plan (case_tab I) (lit ''count words'')) = Inr code" "is_ascii code"
    "int (length code) \<le> 6 * 11 + 514" by auto
  obtain res sb where res: "(run_step_of I ?s (run_input ?s ?r ?w))\<^sup>*\<^sup>* (Start, init_workflow) (Done (Inr res), state_completed)"
    "rr_status res = lit ''completed''"
    using sample_run_completes [of "run_input ?s ?r ?w", OF _ _ _ _ _ code(2), of _ I] code enc
    by (auto simp: run_input_def request_limits_def resource_limits_def default_settings_def)
  then show ?thesis by blast
qed

text \<open>A run that is created, read while it is queued, executed, and read again.\<close>

lemma sample_service:
  "\<exists>x x1 x2 rep rep1 rep2 jobs.
    served I default_settings default_settings [x, x1, x2] jobs
    \<and> ex_route x = Post_runs \<and> ex_request x = sample_http_token
    \<and> ex_outcome x = Return rep \<and> reply_status rep = 201
    \<and> ex_route x1 = Get_run_route (lit ''demo:1'') \<and> ex_outcome x1 = Return rep1 \<and> reply_status rep1 = 200
    \<and> ex_route x2 = Get_run_route (lit ''demo:1'') \<and> ex_outcome x2 = Return rep2 \<and> reply_status rep2 = 200
    \<and> (\<exists>res. rr_status res = lit ''completed'' \<and> read_reply (completed (lit ''demo:1'') res) rep2)
    \<and> workflow_id I (sample_request None (Some (lit ''1''))) = Inr (lit ''demo:1'')"
proof -
  let ?w = "lit ''demo:1''" and ?s = default_settings and ?r = "sample_request None (Some (lit ''1''))"
  obtain x sc rep where x: "served I ?s ?s [x] [?w \<mapsto> new_job ?r sc]"
    "ex_route x = Post_runs" "ex_request x = sample_http_token" "ex_outcome x = Return rep" "reply_status rep = 201"
    "sc_input sc = run_input ?s ?r ?w" "workflow_id I ?r = Inr ?w"
    using sample_started by blast
  let ?j = "new_job ?r sc"
  define c1 where "c1 = sample_reader (sample_description RUNNING) (Inr (status_query ?w init_workflow)) (Inl ValueError)"
  have "reflects ?w c1 (Start, init_workflow) (Start, init_workflow)" by (simp add: reflects_def c1_def)
  from reflects_open [OF this] have "snd (resolve_status I c1 ?w) = Return (running ?w (status_query ?w init_workflow))"
    by simp
  moreover have "answers ?w c1 (Some ?j) (Some ?j)" "foreign_errors (sample_env_of c1)"
    by (auto simp: answers_def describes_def new_job_def c1_def foreign_errors_def service_raises_def sample_reader_def)
  ultimately obtain x1 rep1 where x1: "served I ?s ?s ([x] @ [x1]) [?w \<mapsto> ?j]"
    "ex_route x1 = Get_run_route ?w" "ex_outcome x1 = Return rep1" "reply_status rep1 = 200"
    using sample_read [OF x(1) _ c1_def, of ?w ?j] by fastforce
  obtain res where res: "(run_step_of I ?s (run_input ?s ?r ?w))\<^sup>*\<^sup>* (Start, init_workflow) (Done (Inr res), state_completed)"
    "rr_status res = lit ''completed''"
    using sample_execution by blast
  let ?j2 = "?j\<lparr>jb_conf := (Done (Inr res), state_completed)\<rparr>"
  have "served I ?s ?s [x, x1] ([?w \<mapsto> ?j](?w \<mapsto> ?j2))"
    by (rule served_moves [OF moves_run [OF res(1)]]) (use x(6) x1(1) in \<open>simp_all add: new_job_def\<close>)
  moreover define c2 where "c2 = sample_reader (sample_description COMPLETED) (Inl ValueError) (Inr res)"
  moreover have "snd (resolve_status I c2 ?w) = Return (completed ?w res)"
    using reflects_returned [of ?w c2 res state_completed undefined] by (simp add: reflects_def c2_def)
  moreover have "answers ?w c2 (Some ?j2) (Some ?j2)" "foreign_errors (sample_env_of c2)"
    by (auto simp: answers_def describes_def new_job_def c2_def foreign_errors_def service_raises_def sample_reader_def)
  ultimately obtain x2 rep2 where "served I ?s ?s ([x, x1] @ [x2]) ([?w \<mapsto> ?j](?w \<mapsto> ?j2))"
    "ex_route x2 = Get_run_route ?w" "ex_outcome x2 = Return rep2" "reply_status rep2 = 200"
    "read_reply (completed ?w res) rep2"
    using sample_read [OF _ _ c2_def, of I "[x, x1]" "[?w \<mapsto> ?j](?w \<mapsto> ?j2)" ?w ?j2] by fastforce
  with x x1 res(2) show ?thesis by fastforce
qed

lemma read_reply_status:
  "read_reply y rep \<Longrightarrow> read_reply y' rep \<Longrightarrow> rsr_status y = rsr_status y'"
  by (auto simp: read_reply_def dump_RunStatusResponse_def)

lemma returned_status:
  "rr_status res = lit ''completed'' \<Longrightarrow> rsr_status (completed w res) = lit ''COMPLETED''"
  by (simp add: completed_def Let_def)

theorem reads_are_true_witness:
  "\<forall>I. \<exists>tr x rep y jobs sb m. served I default_settings default_settings (tr @ [x]) jobs
     \<and> ex_outcome x = Return rep \<and> read_reply y rep \<and> rsr_status y = lit ''COMPLETED''
     \<and> exit_code sb = 0 \<and> rsr_result y = Some m \<and> rm_sandbox m = Some (sandbox_model sb)"
proof (intro allI)
  fix I
  obtain x x1 x2 rep2 jobs res where tr: "served I default_settings default_settings ([x, x1] @ x2 # []) jobs"
    and x2: "ex_route x2 = Get_run_route (lit ''demo:1'')" "ex_outcome x2 = Return rep2" "reply_status rep2 = 200"
    and r: "rr_status res = lit ''completed''" "read_reply (completed (lit ''demo:1'') res) rep2"
    using sample_service by fastforce
  from reads_are_true [OF tr x2] obtain y sb m where y: "read_reply y rep2"
    and c: "rsr_status y = lit ''COMPLETED'' \<Longrightarrow>
      (rsr_status y = lit ''COMPLETED'') = (exit_code sb = 0 \<and> \<not> oom_killed sb \<and> \<not> wall_clock_exceeded sb)
      \<and> rsr_result y = Some m \<and> rm_sandbox m = Some (sandbox_model sb)"
    by fastforce
  have "rsr_status y = lit ''COMPLETED''"
    using read_reply_status [OF y r(2)] returned_status [OF r(1)] by simp
  with tr x2(2) y c show "\<exists>tr x rep y jobs sb m. served I default_settings default_settings (tr @ [x]) jobs
     \<and> ex_outcome x = Return rep \<and> read_reply y rep \<and> rsr_status y = lit ''COMPLETED''
     \<and> exit_code sb = 0 \<and> rsr_result y = Some m \<and> rm_sandbox m = Some (sandbox_model sb)"
    by blast
qed

theorem reads_are_monotonic_witness:
  "\<forall>I. \<exists>x x1 x2 rep1 rep2 y1 y2 jobs. served I default_settings default_settings [x, x1, x2] jobs
     \<and> ex_outcome x1 = Return rep1 \<and> ex_outcome x2 = Return rep2
     \<and> read_reply y1 rep1 \<and> read_reply y2 rep2 \<and> rsr_status y2 = lit ''COMPLETED''
     \<and> prefix (rsr_completed_steps y1) (rsr_completed_steps y2)"
proof (intro allI)
  fix I
  obtain x x1 x2 rep1 rep2 jobs res where tr: "served I default_settings default_settings [x, x1, x2] jobs"
    and x1: "ex_route x1 = Get_run_route (lit ''demo:1'')" "ex_outcome x1 = Return rep1" "reply_status rep1 = 200"
    and x2: "ex_route x2 = Get_run_route (lit ''demo:1'')" "ex_outcome x2 = Return rep2" "reply_status rep2 = 200"
    and r: "rr_status res = lit ''completed''" "read_reply (completed (lit ''demo:1'') res) rep2"
    using sample_service by blast
  have "served I default_settings default_settings ([x] @ x1 # [] @ x2 # []) jobs" using tr by simp
  from reads_are_monotonic [OF this x1 x2] obtain y1 y2 where y: "read_reply y1 rep1" "read_reply y2 rep2"
    and p: "rsr_status y2 \<in> {lit ''RUNNING'', lit ''COMPLETED''} \<longrightarrow>
         prefix (rsr_completed_steps y1) (rsr_completed_steps y2)" by blast
  have "rsr_status y2 = lit ''COMPLETED''"
    using read_reply_status [OF y(2) r(2)] returned_status [OF r(1)] by simp
  with tr x1(2) x2(2) y p show "\<exists>x x1 x2 rep1 rep2 y1 y2 jobs.
     served I default_settings default_settings [x, x1, x2] jobs
     \<and> ex_outcome x1 = Return rep1 \<and> ex_outcome x2 = Return rep2
     \<and> read_reply y1 rep1 \<and> read_reply y2 rep2 \<and> rsr_status y2 = lit ''COMPLETED''
     \<and> prefix (rsr_completed_steps y1) (rsr_completed_steps y2)" by blast
qed

end
