(* ===== verification/Streams.thy ===== *)
theory Streams
  imports Reads RunStream
begin

text \<open>
  Event streams in the running service: while a stream's rounds read the run, other requests are
  served and runs move on.  Every event that the client reads from the text of the stream carries
  a true response, and the events never go back.
\<close>

section \<open>The responses behind the events\<close>

definition polled :: "interp \<Rightarrow> pystr \<Rightarrow> tick \<Rightarrow> RunStatusResponse list" where
  "polled I w t = (case snd (poll_status I (tk_client t) w) of Return (Some r) \<Rightarrow> [r] | _ \<Rightarrow> [])"

definition responses :: "interp \<Rightarrow> pystr \<Rightarrow> tick list \<Rightarrow> RunStatusResponse list" where
  "responses I w ts = concat (map (polled I w) ts)"

lemma responses_simps [simp]:
  "responses I w [] = []"
  "responses I w (t # ts) = polled I w t @ responses I w ts"
  "responses I w (ts @ us) = responses I w ts @ responses I w us"
  by (simp_all add: responses_def)

lemma polled_Return [simp]: "snd (poll_status I (tk_client t) w) = Return (Some r) \<Longrightarrow> polled I w t = [r]"
  by (simp add: polled_def)

lemma set_polled: "r \<in> set (polled I w t) \<Longrightarrow> snd (resolve_status I (tk_client t) w) = Return r"
  by (rule poll_status_Return) (auto simp: polled_def split: outcome.splits option.splits)

text \<open>The data of the events that carry a response: all but comments and the end.\<close>

fun frame_data :: "frame \<Rightarrow> pystr list" where
  "frame_data (Comment c) = []"
| "frame_data (Event e line) = (if e = lit ''done'' then [] else [line])"

definition event_data :: "frame list \<Rightarrow> pystr list" where
  "event_data fs = concat (map frame_data fs)"

lemma event_data_simps [simp]:
  "event_data [] = []"
  "event_data (f # fs) = frame_data f @ event_data fs"
  "event_data (fs @ gs) = event_data fs @ event_data gs"
  by (simp_all add: event_data_def)

lemma frame_data_sse [simp]: "frame_data (sse_frame e d) = (if e = ''done'' then [] else [dumps d])"
  by (simp add: sse_frame_def)

abbreviation response_text :: "RunStatusResponse \<Rightarrow> pystr" where
  "response_text y \<equiv> dumps (dump_RunStatusResponse y)"

text \<open>The frames of a round carry its response, or nothing.\<close>

lemma idle_round_data:
  assumes "idle_round (dump_RunStatusResponse r) prev first ticks = (texts, first', prev')"
  shows "\<exists>fs. texts = map frame_text fs \<and> list_all good_frame fs
    \<and> (event_data fs = [] \<or> event_data fs = [response_text r])"
proof -
  let ?p = "dump_RunStatusResponse r"
  from assms consider
      "texts = map frame_text [sse_frame ''snapshot'' ?p]"
    | "texts = map frame_text [sse_frame ''step'' ?p]"
    | "texts = map frame_text [Comment (lit ''keepalive'')]"
    | "texts = map frame_text []"
    by (auto simp: idle_round_def Let_def sse_text keepalive_text split: if_splits)
  then show ?thesis
  proof cases
    case 1
    then show ?thesis by (intro exI [of _ "[sse_frame ''snapshot'' ?p]"]) simp
  next
    case 2
    then show ?thesis by (intro exI [of _ "[sse_frame ''step'' ?p]"]) simp
  next
    case 3
    then show ?thesis by (intro exI [of _ "[Comment (lit ''keepalive'')]"]) (simp add: lit_Cons)
  next
    case 4
    then show ?thesis by (intro exI [of _ "[]"]) simp
  qed
qed

lemma end_round_data:
  assumes "rsr_status r \<in> set TERMINAL"
  shows "\<exists>fs ys. yields (fst (end_round w r first)) = map frame_text fs \<and> list_all good_frame fs
    \<and> event_data fs = map response_text ys \<and> set ys \<subseteq> {r}"
proof -
  obtain e where m: "map_of SSE_EVENT (rsr_status r) = Some (lit e)"
    and e: "e \<in> {''completed'', ''failed'', ''timed_out''}"
    using assms SSE_EVENT_lookup SSE_EVENT_values by blast
  let ?p = "dump_RunStatusResponse r"
  let ?fs = "(if first then [sse_frame ''snapshot'' ?p] else []) @
    [sse_frame e ?p, sse_frame ''done'' (done_run w)]"
  have "yields (fst (end_round w r first)) = map frame_text ?fs"
    by (simp add: end_round_def Let_def m fst_ebind sse_text)
  moreover have "list_all good_frame ?fs" using e by auto
  moreover have "event_data ?fs = map response_text (if first then [r, r] else [r])" using e by auto
  moreover have "set (if first then [r, r] else [r]) \<subseteq> {r}" by simp
  ultimately show ?thesis by blast
qed

lemma no_data:
  "ys = [] \<Longrightarrow> \<exists>fs zs. ys = map frame_text fs \<and> list_all good_frame fs
     \<and> event_data fs = map response_text zs \<and> set zs \<subseteq> A \<and> (P \<longrightarrow> sorted_wrt R zs)"
  by (intro exI [of _ "[]"]) simp

lemma sorted_wrt_repeat:
  assumes "set ys \<subseteq> {r}" and "R r r" and "\<forall>z \<in> set zs. R r z" and "sorted_wrt R zs"
  shows "sorted_wrt R (ys @ zs)"
proof -
  have "sorted_wrt R ys" using assms(1,2) by (induction ys) auto
  with assms show ?thesis by (auto simp: sorted_wrt_append)
qed

text \<open>The events of a stream carry polled responses, in the order of the rounds.\<close>

lemma gen_data:
  assumes R: "\<And>r. R r r"
  shows "\<exists>fs ys. yields (fst (gen I w max_dur prev first ticks elapsed ts)) = map frame_text fs
    \<and> list_all good_frame fs \<and> event_data fs = map response_text ys
    \<and> set ys \<subseteq> set (responses I w ts) \<and> (sorted_wrt R (responses I w ts) \<longrightarrow> sorted_wrt R ys)"
proof (induction ts arbitrary: prev first ticks elapsed)
  case (Cons t ts)
  show ?case
  proof (cases "\<not> tk_disconnected t \<and> (\<exists>r. snd (poll_status I (tk_client t) w) = Return (Some r))")
    case False
    show ?thesis
      by (rule no_data) (use False in \<open>auto simp: fst_ebind split: outcome.split option.split\<close>)
  next
    case True
    then obtain r where d: "\<not> tk_disconnected t"
      and r: "snd (poll_status I (tk_client t) w) = Return (Some r)" by blast
    show ?thesis
    proof (cases "rsr_status r \<in> set TERMINAL")
      case True
      with d r have y: "yields (fst (gen I w max_dur prev first ticks elapsed (t # ts)))
          = yields (fst (end_round w r first))"
        by (simp add: fst_ebind)
      obtain fs ys where "yields (fst (end_round w r first)) = map frame_text fs" "list_all good_frame fs"
        "event_data fs = map response_text ys" "set ys \<subseteq> {r}"
        using end_round_data [OF True] by blast
      then show ?thesis
        unfolding y using sorted_wrt_repeat [of ys r R "[]"] R r
        by (intro exI [of _ fs] exI [of _ ys]) auto
    next
      case False
      obtain texts first' prev' where i:
        "idle_round (dump_RunStatusResponse r) prev first ticks = (texts, first', prev')"
        by (metis prod_cases3)
      from idle_round_data [OF i] obtain fs ys where fs: "texts = map frame_text fs" "list_all good_frame fs"
        "event_data fs = map response_text ys" "set ys \<subseteq> {r}"
        by (metis empty_subsetI list.set(1) list.simps(8) list.simps(9) list.set(2) subset_refl)
      let ?el = "fadd elapsed float_0_7"
      have "\<exists>gs zs. yields (fst (gen I w max_dur prev first ticks elapsed (t # ts))) = map frame_text (fs @ gs)
          \<and> list_all good_frame gs \<and> event_data gs = map response_text zs
          \<and> set zs \<subseteq> set (responses I w ts) \<and> (sorted_wrt R (responses I w ts) \<longrightarrow> sorted_wrt R zs)"
      proof (cases "?el > max_dur * float_scale")
        case True
        then show ?thesis
          using d r False i fs(1)
          by (intro exI [of _ "[sse_frame ''done'' (done_max w)]"] exI [of _ "[]"])
            (simp add: fst_ebind Let_def sse_text)
      next
        case le: False
        from Cons.IH [of prev' first' "ticks + 1" ?el] obtain gs zs where
          "yields (fst (gen I w max_dur prev' first' (ticks + 1) ?el ts)) = map frame_text gs"
          "list_all good_frame gs" "event_data gs = map response_text zs"
          "set zs \<subseteq> set (responses I w ts)" "sorted_wrt R (responses I w ts) \<longrightarrow> sorted_wrt R zs"
          by blast
        then show ?thesis
          using d r False i fs(1) le
          by (intro exI [of _ gs] exI [of _ zs]) (simp add: fst_ebind Let_def)
      qed
      then obtain gs zs where gs: "yields (fst (gen I w max_dur prev first ticks elapsed (t # ts)))
          = map frame_text (fs @ gs)" "list_all good_frame gs" "event_data gs = map response_text zs"
          "set zs \<subseteq> set (responses I w ts)" "sorted_wrt R (responses I w ts) \<longrightarrow> sorted_wrt R zs" by blast
      have "sorted_wrt R (ys @ zs)" if "sorted_wrt R (responses I w (t # ts))"
        by (rule sorted_wrt_repeat [OF fs(4) R]) (use that gs(4,5) r in auto)
      then show ?thesis
        using gs(1-4) fs r by (intro exI [of _ "fs @ gs"] exI [of _ "ys @ zs"]) auto
    qed
  qed
qed (simp add: no_data)

section \<open>Streams in operation\<close>

text \<open>
  A service in operation in which one client's stream of the run \<open>w\<close> is read beside everything
  else: \<open>tr\<close> are the exchanges so far and \<open>ts\<close> the rounds of the stream so far, whose answers are
  those of the table at their times.
\<close>

inductive streamed ::
  "interp \<Rightarrow> Settings \<Rightarrow> Settings \<Rightarrow> pystr \<Rightarrow> exchange list \<Rightarrow> tick list \<Rightarrow> jobs \<Rightarrow> bool" for I s sw w where
  opened: "served I s sw tr jobs \<Longrightarrow> streamed I s sw w tr [] jobs"
| moved: "\<lbrakk>streamed I s sw w tr ts jobs; move I sw jobs jobs'\<rbrakk> \<Longrightarrow> streamed I s sw w tr ts jobs'"
| served_other: "\<lbrakk>streamed I s sw w tr ts jobs; exchanges I s sw jobs x jobs'\<rbrakk> \<Longrightarrow>
    streamed I s sw w (tr @ [x]) ts jobs'"
| ticked: "\<lbrakk>streamed I s sw w tr ts jobs; (move I sw)\<^sup>*\<^sup>* jobs jobs';
      answers w (tk_client t) (jobs w) (jobs' w)\<rbrakk> \<Longrightarrow>
    streamed I s sw w tr (ts @ [t]) jobs'"

lemma streamed_served: "streamed I s sw w tr ts jobs \<Longrightarrow> served I s sw tr jobs"
  by (induction rule: streamed.induct) (auto intro: served.progress served.exchange served_moves)

text \<open>What was polled is a true read of the run in a state that it has reached or passed.\<close>

definition past_read ::
  "interp \<Rightarrow> Settings \<Rightarrow> Settings \<Rightarrow> pystr \<Rightarrow> exchange list \<Rightarrow> jobs \<Rightarrow> RunStatusResponse \<Rightarrow> bool" where
  "past_read I s sw w tr jobs y \<longleftrightarrow>
     true_read I s sw tr w y
     \<and> (\<exists>j0 j1 j. jobs w = Some j \<and> wf_reaches (job_input j0) (jb_conf j0)
          \<and> later j0 j1 \<and> later j1 j \<and> read_of w j0 j1 y)"

lemma past_read_mono:
  assumes "past_read I s sw w tr jobs y" and "evolves jobs jobs'"
  shows "past_read I s sw w (tr @ us) jobs' y"
proof -
  obtain j0 j1 j where j: "jobs w = Some j" "wf_reaches (job_input j0) (jb_conf j0)" "later j0 j1"
    "later j1 j" "read_of w j0 j1 y" and true: "true_read I s sw tr w y"
    using assms(1) unfolding past_read_def by blast
  obtain j' where "jobs' w = Some j'" "later j j'" using assms(2) j(1) unfolding evolves_def by blast
  with j later_trans [OF j(4)] true_read_append [OF true] show ?thesis unfolding past_read_def by blast
qed

lemma polled_read:
  assumes "served I s sw tr jobs" and "(move I sw)\<^sup>*\<^sup>* jobs jobs'"
    and "answers w (tk_client t) (jobs w) (jobs' w)" and "y \<in> set (polled I w t)"
  shows "past_read I s sw w tr jobs' y" and "past_read I s sw w tr jobs z \<Longrightarrow> goes_on z y"
proof -
  obtain j j' where j: "jobs w = Some j" "jobs' w = Some j'" "later j j'" "read_of w j j' y"
    using answered_read [OF assms(3) moves_evolve [OF assms(2)] set_polled [OF assms(4)]] by blast
  have ok: "job_ok I s sw tr w j" by (rule served_job [OF assms(1) j(1)])
  have "wf_reaches (job_input j) (jb_conf j)" using ok unfolding job_ok_def by blast
  with j read_is_true [OF ok j(4)] show "past_read I s sw w tr jobs' y"
    unfolding past_read_def using later_refl by blast
  show "goes_on z y" if "past_read I s sw w tr jobs z"
  proof -
    from that j(1) obtain j0 j1 where "wf_reaches (job_input j0) (jb_conf j0)" "later j0 j1" "later j1 j"
      "read_of w j0 j1 z" unfolding past_read_def by auto
    then show ?thesis using read_goes_on j(3,4) by blast
  qed
qed

lemma sorted_polled: "goes_on y y \<Longrightarrow> sorted_wrt goes_on (polled I w t)"
  by (auto simp: polled_def split: outcome.split option.split)

lemma streamed_ok:
  assumes "streamed I s sw w tr ts jobs"
  shows "(\<forall>y \<in> set (responses I w ts). past_read I s sw w tr jobs y) \<and> sorted_wrt goes_on (responses I w ts)"
  using assms
proof (induction rule: streamed.induct)
  case (moved tr ts jobs jobs')
  then show ?case using past_read_mono [OF _ move_evolves, where us = "[]"] by auto
next
  case (served_other tr ts jobs x jobs')
  then show ?case using past_read_mono [OF _ exchanges_evolve] by blast
next
  case (ticked tr ts jobs jobs' t)
  note read = polled_read [OF streamed_served [OF ticked.hyps(1)] ticked.hyps(2,3)]
  have "past_read I s sw w tr jobs' y" if "y \<in> set (responses I w ts)" for y
    using past_read_mono [OF _ moves_evolve [OF ticked.hyps(2)], where us = "[]"] ticked.IH that by auto
  with ticked.IH read sorted_polled goes_on_refl show ?case by (auto simp: sorted_wrt_append)
qed simp

text \<open>The reply that opens a stream carries the generator over the rounds.\<close>

lemma stream_reply:
  assumes "snd (app I s env req (Stream_route w)) = Return (Stream_reply st hs body)"
  shows "has_token s req \<and> body = stream_gen I s w (ae_ticks env)"
proof -
  let ?m = "eseq (stream_check (ae_client env) w)
    (ret (Stream_reply 200 stream_headers (stream_gen I s w (ae_ticks env))))"
  obtain rid rep0 where r: "Stream_reply st hs body = set_header (lit ''X-Request-Id'') rid rep0"
    "snd (handled (Some rid) (authenticated s (hr_authorization req) ?m)) = Return rep0"
    using app_reply [OF assms] by (auto simp: endpoint_def)
  from r(1) obtain hs0 where rep0: "rep0 = Stream_reply st hs0 body" by (cases rep0) auto
  with secured_reply [OF r(2)] have "verify_token s (hr_authorization req) = Inr ()" "snd ?m = Return rep0"
    by auto
  then show ?thesis
    by (auto simp: rep0 snd_ebind verify_token_has_token split: outcome.splits)
qed

text \<open>
  C3. A stream tells the truth to its end: a reply of the application that is a stream was
  requested with the token, and while its rounds read the run beside any other requests and
  progress, the client reads from its text a sequence of frames whose events, apart from the one
  that only announces the end, carry responses that are true of a submitted run, down to the
  sandbox run that produced a result, each going on from all the ones before it.
\<close>

theorem streams_are_true:
  assumes "streamed I s sw w tr (ae_ticks env) jobs"
    and "snd (app I s env req (Stream_route w)) = Return (Stream_reply st hs body)"
  shows "has_token s req
    \<and> (\<exists>fs ys. read_stream (concat (yields (fst body))) = Some fs
        \<and> event_data fs = map response_text ys
        \<and> (\<forall>y \<in> set ys. true_read I s sw tr w y) \<and> sorted_wrt goes_on ys)"
proof -
  have body: "has_token s req" "body = stream_gen I s w (ae_ticks env)"
    using stream_reply [OF assms(2)] by simp_all
  obtain fs ys where fs: "yields (fst body) = map frame_text fs" "list_all good_frame fs"
    "event_data fs = map response_text ys" "set ys \<subseteq> set (responses I w (ae_ticks env))"
    "sorted_wrt goes_on (responses I w (ae_ticks env)) \<longrightarrow> sorted_wrt goes_on ys"
    using gen_data [of goes_on I w "workflow_run_timeout_s s + 30" None True 0 0 "ae_ticks env"]
    unfolding body(2) stream_gen_def by auto
  have "read_stream (concat (yields (fst body))) = Some fs"
    using read_stream_frames [OF fs(2)] by (simp add: fs(1))
  with body(1) fs(3-5) streamed_ok [OF assms(1)] show ?thesis unfolding past_read_def by blast
qed

section \<open>A sample stream\<close>

lemma app_stream_returns:
  assumes "verify_token s (hr_authorization req) = Inr ()" and "cl_describe (ae_client env) = Inr d"
  shows "\<exists>hs. snd (app I s env req (Stream_route w))
    = Return (Stream_reply 200 hs (stream_gen I s w (ae_ticks env)))"
  using assms
  by (simp add: app_def correlation_def Let_def handled_def endpoint_def authenticated_def eff_unfold
      stream_check_def or_not_found_def)

lemma resolve_polled:
  "snd (resolve_status I c w) = Return r \<Longrightarrow> snd (poll_status I c w) = Return (Some r)"
  by (simp add: poll_status_def snd_catch snd_ebind)

text \<open>The stream of a run that has completed, read in one round.\<close>

theorem streams_are_true_witness:
  "\<forall>I. \<exists>tr env jobs hs body fs. streamed I default_settings default_settings (lit ''demo:1'') tr (ae_ticks env) jobs
     \<and> snd (app I default_settings env sample_http_token (Stream_route (lit ''demo:1''))) = Return (Stream_reply 200 hs body)
     \<and> yields (fst body) \<noteq> [] \<and> read_stream (concat (yields (fst body))) = Some fs"
proof (intro allI)
  fix I
  let ?w = "lit ''demo:1''" and ?s = default_settings and ?r = "sample_request None (Some (lit ''1''))"
  obtain x sc where x: "served I ?s ?s [x] [?w \<mapsto> new_job ?r sc]" "sc_input sc = run_input ?s ?r ?w"
    using sample_started by blast
  obtain res where res: "(run_step_of I ?s (run_input ?s ?r ?w))\<^sup>*\<^sup>* (Start, init_workflow) (Done (Inr res), state_completed)"
    "rr_status res = lit ''completed''"
    using sample_execution by blast
  define jobs where "jobs = [?w \<mapsto> new_job ?r sc, ?w \<mapsto> (new_job ?r sc)\<lparr>jb_conf := (Done (Inr res), state_completed)\<rparr>]"
  define c where "c = sample_reader (sample_description COMPLETED) (Inl ValueError) (Inr res)"
  define t where "t = \<lparr>tk_disconnected = False, tk_client = c\<rparr>"
  define env where "env = (sample_env_of c)\<lparr>ae_ticks := [t]\<rparr>"
  have env: "ae_ticks env = [t]" "ae_client env = c" by (simp_all add: env_def)
  have "served I ?s ?s [x] jobs"
    unfolding jobs_def
    by (rule served_moves [OF moves_run [OF res(1)]]) (use x in \<open>simp_all add: new_job_def\<close>)
  then have "streamed I ?s ?s ?w [x] [] jobs" by (rule streamed.opened)
  moreover have "answers ?w (tk_client t) (jobs ?w) (jobs ?w)"
    by (simp add: t_def c_def jobs_def answers_def describes_def new_job_def)
  ultimately have "streamed I ?s ?s ?w [x] ([] @ [t]) jobs"
    using streamed.ticked by blast
  then have st: "streamed I ?s ?s ?w [x] (ae_ticks env) jobs" by (simp add: env)
  obtain hs where app: "snd (app I ?s env sample_http_token (Stream_route ?w))
      = Return (Stream_reply 200 hs (stream_gen I ?s ?w (ae_ticks env)))"
    using app_stream_returns [OF sample_token(1), of env "sample_description COMPLETED" I ?w]
    by (auto simp: env(2) c_def)
  have "snd (resolve_status I c ?w) = Return (completed ?w res)"
    using reflects_returned [of ?w c res state_completed undefined] by (simp add: reflects_def c_def)
  then have "yields (fst (stream_gen I ?s ?w (ae_ticks env))) \<noteq> []"
    using returned_status [OF res(2), of ?w]
    by (simp add: env t_def stream_gen_def resolve_polled TERMINAL_def fst_ebind end_round_def Let_def
        SSE_EVENT_def)
  with st app streams_are_true [OF st app] show "\<exists>tr env jobs hs body fs. streamed I ?s ?s ?w tr (ae_ticks env) jobs
     \<and> snd (app I ?s env sample_http_token (Stream_route ?w)) = Return (Stream_reply 200 hs body)
     \<and> yields (fst body) \<noteq> [] \<and> read_stream (concat (yields (fst body))) = Some fs"
    by blast
qed

end
