(* ===== verification/Settling.thy ===== *)
theory Settling
  imports Reads
begin

text \<open>
  Accepted work is done: the workflow goes on from every await with its activities' answers, so
  a run of the table comes to its result whenever the sandbox returns one for its program; the
  runs of the table can move only finitely often.
\<close>

section \<open>A run comes to its result\<close>











section \<open>A table of jobs\<close>

definition job_step :: "interp \<Rightarrow> Settings \<Rightarrow> job \<Rightarrow> job \<Rightarrow> bool" where
  "job_step I sw j j' \<longleftrightarrow>
     (\<exists>k. run_step_of I sw (job_input j) (jb_conf j) k \<and> j' = j\<lparr>jb_conf := k\<rparr>)"

definition job_ended :: "job \<Rightarrow> bool" where
  "job_ended j \<longleftrightarrow> (\<exists>x. fst (jb_conf j) = Done x)"

abbreviation settled :: "jobs \<Rightarrow> bool" where
  "settled \<equiv> all_entries job_ended"

lemma move_entry: "move I sw = step_entry (job_step I sw)"
  unfolding step_entry_def job_step_def move.simps by (intro ext) blast

text \<open>A run that has not ended has a next step: the start, or an exception of the call it awaits.\<close>

lemma run_step_exists:
  assumes "\<forall>x. q \<noteq> Done x"
  shows "\<exists>k. run_step_of I sw inp (q, st) k"
proof (cases "step_index q")
  case None
  with assms have "q = Start" by (cases q) simp_all
  then show ?thesis using wf_step.start [of inp st] by (auto simp: run_step_of_def)
next
  case (Some i)
  then have "answered I sw inp q (Done (Inl CancelledError))" by (cases q) simp_all
  with wf_step.fault [OF Some, of inp st CancelledError] show ?thesis
    unfolding run_step_of_def by fastforce
qed

interpretation jobs: terminating_entries "job_step I sw" "\<lambda>j. True" "\<lambda>j. wf_rank (fst (jb_conf j))"
  job_ended for I sw
proof
  show "wf_rank (fst (jb_conf b)) < wf_rank (fst (jb_conf a))" if "job_step I sw a b" for a b
    using that by (auto simp: job_step_def intro: wf_rank_step [OF run_step_wf])
  show "(\<nexists>b. job_step I sw a b) \<longleftrightarrow> job_ended a" for a
  proof -
    have "\<not> wf_step inp (Done x, st) k" for inp x st k by (simp add: wf_step_Done)
    then have "\<not> run_step_of I sw (job_input a) (jb_conf a) k" if "job_ended a" for k
      using that run_step_wf unfolding job_ended_def by (metis prod.collapse)
    moreover have "\<exists>b. job_step I sw a b" if "\<not> job_ended a"
      using that run_step_exists [of "fst (jb_conf a)" I sw "job_input a" "snd (jb_conf a)"]
      by (auto simp: job_ended_def job_step_def)
    ultimately show ?thesis unfolding job_step_def by blast
  qed
qed simp

text \<open>Only finitely many runs are in the table.\<close>

lemma exchanges_finite: "exchanges I s sw jobs x jobs' \<Longrightarrow> finite (dom jobs) \<Longrightarrow> finite (dom jobs')"
proof (induction rule: exchanges.induct)
  case (read env rt w jobs jobs' req)
  have "all_entries (\<lambda>j. True) jobs" by (simp add: all_entries_def)
  with read jobs.entries.steps_good [of I sw jobs jobs'] show ?case by (simp add: move_entry)
qed (auto simp: ask_cancel_def split: option.split)

lemma served_finite: "served I s sw tr jobs \<Longrightarrow> finite (dom jobs)"
proof (induction rule: served.induct)
  case (progress tr jobs jobs')
  have "all_entries (\<lambda>j. True) jobs" by (simp add: all_entries_def)
  with progress jobs.entries.step_good [of jobs I sw jobs'] show ?case by (simp add: move_entry)
qed (auto intro: exchanges_finite)

section \<open>Bounds\<close>

lemma rank_le_5: "wf_rank q \<le> 5"
  by (cases q) simp_all


text \<open>Over all runs of the table, only finitely many steps are left.\<close>

lemma moves_bounded:
  assumes "served I s sw tr jobs" and "(move I sw ^^ n) jobs jobs'"
  shows "n \<le> 5 * card (dom jobs)"
proof -
  have "all_entries (\<lambda>j. wf_rank (fst (jb_conf j)) \<le> 5) jobs"
    by (simp add: all_entries_def rank_le_5)
  from table_rank_bound [OF this] show ?thesis
    using jobs.entries.steps_bound [of n I sw jobs jobs'] assms(2) served_finite [OF assms(1)]
    by (simp add: move_entry all_entries_def)
qed

section \<open>Accepted work is done\<close>







end
