(* ===== verification/Replay.thy ===== *)
theory Replay
  imports WorkflowRuns
begin

text \<open>
  Replay of a workflow: a new worker runs the workflow's body again, with the recorded answers of
  the activities that had ended, to get back to where the lost worker was.  This is right only
  if the body issues the same commands for the same answers, whatever the answers to come are.
\<close>

section \<open>Recorded answers\<close>

text \<open>Two runs get the same answer to a call.\<close>

fun agree :: "Activities \<Rightarrow> Activities \<Rightarrow> wf_call \<Rightarrow> bool" where
  "agree acts acts' (Call_plan t a b p) = (a_plan acts t = a_plan acts' t)"
| "agree acts acts' (Call_generate_code x a b p) = (a_generate_code acts x = a_generate_code acts' x)"
| "agree acts acts' (Call_run_sandbox x a b h p) = (a_run_sandbox acts x = a_run_sandbox acts' x)"
| "agree acts acts' (Call_summarize x a b p) = (a_summarize acts x = a_summarize acts' x)"

text \<open>The commands by which a replay is compared with the history: the activity and its argument.  The
  options of a call come from the settings of the worker.\<close>

datatype command =
    Do_plan pystr
  | Do_generate_code Plan
  | Do_run_sandbox RunSandboxArgs
  | Do_summarize SummarizeArgs

fun command_of :: "wf_call \<Rightarrow> command" where
  "command_of (Call_plan t a b p) = Do_plan t"
| "command_of (Call_generate_code x a b p) = Do_generate_code x"
| "command_of (Call_run_sandbox x a b h p) = Do_run_sandbox x"
| "command_of (Call_summarize x a b p) = Do_summarize x"

definition commands :: "Settings \<Rightarrow> Activities \<Rightarrow> RunInput \<Rightarrow> command list" where
  "commands s acts inp = map command_of (fst (workflow_run s acts inp init_workflow))"

section \<open>The commands of a run\<close>

lemma calls_length: "length (fst (workflow_run s acts inp init_workflow)) \<le> 4"
  by (auto simp: run_defs split: sum.splits)

lemma commands_eq:
  "commands s acts inp =
     Do_plan (ri_task inp) # (case a_plan acts (ri_task inp) of Inl e \<Rightarrow> []
     | Inr p \<Rightarrow> Do_generate_code p # (case a_generate_code acts p of Inl e \<Rightarrow> []
     | Inr code \<Rightarrow> Do_run_sandbox (sandbox_args inp code) # (case a_run_sandbox acts (sandbox_args inp code) of Inl e \<Rightarrow> []
     | Inr r \<Rightarrow> if ok r then [Do_summarize \<lparr>sa_plan = p, sa_sandbox = r\<rparr>] else [])))"
  by (auto simp: commands_def run_defs split: sum.splits)

text \<open>The answer to a command.\<close>

fun same_answer :: "Activities \<Rightarrow> Activities \<Rightarrow> command \<Rightarrow> bool" where
  "same_answer acts acts' (Do_plan t) = (a_plan acts t = a_plan acts' t)"
| "same_answer acts acts' (Do_generate_code x) = (a_generate_code acts x = a_generate_code acts' x)"
| "same_answer acts acts' (Do_run_sandbox x) = (a_run_sandbox acts x = a_run_sandbox acts' x)"
| "same_answer acts acts' (Do_summarize x) = (a_summarize acts x = a_summarize acts' x)"

lemma same_answer_command [simp]: "same_answer acts acts' (command_of c) = agree acts acts' c"
  by (cases c) simp_all

text \<open>The options of a call are a function of the command and the settings.\<close>

fun call_of :: "Settings \<Rightarrow> command \<Rightarrow> wf_call" where
  "call_of s (Do_plan t) = Call_plan t (AGENT_START_TO_CLOSE s) (SCHEDULE_TO_START s) (AGENT_RETRY s)"
| "call_of s (Do_generate_code x) =
     Call_generate_code x (AGENT_START_TO_CLOSE s) (SCHEDULE_TO_START s) (AGENT_RETRY s)"
| "call_of s (Do_run_sandbox x) =
     Call_run_sandbox x (SANDBOX_START_TO_CLOSE s) (SCHEDULE_TO_START s) (SANDBOX_HEARTBEAT s) (SANDBOX_RETRY s)"
| "call_of s (Do_summarize x) =
     Call_summarize x (AGENT_START_TO_CLOSE s) (SCHEDULE_TO_START s) (AGENT_RETRY s)"

lemma calls_of_commands:
  "map (call_of s) (commands s acts inp) = fst (workflow_run s acts inp init_workflow)"
  by (auto simp: commands_def run_defs split: sum.splits)

lemma take_Suc_same:
  assumes "\<forall>c \<in> set (take n (commands s acts inp)). same_answer acts acts' c"
  shows "take (Suc n) (commands s' acts' inp) = take (Suc n) (commands s acts inp)"
proof -
  consider "n = 0" | "n = 1" | "n = 2" | "n \<ge> 3" by linarith
  then show ?thesis
  proof cases
    case 4
    then obtain m where "n = 3 + m" by (rule le_Suc_ex [THEN exE])
    then have n: "n = Suc (Suc (Suc m))" by simp
    show ?thesis
      using assms unfolding n commands_eq [of s] commands_eq [of s']
      by (auto split: sum.splits)
  qed (use assms in \<open>auto simp: commands_eq [of s] commands_eq [of s'] numeral_2_eq_2 split: sum.splits\<close>)
qed

lemma run_same_end:
  assumes "\<forall>c \<in> set (commands s acts inp). same_answer acts acts' c"
  shows "snd (workflow_run s' acts' inp init_workflow) = snd (workflow_run s acts inp init_workflow)"
proof -
  note same = assms [unfolded commands_eq [of s]]
  show ?thesis
  proof (cases "a_plan acts (ri_task inp)")
    case (Inl e)
    then have "a_plan acts' (ri_task inp) = Inl e" using same by simp
    with Inl show ?thesis by (simp add: run_defs)
  next
    case plan: (Inr p)
    then have p: "a_plan acts' (ri_task inp) = Inr p" using same by simp
    show ?thesis
    proof (cases "a_generate_code acts p")
      case (Inl e)
      then have "a_generate_code acts' p = Inl e" using same plan by simp
      with Inl plan p show ?thesis by (simp add: run_defs)
    next
      case code: (Inr code)
      then have c: "a_generate_code acts' p = Inr code" using same plan by simp
      have "a_run_sandbox acts' (sandbox_args inp code) = a_run_sandbox acts (sandbox_args inp code)"
        using same plan code by simp
      moreover have "a_summarize acts' \<lparr>sa_plan = p, sa_sandbox = r\<rparr> = a_summarize acts \<lparr>sa_plan = p, sa_sandbox = r\<rparr>"
        if "a_run_sandbox acts (sandbox_args inp code) = Inr r" "ok r" for r
        using same plan code that by simp
      ultimately show ?thesis
        using plan p code c by (auto simp: run_defs split: sum.split)
    qed
  qed
qed

text \<open>
  C17. The workflow is deterministic on replay: when a worker with any settings runs the workflow again
  and gets the recorded answers to the first \<open>n\<close> activities, then the commands up to the next one
  are the recorded ones, whatever the answers after that are; and when all answers were
  recorded, the replay ends with the same attributes and the same result.  With the same
  settings the calls agree with their timeouts and policies as well.
\<close>

theorem replay_same_commands:
  assumes "\<forall>call \<in> set (take n (fst (workflow_run s acts inp init_workflow))). agree acts acts' call"
  shows "take (Suc n) (commands s' acts' inp) = take (Suc n) (commands s acts inp)
    \<and> (length (commands s acts inp) \<le> n \<longrightarrow>
         snd (workflow_run s' acts' inp init_workflow) = snd (workflow_run s acts inp init_workflow))
    \<and> take (Suc n) (fst (workflow_run s acts' inp init_workflow))
        = take (Suc n) (fst (workflow_run s acts inp init_workflow))"
proof -
  have same: "\<forall>c \<in> set (take n (commands s acts inp)). same_answer acts acts' c"
    using assms by (simp add: commands_def take_map)
  have end_same: "length (commands s acts inp) \<le> n \<longrightarrow>
      snd (workflow_run s' acts' inp init_workflow) = snd (workflow_run s acts inp init_workflow)"
    using same run_same_end by simp
  have "take (Suc n) (fst (workflow_run s acts' inp init_workflow))
      = take (Suc n) (fst (workflow_run s acts inp init_workflow))"
    using arg_cong [OF take_Suc_same [OF same, of s], of "map (call_of s)"]
    by (simp only: take_map [symmetric] calls_of_commands)
  with take_Suc_same [OF same, of s'] end_same show ?thesis by blast
qed

definition sample_acts_until :: "SandboxResult result \<Rightarrow> Activities" where
  "sample_acts_until r =
     \<lparr>a_plan = (\<lambda>t. Inr \<lparr>pl_task = t, pl_directive = lit ''fail'', pl_steps = []\<rparr>),
      a_generate_code = (\<lambda>p. Inr (pl_directive p)), a_run_sandbox = (\<lambda>a. r),
      a_summarize = (\<lambda>a. Inl CancelledError)\<rparr>"

text \<open>A worker that is lost while the sandbox runs, and one that replays the two recorded answers.\<close>

theorem replay_same_commands_witness:
  "\<forall>s s' inp r r'. take 3 (commands s' (sample_acts_until r') inp) = take 3 (commands s (sample_acts_until r) inp)"
proof (intro allI)
  fix s s' inp r r'
  have "\<forall>call \<in> set (take 2 (fst (workflow_run s (sample_acts_until r) inp init_workflow))).
      agree (sample_acts_until r) (sample_acts_until r') call"
    by (auto simp: run_defs sample_acts_until_def numeral_2_eq_2 split: sum.splits)
  from replay_same_commands [OF this, of s']
  show "take 3 (commands s' (sample_acts_until r') inp) = take 3 (commands s (sample_acts_until r) inp)"
    by (simp add: numeral_3_eq_3 numeral_2_eq_2)
qed

end
