(* ===== verification/Telemetry.thy ===== *)
theory Telemetry
  imports AgentActivities SandboxActivity Workflow
begin

text \<open>
  What the telemetry of a run shows of the task, the program and its output, over all four
  activities.  The sandbox calls among an activity's events are not telemetry: they go to the
  container tool.
\<close>

definition telemetry :: "act_event list \<Rightarrow> act_event list" where
  "telemetry es = filter (\<lambda>e. case e of Sbx x \<Rightarrow> False | _ \<Rightarrow> True) es"

lemma telemetry_simps [simp]:
  "telemetry [] = []"
  "telemetry (Sbx x # es) = telemetry es"
  "telemetry (Set_run_id r # es) = Set_run_id r # telemetry es"
  "telemetry (Set_tenant_id t # es) = Set_tenant_id t # telemetry es"
  "telemetry (Attr sp k v # es) = Attr sp k v # telemetry es"
  "telemetry (Exception_recorded sp ex # es) = Exception_recorded sp ex # telemetry es"
  "telemetry (Span_error sp msg # es) = Span_error sp msg # telemetry es"
  "telemetry (Log l msg xs # es) = Log l msg xs # telemetry es"
  "telemetry (es @ es') = telemetry es @ telemetry es'"
  by (simp_all add: telemetry_def)

lemma telemetry_map_Sbx [simp]: "telemetry (map Sbx es) = []"
  by (induction es) auto

lemma telemetry_set_attrs [simp]: "telemetry (set_attrs sp attrs) = set_attrs sp attrs"
  by (induction attrs) (auto simp: set_attrs_def)

lemma telemetry_helpers [simp]:
  "telemetry (set_observation_type sp obs) = set_observation_type sp obs"
  "telemetry (record_error sp e text r t) = record_error sp e text r t"
  by (simp_all add: set_observation_type_def record_error_def)

section \<open>The sandbox activity\<close>

text \<open>Two results that differ in their outputs alone.\<close>

definition same_verdict :: "SandboxResult \<Rightarrow> SandboxResult \<Rightarrow> bool" where
  "same_verdict r r' \<longleftrightarrow> r' = r\<lparr>stdout_tail := stdout_tail r', stderr_tail := stderr_tail r'\<rparr>"

lemma same_verdictE:
  assumes "same_verdict r r'"
  obtains out err where "r' = r\<lparr>stdout_tail := out, stderr_tail := err\<rparr>"
  using assms unfolding same_verdict_def by blast

lemma result_events_verdict:
  assumes "same_verdict r r'"
  shows "result_events r' = result_events r"
  using assms
  by (elim same_verdictE) (simp add: result_events_def ok_def failure_reason_def)

lemma telemetry_guarded_run:
  assumes "snd (guarded_run r_preflight r_run r_kill env args attempt) = Return r"
  shows "telemetry (fst (guarded_run r_preflight r_run r_kill env args attempt)) =
    set_observation_type exec_span (lit ''tool'') @
    set_attrs exec_span [(lit ''sandbox.runtime'', AStr (rs_runtime args))] @
    telemetry (result_events r)"
  using assms
  by (auto simp: guarded_run_def guarded_body_def fst_catch snd_catch fst_ebind snd_ebind
      on_fault_not_Return split: outcome.splits)

lemma telemetry_run_sandbox:
  assumes "snd (run_sandbox I s attempt env args) = Return r"
    and "utf8_encode (rs_code args) = Inr bs"
  shows "telemetry (fst (run_sandbox I s attempt env args)) =
    [Set_run_id (rs_run_id args), Set_tenant_id (Some (rs_tenant_id args))] @
    set_observation_type act_span (lit ''span'') @
    set_attrs act_span
      [(lit ''run.id'', AStr (rs_run_id args)),
       (lit ''tenant.id'', AStr (rs_tenant_id args)),
       (lit ''step.name'', AStr (lit ''run_sandbox'')),
       (lit ''attempt'', AInt attempt),
       (lit ''sandbox.runtime'', AStr (rs_runtime args)),
       (lit ''code.sha256'', AStr (sha256_hex I bs))] @
    set_observation_type exec_span (lit ''tool'') @
    set_attrs exec_span [(lit ''sandbox.runtime'', AStr (rs_runtime args))] @
    telemetry (result_events r)"
proof -
  have size: "\<not> int (length (rs_code args)) > max_code_bytes s"
    using assms(1) activity_result_cases [of I s attempt env args r] by linarith
  obtain q where q: "get_runner I (rs_runtime args) = Inr q"
    using assms(1) run_sandbox_not_admitted [of I s args attempt env] by (auto simp: admitted_def)
  let ?g = "guarded_run (runner_preflight I q) (runner_run I s q) (runner_kill I q) env args attempt"
  have "snd ?g = Return r" using assms size q by (simp add: run_sandbox_def snd_ebind)
  from telemetry_guarded_run [OF this] show ?thesis
    using assms(2) size q by (simp add: run_sandbox_def fst_ebind)
qed

lemma sandbox_telemetry_same:
  assumes "snd (run_sandbox I s attempt env args) = Return r"
    and "snd (run_sandbox I s attempt env' args') = Return r'"
    and "same_verdict r r'"
    and "args' = args\<lparr>rs_code := code', rs_limits := limits'\<rparr>"
    and "sha I (rs_code args) = sha I code'"
  shows "telemetry (fst (run_sandbox I s attempt env' args')) = telemetry (fst (run_sandbox I s attempt env args))"
proof -
  obtain bs bs' where bs: "utf8_encode (rs_code args) = Inr bs" "utf8_encode (rs_code args') = Inr bs'"
    using assms(1,2) by (auto simp: activity_result_cases)
  then have "sha256_hex I bs' = sha256_hex I bs" using assms(4,5) by (simp add: sha_cases)
  then show ?thesis
    unfolding telemetry_run_sandbox [OF assms(1) bs(1)] telemetry_run_sandbox [OF assms(2) bs(2)]
    by (simp add: assms(4) result_events_verdict [OF assms(3)])
qed

section \<open>Content stays out\<close>

lemma summary_telemetry_same:
  "length (summarize x) = length (summarize y) \<Longrightarrow>
     fst (summarize_act wid attempt x) = fst (summarize_act wid attempt y)"
  by (simp add: summarize_act_def bind_info_def Let_def fst_ebind)

text \<open>
  C31. The telemetry of a run that succeeds does not carry its content: unless payload traces are
  enabled, two tasks with the same length, digest and directive, whose programs have the same
  length and digest, and whose sandbox results have the same verdict and summaries of the same
  length, leave the same spans and log records in all four activities, whatever the texts of the
  tasks, the programs and their outputs are.
\<close>

theorem telemetry_hides_content:
  assumes "\<not> trace_payloads s"
    and "sha I task = sha I task'" and "length task = length task'"
    and "parse_directive (case_tab I) task = parse_directive (case_tab I) task'"
    and "generate_code p = Inr code" and "generate_code p' = Inr code'"
    and "sha I code = sha I code'" and "length code = length code'"
    and "snd (run_sandbox I s k env (sandbox_args inp code)) = Return r"
    and "snd (run_sandbox I s k env' (sandbox_args inp code')) = Return r'"
    and "same_verdict r r'"
    and "length (summarize \<lparr>sa_plan = p, sa_sandbox = r\<rparr>) = length (summarize \<lparr>sa_plan = p', sa_sandbox = r'\<rparr>)"
  shows "fst (plan_act I wid k task) = fst (plan_act I wid k task')
    \<and> fst (generate_code_act I s wid k p) = fst (generate_code_act I s wid k p')
    \<and> telemetry (fst (run_sandbox I s k env (sandbox_args inp code))) =
        telemetry (fst (run_sandbox I s k env' (sandbox_args inp code')))
    \<and> fst (summarize_act wid k \<lparr>sa_plan = p, sa_sandbox = r\<rparr>) =
        fst (summarize_act wid k \<lparr>sa_plan = p', sa_sandbox = r'\<rparr>)"
proof -
  have "sandbox_args inp code' = (sandbox_args inp code)\<lparr>rs_code := code', rs_limits := ri_limits inp\<rparr>"
    by (simp add: sandbox_args_def)
  from sandbox_telemetry_same [OF assms(9,10,11) this] assms(7)
  have "telemetry (fst (run_sandbox I s k env (sandbox_args inp code))) =
      telemetry (fst (run_sandbox I s k env' (sandbox_args inp code')))"
    by (simp add: sandbox_args_def)
  with plan_telemetry_same [OF assms(2-4)] code_telemetry_same [OF assms(1,5-8)]
    summary_telemetry_same [OF assms(12)]
  show ?thesis by blast
qed

section \<open>A short program's telemetry\<close>

text \<open>The result of a program that ends at once with the given outputs.\<close>

definition sample_verdict :: "int \<Rightarrow> pystr \<Rightarrow> pystr \<Rightarrow> SandboxResult" where
  "sample_verdict rc out err =
     \<lparr>sb_runtime = lit ''runsc'', exit_code = rc, stdout_tail = out, stderr_tail = err,
      wall_ms = elapsed_ms 0 0, oom_killed = (rc = 137), wall_clock_exceeded = False,
      image_digest = Some (lit ''sha256:1''), truncated = False\<rparr>"

abbreviation printed_env :: "int \<Rightarrow> char list \<Rightarrow> char list \<Rightarrow> run_env" where
  "printed_env rc out err \<equiv> sample_env [exit_poll rc] [ascii_bytes out] [ascii_bytes err]"

lemma safe_short:
  assumes "length t \<le> 1000"
  shows "safe 1048576 (Drained [ascii_bytes t]) = Inr (ascii_bytes t, False)"
proof -
  have "length (ascii_bytes t) \<le> 1000" using assms by (simp add: ascii_bytes_def)
  then show ?thesis by (simp add: safe_def read_capped_tail Let_def last_n_def)
qed

lemma decode_short: "is_ascii (lit t) \<Longrightarrow> decode (ascii_bytes t) = lit t"
  by (simp add: decode_def utf8_decode_ascii_bytes)

lemma printed_run:
  assumes "is_ascii (lit out)" and "length out \<le> 1000" and "is_ascii (lit err)" and "length err \<le> 1000"
    and "rs_run_id args = lit ''demo:1''" and "is_ascii (rs_code args)" and "rs_limits args = default_limits"
  shows "snd (gvisor_run I s (lit ''runsc'') (printed_env rc out err) args 1 hb) =
    (case classify_infra I (lit ''runsc'') rc (lit err) of
       Inl e \<Rightarrow> Raise e
     | Inr _ \<Rightarrow> Return (sample_verdict rc (lit out) (lit err)))"
proof -
  have "wall_clock_s (rs_limits args) = 30" "output_max_bytes (rs_limits args) = 1048576"
    using assms(7) by (simp_all add: default_limits_def)
  with safe_short [OF assms(2)] safe_short [OF assms(4)] decode_short [OF assms(1)] decode_short [OF assms(3)]
  show ?thesis
    by (simp add: sample_run_args [OF assms(5,6)] exit_result_def Let_def snd_ebind snd_lift_res
        sample_verdict_def split: sum.split)
qed

lemma printed_activity:
  assumes "is_ascii (lit out)" and "length out \<le> 1000" and "is_ascii (lit err)" and "length err \<le> 1000"
    and "rs_run_id args = lit ''demo:1''" and "is_ascii (rs_code args)" and "rs_limits args = default_limits"
    and "length (rs_code args) \<le> 262144" and "rs_runtime args = lit ''runsc''"
    and "classify_infra I (lit ''runsc'') rc (lit err) = Inr ()"
  shows "snd (run_sandbox I default_settings 1 (printed_env rc out err) args)
    = Return (sample_verdict rc (lit out) (lit err))"
  using assms(6,8-10) printed_run [OF assms(1-7), of I default_settings rc True]
    sample_preflight [of I "[exit_poll rc]" "[ascii_bytes out]" "[ascii_bytes err]"]
  by (simp add: activity_result_cases utf8_encode_ascii default_settings_def)

definition sample_spec :: RunInput where
  "sample_spec =
     \<lparr>ri_run_id = lit ''demo:1'', ri_tenant_id = lit ''demo'', ri_task = lit ''a'',
      ri_limits = default_limits, ri_sandbox_runtime = lit ''runsc''\<rparr>"

text \<open>Two runs of different tasks, whose programs print different texts.\<close>

definition sample_code :: "char list \<Rightarrow> pystr" where
  "sample_code t = NORMAL_head @ json_str (lit t) @ NORMAL_tail"

lemma sample_code_facts:
  assumes "t = ''a'' \<or> t = ''b''"
  shows "parse_directive (case_tab const_interp) (lit t) = lit ''normal''"
    and "generate_code (plan (case_tab const_interp) (lit t)) = Inr (sample_code t)"
    and "is_ascii (sample_code t)" and "length (sample_code t) \<le> 262144"
    and "length (sample_code t) = length (sample_code ''a'')"
proof -
  show d: "parse_directive (case_tab const_interp) (lit t) = lit ''normal''"
    using assms by (auto simp: parse_directive_def intro!: find_directive_short)
  show g: "generate_code (plan (case_tab const_interp) (lit t)) = Inr (sample_code t)"
    using d by (simp add: generate_code_def sample_code_def)
  have "length (concat (map utf8_units (lit t))) \<le> 1"
    using assms by (auto simp: utf8_units_def lit_Cons)
  then show "is_ascii (sample_code t)" "length (sample_code t) \<le> 262144"
    using generated_bounds [of "lit ''normal''" "lit t"] by (auto simp: sample_code_def)
  show "length (sample_code t) = length (sample_code ''a'')"
    using assms by (auto simp: sample_code_def json_str_def json_unit_def utf16_def utf16_units_def lit_Cons)
qed

lemma sample_sha: "is_ascii x \<Longrightarrow> sha const_interp x = Inr (replicate 64 48)"
  by (simp add: sha_def const_interp_def utf8_encode_ascii)

lemma sample_printed:
  assumes "is_ascii (lit out)" and "length out \<le> 1000" and "t = ''a'' \<or> t = ''b''"
  shows "snd (run_sandbox const_interp default_settings 1 (printed_env 0 out [])
      (sandbox_args sample_spec (sample_code t))) = Return (sample_verdict 0 (lit out) [])"
  using assms sample_code_facts(3,4) [OF assms(3)]
  by (subst printed_activity) (simp_all add: sandbox_args_def sample_spec_def classify_infra_def LAUNCH_RCS_def)

theorem telemetry_hides_content_witness:
  "fst (plan_act const_interp (lit ''demo:1'') 1 (lit ''a''))
     = fst (plan_act const_interp (lit ''demo:1'') 1 (lit ''b''))
   \<and> telemetry (fst (run_sandbox const_interp default_settings 1 (printed_env 0 ''one secret'' [])
         (sandbox_args sample_spec (sample_code ''a''))))
     = telemetry (fst (run_sandbox const_interp default_settings 1 (printed_env 0 ''two secret'' [])
         (sandbox_args sample_spec (sample_code ''b''))))"
proof -
  let ?p = "\<lambda>t. plan (case_tab const_interp) (lit t)"
  note a = sample_code_facts [of "''a''", simplified] and b = sample_code_facts [of "''b''", simplified]
  have len: "length (summarize \<lparr>sa_plan = ?p ''a'', sa_sandbox = sample_verdict 0 (lit ''one secret'') []\<rparr>)
      = length (summarize \<lparr>sa_plan = ?p ''b'', sa_sandbox = sample_verdict 0 (lit ''two secret'') []\<rparr>)"
    using a(1) b(1)
    by (simp add: summarize_def Let_def ok_def sample_verdict_def plan_def one_line_def strip_def
        is_space_def lit_Cons replace1_def)
  have t: "\<not> trace_payloads default_settings" by (simp add: default_settings_def)
  have h: "sha const_interp (lit ''a'') = sha const_interp (lit ''b'')"
    "sha const_interp (sample_code ''a'') = sha const_interp (sample_code ''b'')"
    using a(3) b(3) by (simp_all add: sample_sha)
  have d: "parse_directive (case_tab const_interp) (lit ''a'') = parse_directive (case_tab const_interp) (lit ''b'')"
    "length (lit ''a'') = length (lit ''b'')" "length (sample_code ''a'') = length (sample_code ''b'')"
    using a(1) b(1,5) by simp_all
  have r: "snd (run_sandbox const_interp default_settings 1 (printed_env 0 ''one secret'' [])
        (sandbox_args sample_spec (sample_code ''a''))) = Return (sample_verdict 0 (lit ''one secret'') [])"
    "snd (run_sandbox const_interp default_settings 1 (printed_env 0 ''two secret'' [])
        (sandbox_args sample_spec (sample_code ''b''))) = Return (sample_verdict 0 (lit ''two secret'') [])"
    by (rule sample_printed; simp)+
  have v: "same_verdict (sample_verdict 0 (lit ''one secret'') []) (sample_verdict 0 (lit ''two secret'') [])"
    by (simp add: same_verdict_def sample_verdict_def)
  from telemetry_hides_content [OF t h(1) d(2,1) a(2) b(2) h(2) d(3) r v len]
  show ?thesis by blast
qed

section \<open>Output of a program in the telemetry\<close>

text \<open>
  C39. The output of a program reaches the telemetry although payload traces are off: a program
  whose exit code and error output are taken for a launch failure makes the activity raise the
  retryable error instead of returning a result, and the error output, whatever else it says, is
  the text of that error and of the status of the activity's span.
\<close>

theorem launch_failure_leaks_output:
  assumes "is_ascii (lit t)" and "length t \<le> 1000"
    and "classify_infra I (lit ''runsc'') rc (lit t) = Inl (SandboxInfraError m)"
  shows "m = lit ''sandbox failed to start (docker rc='' @ str_int rc @ lit ''): '' @ strip (lit t)
    \<and> snd (run_sandbox I default_settings 1 (printed_env rc [] t) (sample_args 30))
        = Raise (ApplicationError m (lit ''SandboxInfraError'') False)
    \<and> Span_error act_span m \<in> set (fst (run_sandbox I default_settings 1 (printed_env rc [] t) (sample_args 30)))
    \<and> \<not> trace_payloads default_settings"
proof -
  let ?q = "GvisorRunner (lit ''runsc'')"
  let ?env = "printed_env rc [] t"
  let ?body = "guarded_body (runner_preflight I ?q) (runner_run I default_settings ?q) ?env (sample_args 30) 1"
  have m: "m = lit ''sandbox failed to start (docker rc='' @ str_int rc @ lit ''): '' @ strip (lit t)"
    using assms(3) by (auto simp: classify_infra_def Let_def split: if_splits)
  have l: "rs_limits (sample_args 30) = default_limits"
    by (simp add: sample_args_def default_limits_def)
  have "snd (gvisor_run I default_settings (lit ''runsc'') ?env (sample_args 30) 1 True)
      = Raise (SandboxInfraError m)"
    using assms l by (subst printed_run) simp_all
  then have body: "snd ?body = Raise (SandboxInfraError m)"
    using sample_preflight [of I "[exit_poll rc]" "[ascii_bytes []]" "[ascii_bytes t]"]
    by (simp add: guarded_body_end runner_preflight_def runner_run_def)
  have "Span_error act_span m \<in> set (fst (guarded_run (runner_preflight I ?q)
      (runner_run I default_settings ?q) (runner_kill I ?q) ?env (sample_args 30) 1))"
    using body by (simp add: guarded_run_def fst_catch on_fault_def record_error_def)
  moreover obtain es where "fst (run_sandbox I default_settings 1 ?env (sample_args 30)) =
      es @ fst (guarded_run (runner_preflight I ?q) (runner_run I default_settings ?q) (runner_kill I ?q) ?env
        (sample_args 30) 1)"
    using run_sandbox_admitted [OF sample_admitted] by blast
  ultimately have "Span_error act_span m \<in> set (fst (run_sandbox I default_settings 1 ?env (sample_args 30)))"
    by simp
  with m body show ?thesis
    by (simp add: sample_activity guarded_run_def snd_catch on_fault_def snd_ebind)
      (simp add: default_settings_def)
qed

theorem launch_failure_leaks_output_witness:
  "\<forall>I. Span_error act_span
        (lit ''sandbox failed to start (docker rc='' @ str_int 125 @ lit ''): '' @ lit ''docker: the secret'')
     \<in> set (fst (run_sandbox I default_settings 1 (printed_env 125 [] ''docker: the secret'') (sample_args 30)))"
proof (intro allI)
  fix I
  let ?t = "''docker: the secret''"
  have s: "strip (lit ?t) = lit ?t" by (simp add: strip_def is_space_def lit_Cons)
  have short: "is_ascii (lit ?t)" "length ?t \<le> 1000" by simp_all
  obtain m where m: "classify_infra I (lit ''runsc'') 125 (lit ?t) = Inl (SandboxInfraError m)"
    by (simp add: classify_infra_def LAUNCH_RCS_def LAUNCH_SIGNATURES_def Let_def py_eval ascii_lower_def)
  from launch_failure_leaks_output [OF short m]
  show "Span_error act_span (lit ''sandbox failed to start (docker rc='' @ str_int 125 @ lit ''): '' @ lit ?t)
     \<in> set (fst (run_sandbox I default_settings 1 (printed_env 125 [] ?t) (sample_args 30)))"
    unfolding s by blast
qed

end
