(* ===== verification/Attempts.thy ===== *)
theory Attempts
  imports SandboxActivity WorkflowRuns
begin

text \<open>
  The sandbox activity under its retry policy: what happens over all attempts of the one sandbox
  call of a run.  The service that repeats an activity is not part of the program; what it
  documents of a retry policy is the predicate \<open>obeys_policy\<close> on the outcomes of the attempts,
  and the properties hold for every sequence of attempts that satisfies it.
\<close>

section \<open>Attempts under a policy\<close>

text \<open>An exception fails an attempt for good when it is a cancellation, when it says so itself, or
  when its type, which is the class name unless the exception names one, is listed.\<close>

definition may_retry :: "RetryPolicy \<Rightarrow> exn \<Rightarrow> bool" where
  "may_retry p e =
     (case e of
        CancelledError \<Rightarrow> False
      | ApplicationError m t non_retryable \<Rightarrow> \<not> non_retryable \<and> t \<notin> set (non_retryable_error_types p)
      | _ \<Rightarrow> exn_name e \<notin> set (non_retryable_error_types p))"

text \<open>
  There are at most as many attempts as the policy says, unless it says none.  Every attempt but
  the last was timed out by the service (no heartbeat within the heartbeat timeout, or not ended
  within the start-to-close timeout, as when its worker is lost), whatever it raises later, or it
  has failed with an exception that may be retried.  The list says which attempts were timed out.
\<close>

definition obeys_policy :: "RetryPolicy \<Rightarrow> bool list \<Rightarrow> 'a outcome list \<Rightarrow> bool" where
  "obeys_policy p timed outs \<longleftrightarrow>
     (0 < maximum_attempts p \<longrightarrow> int (length outs) \<le> maximum_attempts p)
     \<and> (\<forall>i. Suc i < length outs \<longrightarrow> timed ! i \<or> (\<exists>e. outs ! i = Raise e \<and> may_retry p e))"

text \<open>The attempts of one call, each with its number and its own environment.\<close>

fun attempts ::
  "interp \<Rightarrow> Settings \<Rightarrow> RunSandboxArgs \<Rightarrow> int \<Rightarrow> run_env list \<Rightarrow> (act_event, SandboxResult) eff list" where
  "attempts I s args k [] = []"
| "attempts I s args k (env # envs) = run_sandbox I s k env args # attempts I s args (k + 1) envs"

lemma length_attempts [simp]: "length (attempts I s args k envs) = length envs"
  by (induction envs arbitrary: k) simp_all

definition all_launches :: "(act_event, SandboxResult) eff list \<Rightarrow> pystr list list" where
  "all_launches ms = concat (map act_launches ms)"

lemma all_launches_simps [simp]:
  "all_launches [] = []"
  "all_launches (m # ms) = act_launches m @ all_launches ms"
  by (simp_all add: all_launches_def)

definition container_of :: "pystr list \<Rightarrow> pystr list" where
  "container_of argv = take 2 (drop 3 argv)"

section \<open>The containers of all attempts\<close>

lemma container_names_differ:
  assumes "names_container I run_id k argv" and "names_container I run_id k' argv'"
    and "container_of argv = container_of argv'"
  shows "k = k'"
  using assms
  by (auto simp: names_container_def container_of_def container_name_def rmap_def split: sum.splits)

lemma attempt_launch:
  assumes "\<not> is_flag (sandbox_image s)" and "argv \<in> set (act_launches (run_sandbox I s k env args))"
  shows "contained_argv argv \<and> names_container I (rs_run_id args) k argv
    \<and> act_launches (run_sandbox I s k env args) = [argv]"
  using launch_facts [OF assms] by simp

lemma attempts_upto:
  assumes "\<not> is_flag (sandbox_image s)" and "argv \<in> set (all_launches (attempts I s args k envs))"
  shows "contained_argv argv
    \<and> (\<exists>j. k \<le> j \<and> j < k + int (length envs) \<and> names_container I (rs_run_id args) j argv)"
  using assms(2)
proof (induction envs arbitrary: k)
  case (Cons env envs)
  then consider "argv \<in> set (act_launches (run_sandbox I s k env args))"
    | "argv \<in> set (all_launches (attempts I s args (k + 1) envs))" by auto
  then show ?case
  proof cases
    case 1
    with attempt_launch [OF assms(1)] show ?thesis by fastforce
  next
    case 2
    from Cons.IH [OF this] obtain j where "contained_argv argv" "k + 1 \<le> j"
      "j < k + 1 + int (length envs)" "names_container I (rs_run_id args) j argv" by blast
    then show ?thesis by (intro conjI exI [of _ j]) simp_all
  qed
qed simp

lemma attempts_launches:
  assumes "\<not> is_flag (sandbox_image s)"
  shows "length (all_launches (attempts I s args k envs)) \<le> length envs
    \<and> distinct (map container_of (all_launches (attempts I s args k envs)))"
proof (induction envs arbitrary: k)
  case (Cons env envs)
  show ?case
  proof (cases "act_launches (run_sandbox I s k env args)")
    case Nil
    with Cons.IH [of "k + 1"] show ?thesis by auto
  next
    case (Cons argv rest)
    then have a: "names_container I (rs_run_id args) k argv" "rest = []"
      using attempt_launch [OF assms, of argv I k env args] by auto
    have "container_of argv \<noteq> container_of argv'"
      if "argv' \<in> set (all_launches (attempts I s args (k + 1) envs))" for argv'
      using attempts_upto [OF assms that] container_names_differ [OF a(1)] by fastforce
    with Cons.IH [of "k + 1"] a Cons show ?thesis by auto
  qed
qed simp

section \<open>The containers of a run\<close>

text \<open>All containers that the calls of a workflow launch, where each sandbox call is attempted in
  the given environments.\<close>

fun call_attempts :: "interp \<Rightarrow> Settings \<Rightarrow> run_env list \<Rightarrow> wf_call \<Rightarrow> (act_event, SandboxResult) eff list" where
  "call_attempts I s envs (Call_run_sandbox args a b h p) = attempts I s args 1 envs"
| "call_attempts I s envs _ = []"

fun call_policy :: "wf_call \<Rightarrow> RetryPolicy" where
  "call_policy (Call_plan x a b p) = p"
| "call_policy (Call_generate_code x a b p) = p"
| "call_policy (Call_run_sandbox x a b h p) = p"
| "call_policy (Call_summarize x a b p) = p"

definition run_launches :: "interp \<Rightarrow> Settings \<Rightarrow> run_env list \<Rightarrow> wf_call list \<Rightarrow> pystr list list" where
  "run_launches I s envs calls = concat (map (\<lambda>c. all_launches (call_attempts I s envs c)) calls)"

text \<open>A run issues at most one sandbox call.\<close>

lemma one_sandbox_call:
  "run_launches I s envs (fst (workflow_run s acts inp init_workflow)) = []
   \<or> (\<exists>args a b h. Call_run_sandbox args a b h (SANDBOX_RETRY s) \<in> set (fst (workflow_run s acts inp init_workflow))
        \<and> rs_run_id args = ri_run_id inp
        \<and> run_launches I s envs (fst (workflow_run s acts inp init_workflow))
            = all_launches (attempts I s args 1 envs))"
  by (auto simp: run_defs run_launches_def sandbox_args_def split: sum.splits)

text \<open>
  C9. The containers of a run are bounded and told apart: over all attempts of all calls of a
  workflow, repeated as the policy that the workflow passes allows, at most \<open>max_attempts\<close>
  containers are launched, every one is contained and carries the name of this run and of its own
  attempt, and no two have the same name, so that a container left by a lost attempt neither
  blocks the next attempt nor is mistaken for it.
\<close>

theorem run_containers_bounded:
  assumes "\<not> is_flag (sandbox_image s)"
    and "\<And>call. call \<in> set (fst (workflow_run s acts inp init_workflow)) \<Longrightarrow>
      obeys_policy (call_policy call) (timed call) (map snd (call_attempts I s envs call))"
    and "ls = run_launches I s envs (fst (workflow_run s acts inp init_workflow))"
    and "0 < max_attempts s"
  shows "int (length ls) \<le> max_attempts s
    \<and> distinct (map container_of ls)
    \<and> (\<forall>argv \<in> set ls. contained_argv argv
         \<and> (\<exists>k. 1 \<le> k \<and> k \<le> max_attempts s \<and> names_container I (ri_run_id inp) k argv))"
proof (cases "ls = []")
  case False
  with one_sandbox_call [of I s envs acts inp] obtain args a b h where
    c: "Call_run_sandbox args a b h (SANDBOX_RETRY s) \<in> set (fst (workflow_run s acts inp init_workflow))"
    and r: "rs_run_id args = ri_run_id inp" and ls: "ls = all_launches (attempts I s args 1 envs)"
    unfolding assms(3) by blast
  have n: "int (length envs) \<le> max_attempts s"
    using assms(2) [OF c] assms(4) by (simp add: obeys_policy_def SANDBOX_RETRY_def)
  show ?thesis
    using attempts_launches [OF assms(1), of I args 1 envs] n attempts_upto [OF assms(1), of _ I args 1 envs]
    unfolding ls r [symmetric] by fastforce
qed (use assms(4) in simp)

definition sample_run_input :: RunInput where
  "sample_run_input =
     \<lparr>ri_run_id = lit ''demo:1'', ri_tenant_id = lit ''demo'', ri_task = lit ''t'',
      ri_limits = rs_limits (sample_args 30), ri_sandbox_runtime = lit ''runsc''\<rparr>"

definition sample_acts :: "SandboxResult result \<Rightarrow> Activities" where
  "sample_acts r =
     \<lparr>a_plan = (\<lambda>t. Inr \<lparr>pl_task = t, pl_directive = lit ''normal'', pl_steps = []\<rparr>),
      a_generate_code = (\<lambda>p. Inr (lit ''pass'')), a_run_sandbox = (\<lambda>a. r),
      a_summarize = (\<lambda>a. Inl CancelledError)\<rparr>"

lemma sample_sandbox_args: "sandbox_args sample_run_input (lit ''pass'') = sample_args 30"
  by (simp add: sandbox_args_def sample_run_input_def sample_args_def)

lemma sample_calls:
  "fst (workflow_run s (sample_acts (Inl e)) sample_run_input init_workflow) =
     [Call_plan (lit ''t'') (AGENT_START_TO_CLOSE s) (SCHEDULE_TO_START s) (AGENT_RETRY s),
      Call_generate_code \<lparr>pl_task = lit ''t'', pl_directive = lit ''normal'', pl_steps = []\<rparr>
        (AGENT_START_TO_CLOSE s) (SCHEDULE_TO_START s) (AGENT_RETRY s),
      Call_run_sandbox (sample_args 30) (SANDBOX_START_TO_CLOSE s) (SCHEDULE_TO_START s)
        (SANDBOX_HEARTBEAT s) (SANDBOX_RETRY s)]"
  by (simp add: run_defs sample_acts_def sample_sandbox_args) (simp add: sample_run_input_def)

lemma default_max_attempts: "max_attempts default_settings = 3"
  by (simp add: default_settings_def)

theorem run_containers_bounded_witness:
  "\<forall>I. \<exists>argv. run_launches I default_settings [sample_env [exit_poll 0] [] []]
      (fst (workflow_run default_settings (sample_acts (Inl CancelledError)) sample_run_input init_workflow))
      = [argv] \<and> contained_argv argv"
proof (intro allI)
  fix I
  let ?calls = "fst (workflow_run default_settings (sample_acts (Inl CancelledError)) sample_run_input init_workflow)"
  let ?envs = "[sample_env [exit_poll 0] [] []]"
  have m: "0 < max_attempts default_settings" by (simp add: default_max_attempts)
  have i: "\<not> is_flag (sandbox_image default_settings)"
    by (simp add: default_settings_def is_flag_def lit_Cons)
  have o: "obeys_policy (call_policy call) [] (map snd (call_attempts I default_settings ?envs call))"
    if "call \<in> set ?calls" for call
    using that by (auto simp: sample_calls obeys_policy_def SANDBOX_RETRY_def default_max_attempts)
  have l: "run_launches I default_settings ?envs ?calls
      = act_launches (run_sandbox I default_settings 1 (sample_env [exit_poll 0] [] []) (sample_args 30))"
    by (simp add: sample_calls run_launches_def)
  obtain argv where "act_launches (run_sandbox I default_settings 1 (sample_env [exit_poll 0] [] [])
      (sample_args 30)) = [argv]"
    using sample_activity_launches launch_facts [OF i] by (metis list.set_intros(1) neq_Nil_conv)
  with l run_containers_bounded [of default_settings _ _ "\<lambda>_. []", OF i o refl m] show "\<exists>argv. run_launches I default_settings ?envs ?calls = [argv]
      \<and> contained_argv argv" by auto
qed

section \<open>Faults that are not repeated\<close>

text \<open>What no further attempt can change: code over the limit, an unknown runtime, or a runtime that
  the preflight check of the first attempt refuses.\<close>

definition policy_fault :: "interp \<Rightarrow> Settings \<Rightarrow> RunSandboxArgs \<Rightarrow> run_env \<Rightarrow> bool" where
  "policy_fault I s args env \<longleftrightarrow>
     max_code_bytes s < int (length (rs_code args))
     \<or> (\<exists>e. get_runner I (rs_runtime args) = Inl e)
     \<or> (\<exists>q bs m. get_runner I (rs_runtime args) = Inr q \<and> utf8_encode (rs_code args) = Inr bs
          \<and> snd (runner_preflight I q env) = Raise (SandboxPolicyViolation m))"

lemma policy_fault_outcome:
  assumes "policy_fault I s args env"
  shows "\<exists>e. snd (run_sandbox I s k env args) = Raise e \<and> \<not> may_retry (SANDBOX_RETRY s) e
    \<and> act_launches (run_sandbox I s k env args) = []"
proof (cases "max_code_bytes s < int (length (rs_code args)) \<or> (\<exists>e. get_runner I (rs_runtime args) = Inl e)")
  case True
  then have "\<exists>e. snd (run_sandbox I s k env args) = Raise e \<and> \<not> may_retry (SANDBOX_RETRY s) e"
    by (auto simp: run_sandbox_def snd_ebind get_runner_def may_retry_def SANDBOX_RETRY_def split: if_splits)
  moreover have "act_launches (run_sandbox I s k env args) = []"
    using True run_sandbox_not_admitted [of I s args k env] by (force simp: admitted_def act_launches_def)
  ultimately show ?thesis by blast
next
  case False
  with assms obtain q bs m where c: "get_runner I (rs_runtime args) = Inr q" "utf8_encode (rs_code args) = Inr bs"
    "snd (runner_preflight I q env) = Raise (SandboxPolicyViolation m)" by (auto simp: policy_fault_def)
  have q: "admitted I s args q" using False c by (auto simp: admitted_def)
  have "snd (run_sandbox I s k env args) = Raise (ApplicationError m (lit ''SandboxPolicyViolation'') True)"
    by (simp add: snd_run_sandbox [OF q] guarded_run_def snd_catch guarded_body_end c(3))
      (simp add: on_fault_def snd_ebind)
  moreover have "act_launches (run_sandbox I s k env args) = []"
    using dispatch.guarded_run_launches [of I q s env args k] c(3)
    by (simp add: act_launches_def sbx_run_sandbox [OF q])
  ultimately show ?thesis by (simp add: may_retry_def)
qed

lemma attempts_nth:
  "i < length envs \<Longrightarrow> attempts I s args k envs ! i = run_sandbox I s (k + int i) (envs ! i) args"
proof (induction envs arbitrary: k i)
  case (Cons env envs)
  then show ?case by (cases i) (simp_all add: algebra_simps)
qed simp

lemma policy_fault_everywhere:
  assumes "\<forall>env \<in> set envs. policy_fault I s args env"
  shows "all_launches (attempts I s args k envs) = []"
  using assms
proof (induction envs arbitrary: k)
  case (Cons env envs)
  with policy_fault_outcome [of I s args env k] show ?case by auto
qed simp

text \<open>
  C30. A fault that is no accident is not retried for what it raises: an attempt that finds the
  code over the limit, an unknown runtime or a runtime that its preflight check refuses launches
  nothing and ends in an exception that the policy does not retry, so that under a service that
  obeys the policy it is the last attempt unless the service itself had timed it out before it
  ended.  Code over the limit and an unknown runtime launch nothing over all attempts.
\<close>

theorem policy_fault_not_retried:
  assumes "obeys_policy (SANDBOX_RETRY s) timed (map snd (attempts I s args 1 envs))"
    and "i < length envs" and "policy_fault I s args (envs ! i)"
  shows "act_launches (attempts I s args 1 envs ! i) = []
    \<and> (\<exists>e. snd (attempts I s args 1 envs ! i) = Raise e \<and> \<not> may_retry (SANDBOX_RETRY s) e)
    \<and> (Suc i < length envs \<longrightarrow> timed ! i)
    \<and> (max_code_bytes s < int (length (rs_code args)) \<or> (\<exists>e. get_runner I (rs_runtime args) = Inl e)
        \<longrightarrow> all_launches (attempts I s args 1 envs) = [])"
proof -
  obtain e where e: "snd (attempts I s args 1 envs ! i) = Raise e" "\<not> may_retry (SANDBOX_RETRY s) e"
    "act_launches (attempts I s args 1 envs ! i) = []"
    using policy_fault_outcome [OF assms(3)] attempts_nth [OF assms(2)] by metis
  have "timed ! i" if "Suc i < length envs"
    using assms(1) that e(1,2) by (auto simp: obeys_policy_def)
  moreover have "all_launches (attempts I s args 1 envs) = []"
    if "max_code_bytes s < int (length (rs_code args)) \<or> (\<exists>e. get_runner I (rs_runtime args) = Inl e)"
    using that by (intro policy_fault_everywhere) (auto simp: policy_fault_def)
  ultimately show ?thesis using e by blast
qed

theorem policy_fault_not_retried_witness:
  "\<forall>I. \<exists>e. snd (run_sandbox I default_settings 1 (sample_env [] [] [])
        ((sample_args 30)\<lparr>rs_runtime := lit ''kata''\<rparr>)) = Raise e
      \<and> \<not> may_retry (SANDBOX_RETRY default_settings) e"
proof (intro allI)
  fix I
  let ?args = "(sample_args 30)\<lparr>rs_runtime := lit ''kata''\<rparr>" and ?env = "sample_env [] [] []"
  have o: "obeys_policy (SANDBOX_RETRY default_settings) [True, False]
      (map snd (attempts I default_settings ?args 1 [?env, ?env]))"
    by (simp add: obeys_policy_def SANDBOX_RETRY_def default_settings_def less_Suc_eq)
  have p: "policy_fault I default_settings ?args ([?env, ?env] ! 0)"
    by (auto simp: policy_fault_def get_runner_def)
  from policy_fault_not_retried [OF o _ p]
  show "\<exists>e. snd (run_sandbox I default_settings 1 ?env ?args) = Raise e
      \<and> \<not> may_retry (SANDBOX_RETRY default_settings) e" by auto
qed

end
