(* ===== verification/StreamDelivery.thy ===== *)
theory StreamDelivery
  imports RunStream Lifecycle
begin

text \<open>
  What the stream of a run delivers: a connected client whose service answers gets the end of the
  run, and when the answers tell the states of one run as it moves on, also between the two calls of
  a round, the events are a snapshot, at most one step for each transition, and the terminal event
  that tells the run's result.
\<close>

section \<open>The clock of the generator\<close>

lemma fadd_tick_upper:
  assumes "0 \<le> x" and "x \<le> 2 ^ 40 * float_scale"
  shows "5 * fadd x float_0_7 \<le> 5 * x + 4 * float_scale"
proof -
  let ?y = "x + float_0_7"
  have "(2::int) ^ 1021 * 2 ^ 53 = 2 ^ 1074" by (subst power_add [symmetric]) simp
  then have f: "float_0_7 * 2 ^ 53 = 6305039478318694 * float_scale"
    by (simp add: float_0_7_def float_scale_def)
  have "\<bar>fadd x float_0_7 - ?y\<bar> * 2 ^ 53 \<le> \<bar>?y\<bar>"
    unfolding fadd_def by (rule round_double_relative)
  moreover have "0 \<le> float_0_7" by (simp add: float_0_7_def)
  moreover have "0 < float_scale" by simp
  ultimately show ?thesis
    using assms f unfolding power_numeral by (simp add: abs_if split: if_splits)
qed

lemma ticks_nonneg: "0 \<le> 4 * float_scale * int n"
  using less_imp_le [OF float_scale_pos] by (intro mult_nonneg_nonneg) simp_all

section \<open>Readers of one run\<close>

text \<open>A round of a connected client, which describes the run in state \<open>fst kk\<close> and queries it, or fetches
  its result, in state \<open>snd kk\<close>.\<close>

definition watches :: "pystr \<Rightarrow> tick \<Rightarrow> conf \<times> conf \<Rightarrow> bool" where
  "watches w t kk \<longleftrightarrow> \<not> tk_disconnected t \<and> reflects w (tk_client t) (fst kk) (snd kk)"

definition described_open :: "conf \<times> conf \<Rightarrow> bool" where
  "described_open kk \<longleftrightarrow> phase_of (fst (fst kk)) \<noteq> Closed"

definition conf_payload :: "pystr \<Rightarrow> pystr \<Rightarrow> conf \<Rightarrow> json" where
  "conf_payload run_id w k = dump_RunStatusResponse (running run_id (status_query w (snd k)))"

abbreviation conf_rank :: "conf \<Rightarrow> nat" where
  "conf_rank k \<equiv> phase_rank (phase_of (fst k))"

lemma conf_rank_le_5: "conf_rank k \<le> 5"
  by (cases "phase_of (fst k)") simp_all

lemma resolve_poll:
  "snd (resolve_status I c run_id) = Return r \<Longrightarrow> snd (poll_status I c run_id) = Return (Some r)"
  by (simp add: poll_status_def snd_catch snd_ebind)

lemma open_poll:
  assumes "watches w t kk" and "described_open kk"
  shows "\<exists>r. snd (poll_status I (tk_client t) run_id) = Return (Some r)
    \<and> rsr_status r \<notin> set TERMINAL \<and> dump_RunStatusResponse r = conf_payload run_id w (snd kk)"
proof -
  have "snd (resolve_status I (tk_client t) run_id) = Return (running run_id (status_query w (snd (snd kk))))"
    using reflects_open [of w "tk_client t" "fst kk" "snd kk" I run_id] assms
    by (simp add: watches_def described_open_def)
  from resolve_poll [OF this] show ?thesis
    by (auto simp: conf_payload_def TERMINAL_def running_def)
qed

text \<open>The frames of a round on an open run: none is a step unless the run has moved.\<close>

lemma open_round:
  assumes "prev = Some (dumps (sort_keys (conf_payload run_id w a)))" and "(wf_step inp)\<^sup>*\<^sup>* a b"
  shows "\<exists>fs. idle_round (conf_payload run_id w b) prev False ticks
      = (map frame_text fs, False, Some (dumps (sort_keys (conf_payload run_id w b))))
    \<and> list_all good_frame fs \<and> set (map frame_name fs) \<subseteq> {lit ''step'', lit '':''}
    \<and> count_list (map frame_name fs) (lit ''step'') + conf_rank a \<le> conf_rank b"
proof (cases "a = b")
  case True
  have "idle_round (conf_payload run_id w b) prev False ticks
      = (map frame_text (if ticks mod 21 = 0 then [Comment (lit ''keepalive'')] else []), False,
         Some (dumps (sort_keys (conf_payload run_id w b))))"
    using assms(1) True by (simp add: idle_round_def Let_def keepalive_text)
  with True show ?thesis
    by (intro exI [of _ "if ticks mod 21 = 0 then [Comment (lit ''keepalive'')] else []"]) (simp add: lit_Cons)
next
  case False
  then have r: "Suc (conf_rank a) \<le> conf_rank b"
    using steps_phase_less [OF assms(2)] by (simp add: less_phase_def)
  let ?p = "conf_payload run_id w b" and ?cur = "Some (dumps (sort_keys (conf_payload run_id w b)))"
  let ?fs = "if ?cur \<noteq> prev then [sse_frame ''step'' ?p]
    else if ticks mod 21 = 0 then [Comment (lit ''keepalive'')] else []"
  have "idle_round ?p prev False ticks = (map frame_text ?fs, False, ?cur)"
    by (simp add: idle_round_def Let_def keepalive_text sse_text)
  with r show ?thesis by (intro exI [of _ ?fs]) (simp add: lit_Cons)
qed

lemma gen_follows:
  assumes "list_all2 (watches w) ts ks" and "\<forall>kk \<in> set ks. described_open kk"
    and "sorted_wrt (wf_step inp)\<^sup>*\<^sup>* (a # map snd ks)"
    and "\<not> tk_disconnected t" and "snd (poll_status I (tk_client t) run_id) = Return (Some r)"
    and "rsr_status r \<in> set TERMINAL"
    and "0 \<le> elapsed" and "5 * elapsed + 4 * float_scale * int (length ts) \<le> 5 * max_dur * float_scale"
    and "max_dur < 2 ^ 40"
  shows "\<exists>fs. yields (fst (gen I run_id max_dur (Some (dumps (sort_keys (conf_payload run_id w a))))
        False ticks elapsed (ts @ t # post)))
      = map frame_text fs @ yields (fst (end_round run_id r False))
    \<and> snd (gen I run_id max_dur (Some (dumps (sort_keys (conf_payload run_id w a))))
        False ticks elapsed (ts @ t # post)) = snd (end_round run_id r False)
    \<and> list_all good_frame fs \<and> set (map frame_name fs) \<subseteq> {lit ''step'', lit '':''}
    \<and> count_list (map frame_name fs) (lit ''step'') + conf_rank a \<le> 5"
  using assms(2,1,3,7,8)
proof (induction ks arbitrary: ts a ticks elapsed)
  case Nil
  then have "ts = []" by simp
  then show ?case
    using assms(4-6) conf_rank_le_5 [of a]
    by (intro exI [of _ "[]"]) (simp add: fst_ebind snd_ebind)
next
  case (Cons k ks)
  then obtain u us where ts: "ts = u # us" "watches w u k" "list_all2 (watches w) us ks"
    by (cases ts) auto
  let ?b = "snd k" and ?el = "fadd elapsed float_0_7"
  have b: "(wf_step inp)\<^sup>*\<^sup>* a ?b" "described_open k" using Cons.prems(1,3) by auto
  obtain x where x: "snd (poll_status I (tk_client u) run_id) = Return (Some x)"
    "rsr_status x \<notin> set TERMINAL" "dump_RunStatusResponse x = conf_payload run_id w ?b"
    using open_poll [OF ts(2) b(2)] by blast
  obtain fs where fs: "idle_round (conf_payload run_id w ?b)
      (Some (dumps (sort_keys (conf_payload run_id w a)))) False ticks
      = (map frame_text fs, False, Some (dumps (sort_keys (conf_payload run_id w ?b))))"
    "list_all good_frame fs" "set (map frame_name fs) \<subseteq> {lit ''step'', lit '':''}"
    "count_list (map frame_name fs) (lit ''step'') + conf_rank a \<le> conf_rank ?b"
    using open_round [OF refl b(1)] by blast
  have "max_dur * float_scale \<le> 2 ^ 40 * float_scale"
    using assms(9) less_imp_le [OF float_scale_pos] by (intro mult_right_mono) simp_all
  moreover have len: "4 * float_scale * int (length ts) = 4 * float_scale + 4 * float_scale * int (length us)"
    by (simp add: ts(1) distrib_left)
  moreover have "0 \<le> 4 * float_scale * int (length us)" by (rule ticks_nonneg)
  ultimately have el: "0 \<le> ?el" "5 * ?el + 4 * float_scale * int (length us) \<le> 5 * max_dur * float_scale"
    using fadd_tick [of elapsed] fadd_tick_upper [of elapsed] Cons.prems(4,5) float_scale_pos by linarith+
  have "5 * ?el \<le> 5 * (max_dur * float_scale)"
    using el(2) \<open>0 \<le> 4 * float_scale * int (length us)\<close> by linarith
  then have go: "\<not> max_dur * float_scale < ?el" by simp
  have o: "\<forall>k \<in> set ks. described_open k" and st: "sorted_wrt (wf_step inp)\<^sup>*\<^sup>* (?b # map snd ks)"
    using Cons.prems(1,3) by simp_all
  from Cons.IH [OF o ts(3) st el, of "ticks + 1"] obtain gs where gs: "yields (fst (gen I run_id max_dur (Some (dumps (sort_keys (conf_payload run_id w ?b))))
        False (ticks + 1) ?el (us @ t # post))) = map frame_text gs @ yields (fst (end_round run_id r False))"
    "snd (gen I run_id max_dur (Some (dumps (sort_keys (conf_payload run_id w ?b))))
        False (ticks + 1) ?el (us @ t # post)) = snd (end_round run_id r False)"
    "list_all good_frame gs" "set (map frame_name gs) \<subseteq> {lit ''step'', lit '':''}"
    "count_list (map frame_name gs) (lit ''step'') + conf_rank ?b \<le> 5"
    by blast
  have d: "\<not> tk_disconnected u" using ts(2) by (simp add: watches_def)
  show ?case
    by (rule exI [of _ "fs @ gs"])
      (use d x fs gs go in \<open>auto simp: ts(1) fst_ebind snd_ebind Let_def\<close>)
qed

section \<open>The result is delivered\<close>

definition event_name :: "RunStatusResponse \<Rightarrow> pystr" where
  "event_name r = (case map_of SSE_EVENT (rsr_status r) of None \<Rightarrow> [] | Some e \<Rightarrow> e)"

definition last_frames :: "pystr \<Rightarrow> RunStatusResponse \<Rightarrow> frame list" where
  "last_frames run_id r =
     [Event (event_name r) (dumps (dump_RunStatusResponse r)), sse_frame ''done'' (done_run run_id)]"

lemma end_round_last:
  assumes "rsr_status r \<in> set TERMINAL"
  shows "yields (fst (end_round run_id r first)) = map frame_text
      ((if first then [sse_frame ''snapshot'' (dump_RunStatusResponse r)] else []) @ last_frames run_id r)
    \<and> snd (end_round run_id r first) = Return ()
    \<and> list_all good_frame (last_frames run_id r)"
proof -
  obtain e where m: "map_of SSE_EVENT (rsr_status r) = Some (lit e)"
    and e: "e \<in> {''completed'', ''failed'', ''timed_out''}"
    using assms SSE_EVENT_lookup SSE_EVENT_values by blast
  have "Event (event_name r) (dumps (dump_RunStatusResponse r)) = sse_frame e (dump_RunStatusResponse r)"
    by (simp add: event_name_def m sse_frame_def)
  moreover have "good_frame (sse_frame e (dump_RunStatusResponse r))" using e by auto
  ultimately show ?thesis
    by (simp add: end_round_def Let_def m fst_ebind snd_ebind sse_text last_frames_def)
qed

lemma closed_poll:
  assumes "watches w t ((Done x, st), k)"
  shows "\<exists>r. snd (resolve_status I (tk_client t) run_id) = Return r
    \<and> rsr_status r \<in> set TERMINAL \<and> (\<forall>res. x = Inr res \<longrightarrow> r = completed run_id res)"
proof (cases x)
  case (Inl e)
  with assms reflects_raised [of w "tk_client t" e st k I run_id] show ?thesis
    by (auto simp: watches_def TERMINAL_def)
next
  case (Inr res)
  with assms reflects_returned [of w "tk_client t" res st k I run_id] show ?thesis
    by (auto simp: watches_def TERMINAL_def)
qed

lemma stream_frames_of_run:
  assumes "list_all2 (watches w) ts ks" and "\<forall>kk \<in> set ks. described_open kk"
    and "sorted_wrt (wf_step inp)\<^sup>*\<^sup>* (map snd ks)"
    and "\<not> tk_disconnected t" and "snd (poll_status I (tk_client t) run_id) = Return (Some r)"
    and "rsr_status r \<in> set TERMINAL"
    and "4 * int (length ts) \<le> 5 * (workflow_run_timeout_s s + 30)"
    and "0 \<le> workflow_run_timeout_s s" and "workflow_run_timeout_s s < 2 ^ 32"
  shows "\<exists>p mid. yields (fst (stream_gen I s run_id (ts @ t # post)))
      = map frame_text (sse_frame ''snapshot'' p # mid @ last_frames run_id r)
    \<and> snd (stream_gen I s run_id (ts @ t # post)) = Return ()
    \<and> list_all good_frame (sse_frame ''snapshot'' p # mid @ last_frames run_id r)
    \<and> set (map frame_name mid) \<subseteq> {lit ''step'', lit '':''}
    \<and> count_list (map frame_name mid) (lit ''step'') \<le> 5"
proof (cases ks)
  case Nil
  with assms(1) have "ts = []" by simp
  with assms(4-6) end_round_last [OF assms(6), of run_id True] show ?thesis
    by (intro exI [of _ "dump_RunStatusResponse r"] exI [of _ "[]"])
      (simp add: stream_gen_def fst_ebind snd_ebind)
next
  case (Cons k ks')
  with assms(1) obtain u us where ts: "ts = u # us" "watches w u k" "list_all2 (watches w) us ks'"
    by (cases ts) auto
  let ?a = "snd k" and ?m = "workflow_run_timeout_s s + 30" and ?el = "fadd 0 float_0_7"
  have a: "described_open k" using assms(2) Cons by simp
  obtain x where x: "snd (poll_status I (tk_client u) run_id) = Return (Some x)"
    "rsr_status x \<notin> set TERMINAL" "dump_RunStatusResponse x = conf_payload run_id w ?a"
    using open_poll [OF ts(2) a] by blast
  have "4 * int (length ts) * float_scale \<le> 5 * ?m * float_scale"
    using assms(7) less_imp_le [OF float_scale_pos] by (intro mult_right_mono) simp_all
  then have len: "4 * float_scale + 4 * float_scale * int (length us) \<le> 5 * ?m * float_scale"
    by (simp add: ts(1) distrib_left distrib_right mult.commute mult.left_commute)
  have p: "0 \<le> 4 * float_scale * int (length us)" "0 < float_scale"
    using ticks_nonneg by simp_all
  have el: "0 \<le> ?el" "5 * ?el \<le> 4 * float_scale"
    using fadd_tick [of 0] fadd_tick_upper [of 0] p(2) by simp_all
  have el': "5 * ?el + 4 * float_scale * int (length us) \<le> 5 * ?m * float_scale"
    using el len by linarith
  have "5 * ?el \<le> 5 * (?m * float_scale)" using el' p(1) unfolding mult.assoc [of 5 ?m] by linarith
  then have go: "\<not> ?m * float_scale < ?el" by simp
  have ks: "\<forall>k \<in> set ks'. described_open k" "sorted_wrt (wf_step inp)\<^sup>*\<^sup>* (?a # map snd ks')"
    using assms(2,3) by (simp_all add: Cons)
  have m: "?m < 2 ^ 40" using assms(9) by simp
  from gen_follows [OF ts(3) ks assms(4-6) el(1) el' m, where post = post and ticks = 1]
  obtain fs where fs: "yields (fst (gen I run_id ?m (Some (dumps (sort_keys (conf_payload run_id w ?a))))
        False 1 ?el (us @ t # post))) = map frame_text fs @ yields (fst (end_round run_id r False))"
    "snd (gen I run_id ?m (Some (dumps (sort_keys (conf_payload run_id w ?a))))
        False 1 ?el (us @ t # post)) = snd (end_round run_id r False)"
    "list_all good_frame fs" "set (map frame_name fs) \<subseteq> {lit ''step'', lit '':''}"
    "count_list (map frame_name fs) (lit ''step'') + conf_rank ?a \<le> 5"
    by blast
  have d: "\<not> tk_disconnected u" using ts(2) by (simp add: watches_def)
  have i: "idle_round (conf_payload run_id w ?a) None True 0
    = ([sse (lit ''snapshot'') (conf_payload run_id w ?a)], False,
       Some (dumps (sort_keys (conf_payload run_id w ?a))))"
    by (simp add: idle_round_def Let_def)
  show ?thesis
    by (intro exI [of _ "conf_payload run_id w ?a"] exI [of _ fs])
      (use d x i go fs end_round_last [OF assms(6), of run_id False] in
        \<open>simp add: stream_gen_def ts(1) fst_ebind snd_ebind Let_def sse_text\<close>)
qed

text \<open>
  C12. A stream delivers the result of its run: for a client that stays connected while the service
  answers for one run that moves on, also between the description and the query of a round, and
  that meets its end in time, the text of the stream reads as a snapshot, then steps and comments
  with at most five steps (the queued state, the four activities and the end, which a query can
  still see), then the terminal event and done, and nothing more; the terminal event carries the
  response to the result with which the workflow returned.
\<close>

theorem stream_delivers_result:
  assumes "list_all2 (watches w) ts ks" and "\<forall>kk \<in> set ks. described_open kk"
    and "sorted_wrt (wf_step inp)\<^sup>*\<^sup>* (map snd ks)"
    and "watches w t ((Done x, st), k)"
    and "4 * int (length ts) \<le> 5 * (workflow_run_timeout_s s + 30)"
    and "0 \<le> workflow_run_timeout_s s" and "workflow_run_timeout_s s < 2 ^ 32"
  shows "\<exists>p mid r. read_stream (concat (yields (fst (stream_gen I s run_id (ts @ t # post)))))
      = Some (sse_frame ''snapshot'' p # mid
          @ [Event (event_name r) (dumps (dump_RunStatusResponse r)), sse_frame ''done'' (done_run run_id)])
    \<and> snd (stream_gen I s run_id (ts @ t # post)) = Return ()
    \<and> set (map frame_name mid) \<subseteq> {lit ''step'', lit '':''}
    \<and> count_list (map frame_name mid) (lit ''step'') \<le> 5
    \<and> snd (resolve_status I (tk_client t) run_id) = Return r
    \<and> event_name r \<in> {lit ''completed'', lit ''failed'', lit ''timed_out''}
    \<and> (\<forall>res. x = Inr res \<longrightarrow> r = completed run_id res)"
proof -
  obtain r where r: "snd (resolve_status I (tk_client t) run_id) = Return r"
    "rsr_status r \<in> set TERMINAL" "\<forall>res. x = Inr res \<longrightarrow> r = completed run_id res"
    using closed_poll [OF assms(4)] by blast
  have d: "\<not> tk_disconnected t" using assms(4) by (simp add: watches_def)
  from stream_frames_of_run [OF assms(1-3) d resolve_poll [OF r(1)] r(2) assms(5-7)]
  obtain p mid where f: "yields (fst (stream_gen I s run_id (ts @ t # post)))
      = map frame_text (sse_frame ''snapshot'' p # mid @ last_frames run_id r)"
    "snd (stream_gen I s run_id (ts @ t # post)) = Return ()"
    "list_all good_frame (sse_frame ''snapshot'' p # mid @ last_frames run_id r)"
    "set (map frame_name mid) \<subseteq> {lit ''step'', lit '':''}"
    "count_list (map frame_name mid) (lit ''step'') \<le> 5" by blast
  have "read_stream (concat (yields (fst (stream_gen I s run_id (ts @ t # post)))))
      = Some (sse_frame ''snapshot'' p # mid @ last_frames run_id r)"
    unfolding f(1) by (rule read_stream_frames [OF f(3)])
  moreover obtain e where "map_of SSE_EVENT (rsr_status r) = Some e"
    "e \<in> {lit ''completed'', lit ''failed'', lit ''timed_out''}"
    using r(2) SSE_EVENT_lookup SSE_EVENT_values by blast
  ultimately show ?thesis
    using f r by (auto simp: last_frames_def event_name_def)
qed

definition sample_tick :: "client \<Rightarrow> tick" where
  "sample_tick c = \<lparr>tk_disconnected = False, tk_client = c\<rparr>"

lemma sample_tick_simps [simp]: "\<not> tk_disconnected (sample_tick c)" "tk_client (sample_tick c) = c"
  by (simp_all add: sample_tick_def)

theorem stream_delivers_result_witness:
  "\<forall>I res. \<exists>p mid. read_stream (concat (yields (fst (stream_gen I default_settings (lit ''demo:1'')
      [sample_tick (sample_reader (sample_description RUNNING)
         (Inr (status_query (lit ''demo:1'') (state_at 2))) (Inl ValueError)),
       sample_tick (sample_reader (sample_description COMPLETED) (Inl ValueError) (Inr res))]))))
    = Some (sse_frame ''snapshot'' p # mid
        @ [Event (event_name (completed (lit ''demo:1'') res))
             (dumps (dump_RunStatusResponse (completed (lit ''demo:1'') res))),
           sse_frame ''done'' (done_run (lit ''demo:1''))])"
proof (intro allI)
  fix I and res :: RunResult
  let ?w = "lit ''demo:1''"
  let ?t1 = "sample_tick (sample_reader (sample_description RUNNING)
    (Inr (status_query ?w (state_at 2))) (Inl ValueError))"
  let ?t2 = "sample_tick (sample_reader (sample_description COMPLETED) (Inl ValueError) (Inr res))"
  let ?p = "\<lparr>pl_task = [], pl_directive = [], pl_steps = []\<rparr>"
  let ?k = "((Await_code 1 ?p, state_at 1), (Await_sandbox 2 ?p [], state_at 2))"
  let ?inp = "\<lparr>ri_run_id = ?w, ri_tenant_id = lit ''demo'', ri_task = lit ''t'',
    ri_limits = default_limits, ri_sandbox_runtime = lit ''runsc''\<rparr>"
  have a: "list_all2 (watches ?w) [?t1] [?k]" and o: "\<forall>k \<in> set [?k]. described_open k"
    and c: "sorted_wrt (wf_step ?inp)\<^sup>*\<^sup>* (map snd [?k])"
    and e: "watches ?w ?t2 ((Done (Inr res), state_completed), (Done (Inr res), state_completed))"
    by (simp_all add: watches_def reflects_def described_open_def)
  have T: "workflow_run_timeout_s default_settings = 300" by (simp add: default_settings_def)
  have "\<exists>p mid r. read_stream (concat (yields (fst (stream_gen I default_settings ?w ([?t1] @ ?t2 # [])))))
      = Some (sse_frame ''snapshot'' p # mid
          @ [Event (event_name r) (dumps (dump_RunStatusResponse r)), sse_frame ''done'' (done_run ?w)])
    \<and> r = completed ?w res"
    using stream_delivers_result [OF a o c e, of default_settings I ?w "[]"] unfolding T by fastforce
  then show "\<exists>p mid. read_stream (concat (yields (fst (stream_gen I default_settings ?w [?t1, ?t2]))))
    = Some (sse_frame ''snapshot'' p # mid
        @ [Event (event_name (completed ?w res)) (dumps (dump_RunStatusResponse (completed ?w res))),
           sse_frame ''done'' (done_run ?w)])" by auto
qed

end
