(* ===== verification/JsonRead.thy ===== *)
theory JsonRead
  imports Schemas
begin

text \<open>
  Reading JSON: a reader of the JSON grammar that is independent of how values are printed, and
  the proof that it reads every dump back.  It is what a client does with the data of an event or
  the body of a reply, and what a collector does with a line of the log.
\<close>

section \<open>Text\<close>

text \<open>A reader of UTF-16 units joins a high and a low surrogate to one code point.\<close>

fun utf16_decode :: "pystr \<Rightarrow> pystr" where
  "utf16_decode [] = []"
| "utf16_decode [c] = [c]"
| "utf16_decode (c # d # s) =
     (if 0xD800 \<le> c \<and> c < 0xDC00 \<and> 0xDC00 \<le> d \<and> d < 0xE000
      then (0x10000 + (c - 0xD800) * 1024 + (d - 0xDC00)) # utf16_decode s
      else c # utf16_decode (d # s))"

text \<open>Code points that are not surrogates.\<close>

definition is_scalar :: "nat \<Rightarrow> bool" where
  "is_scalar c \<longleftrightarrow> c < 0x110000 \<and> \<not> (0xD800 \<le> c \<and> c < 0xE000)"

lemma scalar_code_point: "list_all is_scalar s \<Longrightarrow> list_all is_code_point s"
  by (auto simp: list_all_iff is_scalar_def is_code_point_def)

lemma utf16_decode_other: "\<not> (0xD800 \<le> c \<and> c < 0xDC00) \<Longrightarrow> utf16_decode (c # s) = c # utf16_decode s"
  by (cases s) auto

lemma utf16_decode_encode: "list_all is_scalar s \<Longrightarrow> utf16_decode (utf16 s) = s"
proof (induction s)
  case (Cons c s)
  then have IH: "utf16_decode (utf16 s) = s" and c: "is_scalar c" by simp_all
  show ?case
  proof (cases "c < 0x10000")
    case True
    with c have "\<not> (0xD800 \<le> c \<and> c < 0xDC00)" by (auto simp: is_scalar_def)
    with True IH show ?thesis by (simp add: utf16_def utf16_units_def utf16_decode_other)
  next
    case False
    let ?d = "c - 0x10000"
    have "?d < 0x100000" using c False by (simp add: is_scalar_def)
    then have "?d div 1024 < 1024" by (simp add: less_mult_imp_div_less)
    moreover have "?d div 1024 * 1024 + ?d mod 1024 = ?d" by (rule div_mult_mod_eq)
    moreover have "?d mod 1024 < 1024" by simp
    ultimately show ?thesis using False IH by (simp add: utf16_def utf16_units_def)
  qed
qed (simp add: utf16_def)

section \<open>Values\<close>

definition is_digit_char :: "nat \<Rightarrow> bool" where
  "is_digit_char c \<longleftrightarrow> 48 \<le> c \<and> c \<le> 57"

definition read_number :: "pystr \<Rightarrow> (json \<times> pystr) option" where
  "read_number s =
     (let neg = prefix [45] s; s' = (if neg then tl s else s);
          ds = takeWhile is_digit_char s'; r = dropWhile is_digit_char s';
          n = int (int_of_digits ds) in
      if ds = [] then None else Some (JInt (if neg then - n else n), r))"

definition skip_blanks :: "pystr \<Rightarrow> pystr" where
  "skip_blanks s = dropWhile (\<lambda>c. c = 32 \<or> c = 9 \<or> c = 10 \<or> c = 13) s"

definition read_text :: "pystr \<Rightarrow> (pystr \<times> pystr) option" where
  "read_text s = map_option (\<lambda>(u, r). (utf16_decode u, r)) (read_literal s)"

text \<open>\<open>read_elems\<close> and \<open>read_members\<close> read a non-empty list up to its closing bracket; the first
  argument bounds the depth.\<close>

fun read_value :: "nat \<Rightarrow> pystr \<Rightarrow> (json \<times> pystr) option"
  and read_elems :: "nat \<Rightarrow> pystr \<Rightarrow> (json list \<times> pystr) option"
  and read_members :: "nat \<Rightarrow> pystr \<Rightarrow> ((pystr \<times> json) list \<times> pystr) option" where
  "read_value 0 s = None"
| "read_value (Suc n) s =
     (case s of
        [] \<Rightarrow> None
      | c # r \<Rightarrow>
          if prefix (lit ''null'') s then Some (JNull, drop 4 s)
          else if prefix (lit ''true'') s then Some (JBool True, drop 4 s)
          else if prefix (lit ''false'') s then Some (JBool False, drop 5 s)
          else if c = 34 then map_option (\<lambda>(t, r'). (JStr t, r')) (read_text s)
          else if c = 91 then
            (let r' = skip_blanks r in
             if prefix [93] r' then Some (JArr [], tl r')
             else map_option (\<lambda>(vs, r'). (JArr vs, r')) (read_elems n r'))
          else if c = 123 then
            (let r' = skip_blanks r in
             if prefix [125] r' then Some (JObj [], tl r')
             else map_option (\<lambda>(kvs, r'). (JObj kvs, r')) (read_members n r'))
          else read_number s)"
| "read_elems 0 s = None"
| "read_elems (Suc n) s =
     (case read_value n s of
        None \<Rightarrow> None
      | Some (v, r) \<Rightarrow>
          let r' = skip_blanks r in
          if prefix [93] r' then Some ([v], tl r')
          else if prefix [44] r' then
            map_option (\<lambda>(vs, r''). (v # vs, r'')) (read_elems n (skip_blanks (tl r')))
          else None)"
| "read_members 0 s = None"
| "read_members (Suc n) s =
     (case read_text s of
        None \<Rightarrow> None
      | Some (k, r) \<Rightarrow>
          if prefix [58] (skip_blanks r) then
            (case read_value n (skip_blanks (tl (skip_blanks r))) of
               None \<Rightarrow> None
             | Some (v, r1) \<Rightarrow>
                 let r' = skip_blanks r1 in
                 if prefix [125] r' then Some ([(k, v)], tl r')
                 else if prefix [44] r' then
                   map_option (\<lambda>(kvs, r''). ((k, v) # kvs, r'')) (read_members n (skip_blanks (tl r')))
                 else None)
          else None)"

text \<open>A whole text.\<close>

definition read_json :: "pystr \<Rightarrow> json option" where
  "read_json s =
     (case read_value (length s) s of Some (v, r) \<Rightarrow> if skip_blanks r = [] then Some v else None | None \<Rightarrow> None)"

section \<open>Dumps are read back\<close>

fun json_scalar :: "json \<Rightarrow> bool" where
  "json_scalar (JStr s) = list_all is_scalar s"
| "json_scalar (JArr vs) = list_all json_scalar vs"
| "json_scalar (JObj kvs) = list_all (\<lambda>(k, v). list_all is_scalar k \<and> json_scalar v) kvs"
| "json_scalar _ = True"

text \<open>What may follow a value: nothing, or no digit.\<close>

definition delimited :: "pystr \<Rightarrow> bool" where
  "delimited r \<longleftrightarrow> (case r of [] \<Rightarrow> True | c # _ \<Rightarrow> \<not> is_digit_char c)"

lemma delimited_simps [simp]: "delimited []" "delimited (c # r) = (\<not> is_digit_char c)"
  by (simp_all add: delimited_def)

lemma skip_blanks_simps [simp]:
  "skip_blanks [] = []"
  "skip_blanks (c # r) = (if c = 32 \<or> c = 9 \<or> c = 10 \<or> c = 13 then skip_blanks r else c # r)"
  by (simp_all add: skip_blanks_def)

lemma read_text_json_str:
  "list_all is_scalar s \<Longrightarrow> read_text (json_str s @ r) = Some (s, r)"
  by (simp add: read_text_def read_literal_json_str scalar_code_point utf16_decode_encode)

lemma json_str_head: "\<exists>t. json_str s = 34 # t"
  by (simp add: json_str_def)

lemma str_nat_digit_list: "list_all is_digit_char (str_nat n)"
  by (auto simp: list_all_iff is_digit_char_def dest: str_nat_digits)

lemma digits_followed:
  assumes "list_all is_digit_char ds" and "delimited r"
  shows "takeWhile is_digit_char (ds @ r) = ds \<and> dropWhile is_digit_char (ds @ r) = r"
  using assms
  by (cases r) (auto simp: list_all_iff takeWhile_append dropWhile_append takeWhile_eq_all_conv)

lemma read_number_str_int:
  assumes "delimited r"
  shows "read_number (str_int i @ r) = Some (JInt i, r)"
proof (cases "i < 0")
  case True
  with digits_followed [OF str_nat_digit_list assms, of "nat (- i)"] show ?thesis
    by (simp add: read_number_def str_int_def Let_def)
next
  case False
  then obtain c t where c: "str_nat (nat i) = c # t" by (cases "str_nat (nat i)") auto
  then have "c \<noteq> 45" using hd_str_nat [of "nat i"] by simp
  with c False digits_followed [OF str_nat_digit_list assms, of "nat i"] undec_str_nat [of "nat i"]
  show ?thesis by (simp add: read_number_def str_int_def Let_def)
qed

lemma str_int_head: "\<exists>c t. str_int i = c # t \<and> (c = 45 \<or> 48 \<le> c \<and> c \<le> 57)"
proof -
  obtain c t where "str_int i = c # t" by (cases "str_int i") auto
  with str_int_chars [of c i] show ?thesis by simp
qed

text \<open>The first character of a dump tells its kind, and is neither a blank nor a closing bracket.\<close>

lemma dumps_head: "\<exists>c t. dumps v = c # t \<and> c \<notin> {32, 9, 10, 13, 93, 125}"
proof (cases v)
  case (JInt i)
  with str_int_head [of i] show ?thesis by auto
qed (auto simp: lit_Cons json_str_def)

lemma skip_blanks_dumps [simp]: "skip_blanks (dumps v @ r) = dumps v @ r"
  using dumps_head [of v] by auto

lemma skip_blanks_json_str [simp]: "skip_blanks (json_str s @ r) = json_str s @ r"
  by (simp add: json_str_def)

lemma comma_space: "lit '', '' = [44, 32]" "lit '': '' = [58, 32]"
  by (simp_all add: lit_Cons)

definition read_back :: "json \<Rightarrow> bool" where
  "read_back v \<longleftrightarrow>
     (\<forall>n r. length (dumps v) \<le> n \<longrightarrow> delimited r \<longrightarrow> read_value n (dumps v @ r) = Some (v, r))"

lemma read_backD:
  "read_back v \<Longrightarrow> length (dumps v) \<le> n \<Longrightarrow> delimited r \<Longrightarrow> read_value n (dumps v @ r) = Some (v, r)"
  by (simp add: read_back_def)

lemma read_elems_back:
  assumes "\<forall>v \<in> set vs. read_back v" and "vs \<noteq> []"
    and "length (join (lit '', '') (map dumps vs)) < n"
  shows "read_elems n (join (lit '', '') (map dumps vs) @ 93 # r) = Some (vs, r)"
  using assms
proof (induction vs arbitrary: n)
  case (Cons v vs)
  then obtain m where n: "n = Suc m" by (cases n) auto
  show ?case
  proof (cases vs)
    case Nil
    with Cons.prems n have "read_value m (dumps v @ 93 # r) = Some (v, 93 # r)"
      by (intro read_backD) (simp_all add: is_digit_char_def)
    with Nil n show ?thesis by simp
  next
    case (Cons w ws)
    let ?rest = "join (lit '', '') (map dumps vs) @ 93 # r"
    have j: "join (lit '', '') (map dumps (v # vs)) @ 93 # r = dumps v @ 44 # 32 # ?rest"
      using Cons by (simp add: comma_space)
    have "length (dumps v) \<le> m" "length (join (lit '', '') (map dumps vs)) < m"
      using Cons.prems(3) n local.Cons by (simp_all add: comma_space)
    moreover have "read_value m (dumps v @ 44 # 32 # ?rest) = Some (v, 44 # 32 # ?rest)"
      by (rule read_backD) (use Cons.prems(1) calculation in \<open>simp_all add: is_digit_char_def\<close>)
    moreover have "read_elems m ?rest = Some (vs, r)"
      by (rule Cons.IH) (use Cons.prems(1) local.Cons calculation in simp_all)
    moreover have "skip_blanks ?rest = ?rest"
      using local.Cons by (cases ws) simp_all
    ultimately show ?thesis unfolding j n by simp
  qed
qed simp

abbreviation dump_member :: "pystr \<times> json \<Rightarrow> pystr" where
  "dump_member \<equiv> \<lambda>(k, v). json_str k @ lit '': '' @ dumps v"

lemma read_members_back:
  assumes "\<forall>(k, v) \<in> set kvs. list_all is_scalar k \<and> read_back v" and "kvs \<noteq> []"
    and "length (join (lit '', '') (map dump_member kvs)) < n"
  shows "read_members n (join (lit '', '') (map dump_member kvs) @ 125 # r) = Some (kvs, r)"
  using assms
proof (induction kvs arbitrary: n)
  case (Cons kv kvs)
  obtain k v where kv: "kv = (k, v)" by (cases kv)
  from Cons.prems obtain m where n: "n = Suc m" by (cases n) auto
  have k: "read_text (json_str k @ x) = Some (k, x)" for x
    using Cons.prems(1) kv by (simp add: read_text_json_str)
  have v: "read_back v" using Cons.prems(1) kv by simp
  show ?case
  proof (cases kvs)
    case Nil
    with Cons.prems n kv v have "read_value m (dumps v @ 125 # r) = Some (v, 125 # r)"
      by (intro read_backD) (simp_all add: is_digit_char_def)
    with Nil n kv k show ?thesis by (simp add: comma_space)
  next
    case (Cons w ws)
    let ?rest = "join (lit '', '') (map dump_member kvs) @ 125 # r"
    have j: "join (lit '', '') (map dump_member (kv # kvs)) @ 125 # r
        = json_str k @ 58 # 32 # dumps v @ 44 # 32 # ?rest"
      using Cons kv by (simp add: comma_space)
    have "length (dumps v) \<le> m" "length (join (lit '', '') (map dump_member kvs)) < m"
      using Cons.prems(3) n local.Cons kv by (simp_all add: comma_space)
    moreover have "read_value m (dumps v @ 44 # 32 # ?rest) = Some (v, 44 # 32 # ?rest)"
      by (rule read_backD) (use v calculation in \<open>simp_all add: is_digit_char_def\<close>)
    moreover have "read_members m ?rest = Some (kvs, r)"
      by (rule Cons.IH) (use Cons.prems(1) local.Cons calculation in simp_all)
    moreover have "skip_blanks ?rest = ?rest"
      using local.Cons by (cases w; cases ws) simp_all
    ultimately show ?thesis unfolding j n using k kv by simp
  qed
qed simp

lemma dumps_not_Nil: "dumps v \<noteq> []"
  using dumps_head [of v] by auto

lemma read_back_dumps: "json_scalar v \<Longrightarrow> read_back v"
proof (induction v rule: dumps.induct)
  case (3 i)
  have "read_value n (str_int i @ r) = Some (JInt i, r)" if l: "length (str_int i) \<le> n" and d: "delimited r" for n r
  proof -
    obtain m where n: "n = Suc m" using l by (cases n) auto
    obtain c t where c: "str_int i = c # t" "c = 45 \<or> 48 \<le> c \<and> c \<le> 57" using str_int_head by blast
    then have "read_value n (str_int i @ r) = read_number (str_int i @ r)"
      by (auto simp: n lit_Cons)
    with read_number_str_int [OF d] show ?thesis by simp
  qed
  then show ?case by (simp add: read_back_def)
next
  case (4 s)
  have "read_value n (json_str s @ r) = Some (JStr s, r)" if l: "length (json_str s) \<le> n" for n r
  proof -
    obtain t where t: "json_str s = 34 # t" using json_str_head by blast
    then obtain m where n: "n = Suc m" using l by (cases n) auto
    have "read_text (34 # t @ r) = Some (s, r)"
      using read_text_json_str [of s r] 4 by (simp add: t)
    then show ?thesis by (simp add: n t lit_Cons)
  qed
  then show ?case by (simp add: read_back_def)
next
  case (5 vs)
  then have IH: "\<forall>v \<in> set vs. read_back v" by (simp add: list_all_iff)
  have "read_value n (dumps (JArr vs) @ r) = Some (JArr vs, r)" if l: "length (dumps (JArr vs)) \<le> n" for n r
  proof -
    obtain m where n: "n = Suc m" using l by (cases n) auto
    show ?thesis
    proof (cases vs)
      case Nil
      then show ?thesis by (simp add: n lit_Cons)
    next
      case (Cons w ws)
      let ?b = "join (lit '', '') (map dumps vs) @ 93 # r"
      obtain c t where c: "dumps w = c # t" "c \<notin> {32, 9, 10, 13, 93, 125}" using dumps_head by blast
      then have b: "\<exists>t'. ?b = c # t'" using Cons by (cases ws) simp_all
      have "read_elems m ?b = Some (vs, r)"
        by (rule read_elems_back) (use IH Cons l in \<open>simp_all add: n\<close>)
      with b c(2) show ?thesis by (auto simp: n lit_Cons)
    qed
  qed
  then show ?case unfolding read_back_def by blast
next
  case (6 kvs)
  then have IH: "\<forall>(k, v) \<in> set kvs. list_all is_scalar k \<and> read_back v"
    by (auto simp: list_all_iff)
  have "read_value n (dumps (JObj kvs) @ r) = Some (JObj kvs, r)" if l: "length (dumps (JObj kvs)) \<le> n" for n r
  proof -
    obtain m where n: "n = Suc m" using l by (cases n) auto
    show ?thesis
    proof (cases kvs)
      case Nil
      then show ?thesis by (simp add: n lit_Cons)
    next
      case (Cons w ws)
      let ?b = "join (lit '', '') (map dump_member kvs) @ 125 # r"
      have b: "\<exists>t'. ?b = 34 # t'" using Cons by (cases w; cases ws) (simp_all add: json_str_def)
      have "read_members m ?b = Some (kvs, r)"
        by (rule read_members_back) (use IH Cons l in \<open>simp_all add: n\<close>)
      with b show ?thesis by (auto simp: n lit_Cons)
    qed
  qed
  then show ?case unfolding read_back_def by blast
next
  case 1
  have "read_value n (lit ''null'' @ r) = Some (JNull, r)" if "4 \<le> n" for n r
    using that by (cases n) (simp_all add: lit_Cons)
  then show ?case by (simp add: read_back_def)
next
  case (2 b)
  have "read_value n (lit ''true'' @ r) = Some (JBool True, r)"
    "read_value n (lit ''false'' @ r) = Some (JBool False, r)" if "4 \<le> n" for n r
    using that by (cases n; simp add: lit_Cons)+
  then show ?case by (simp add: read_back_def)
qed

lemma read_json_dumps: "json_scalar v \<Longrightarrow> read_json (dumps v) = Some v"
  using read_backD [OF read_back_dumps, of v "length (dumps v)" "[]"] by (simp add: read_json_def)

lemma json_scalar_sort_keys: "json_scalar v \<Longrightarrow> json_scalar (sort_keys v)"
proof (induction v rule: sort_keys.induct)
  case (1 vs)
  then show ?case by (simp add: list_all_iff)
next
  case (2 kvs)
  have kv: "list_all is_scalar k \<and> json_scalar (sort_keys v)" if m: "(k, v) \<in> set kvs" for k v
  proof -
    have "list_all is_scalar k \<and> json_scalar v" using 2(2) m by (auto simp: list_all_iff)
    with 2(1) [OF m refl] show ?thesis by blast
  qed
  show ?case
    unfolding sort_keys.simps json_scalar.simps list_all_iff [of "\<lambda>(k, v). list_all is_scalar k \<and> json_scalar v"]
      set_sort set_map
  proof
    fix x assume "x \<in> (\<lambda>(k, v). (k, sort_keys v)) ` set kvs"
    then obtain y where y: "y \<in> set kvs" "x = (fst y, sort_keys (snd y))" by (auto simp: case_prod_beta)
    with kv [of "fst y" "snd y"] show "case x of (k, v) \<Rightarrow> list_all is_scalar k \<and> json_scalar v"
      by (simp only: prod.case prod.collapse)
  qed
qed simp_all

lemma dumps_inject:
  assumes "json_scalar v" and "json_scalar w" and "dumps v = dumps w"
  shows "v = w"
proof -
  have "Some v = read_json (dumps v)" by (rule read_json_dumps [OF assms(1), symmetric])
  also have "\<dots> = Some w" unfolding assms(3) by (rule read_json_dumps [OF assms(2)])
  finally show ?thesis by blast
qed

end
