(* ===== verification/StreamData.thy ===== *)
theory StreamData
  imports StreamDelivery JsonRead
begin

text \<open>
  The data of the events of a stream: what a client reads from an event is the response that was
  dumped into it, and the generator, which compares printed dumps, sends a step exactly when the
  response has changed.
\<close>

section \<open>Objects with the same keys\<close>

lemma same_entries:
  assumes "distinct (map fst xs)" and "map fst xs = map fst ys" and "set xs = set ys"
  shows "xs = ys"
proof -
  have "distinct (map fst ys)" using assms(1,2) by simp
  then have "map_of xs = map_of ys" using assms(1,3) map_of_inject_set by blast
  moreover have "map snd zs = map (the \<circ> map_of zs) (map fst zs)" if "distinct (map fst zs)"
    for zs :: "('a \<times> 'b) list"
    using that by (auto intro!: nth_equalityI)
  ultimately have "map snd xs = map snd ys" using assms(1,2) by metis
  with assms(2) show ?thesis by (metis zip_map_fst_snd)
qed

lemma sort_keys_JObj:
  assumes "sort_keys (JObj kvs) = sort_keys (JObj kvs')"
    and "map fst kvs = map fst kvs'" and "distinct (map fst kvs)"
  shows "map (sort_keys \<circ> snd) kvs = map (sort_keys \<circ> snd) kvs'"
proof -
  let ?f = "\<lambda>(k, v). (k, sort_keys v)"
  have m: "map fst (map ?f zs) = map fst zs" "map snd (map ?f zs) = map (sort_keys \<circ> snd) zs" for zs
    by (auto simp: case_prod_beta)
  have "set (sort_key fst (map ?f kvs)) = set (sort_key fst (map ?f kvs'))"
    using assms(1) by simp
  then have "set (map ?f kvs) = set (map ?f kvs')" by (simp only: set_sort)
  with same_entries [of "map ?f kvs" "map ?f kvs'"] assms(2,3) have "map ?f kvs = map ?f kvs'"
    unfolding m by blast
  then show ?thesis using m(2) by metis
qed

section \<open>Dumps of responses are told apart\<close>

text \<open>\<open>tells_apart f\<close>: sorted dumps by \<open>f\<close> are equal for equal values only, and are never null.\<close>

definition tells_apart :: "('a \<Rightarrow> json) \<Rightarrow> bool" where
  "tells_apart f \<longleftrightarrow> (\<forall>x y. sort_keys (f x) = sort_keys (f y) \<longrightarrow> x = y) \<and> (\<forall>x. sort_keys (f x) \<noteq> JNull)"

lemma tells_apartD: "tells_apart f \<Longrightarrow> sort_keys (f x) = sort_keys (f y) \<longleftrightarrow> x = y"
  by (auto simp: tells_apart_def)

lemma tells_apart_opt:
  "tells_apart f \<Longrightarrow> sort_keys (JOpt f x) = sort_keys (JOpt f y) \<longleftrightarrow> x = y"
  by (cases x; cases y) (auto simp: tells_apart_def JOpt_def dest: sym)

lemma tells_apart_list:
  assumes "tells_apart f"
  shows "sort_keys (JArr (map f xs)) = sort_keys (JArr (map f ys)) \<longleftrightarrow> xs = ys"
proof -
  have "inj (sort_keys \<circ> f)" using assms by (auto simp: tells_apart_def inj_def)
  then show ?thesis by (simp add: inj_map_eq_map)
qed

lemma tells_apart_JStr: "tells_apart JStr"
  by (simp add: tells_apart_def)

lemma tells_apart_StepModel: "tells_apart dump_StepModel"
proof -
  have "x = y" if "sort_keys (dump_StepModel x) = sort_keys (dump_StepModel y)" for x y
    using sort_keys_JObj [OF that [unfolded dump_StepModel_def]] tells_apart_opt [OF tells_apart_JStr]
    by (cases x; cases y) simp
  then show ?thesis by (auto simp: tells_apart_def dump_StepModel_def)
qed

lemma tells_apart_SandboxModel: "tells_apart dump_SandboxModel"
proof -
  have "x = y" if "sort_keys (dump_SandboxModel x) = sort_keys (dump_SandboxModel y)" for x y
    using sort_keys_JObj [OF that [unfolded dump_SandboxModel_def]] tells_apart_opt [OF tells_apart_JStr]
    by (cases x; cases y) simp
  then show ?thesis by (auto simp: tells_apart_def dump_SandboxModel_def)
qed

lemma tells_apart_RunResultModel: "tells_apart dump_RunResultModel"
proof -
  have "x = y" if "sort_keys (dump_RunResultModel x) = sort_keys (dump_RunResultModel y)" for x y
    using sort_keys_JObj [OF that [unfolded dump_RunResultModel_def]] tells_apart_opt [OF tells_apart_JStr]
      tells_apart_opt [OF tells_apart_SandboxModel]
    by (cases x; cases y) simp
  then show ?thesis by (auto simp: tells_apart_def dump_RunResultModel_def)
qed

lemma tells_apart_ErrorDetail: "tells_apart dump_ErrorDetail"
proof -
  have "x = y" if "sort_keys (dump_ErrorDetail x) = sort_keys (dump_ErrorDetail y)" for x y
    using sort_keys_JObj [OF that [unfolded dump_ErrorDetail_def]] tells_apart_opt [OF tells_apart_JStr]
    by (cases x; cases y) simp
  then show ?thesis by (auto simp: tells_apart_def dump_ErrorDetail_def)
qed

lemma tells_apart_RunStatusResponse: "tells_apart dump_RunStatusResponse"
proof -
  have "x = y" if "sort_keys (dump_RunStatusResponse x) = sort_keys (dump_RunStatusResponse y)" for x y
    using sort_keys_JObj [OF that [unfolded dump_RunStatusResponse_def]]
      tells_apart_opt [OF tells_apart_JStr] tells_apart_opt [OF tells_apart_RunResultModel]
      tells_apart_opt [OF tells_apart_ErrorDetail] tells_apart_list [OF tells_apart_JStr]
      tells_apart_list [OF tells_apart_StepModel]
    by (cases x; cases y) (simp del: sort_keys.simps(1) add: sort_keys.simps(2-))
  then show ?thesis by (auto simp: tells_apart_def dump_RunStatusResponse_def)
qed

text \<open>
  C19. The generator compares printed texts, and thereby the responses themselves: after the
  snapshot, a round whose response, in any of its fields, differs from the last one sent yields
  exactly one step with the new response, and a round whose response is the same yields none, only
  a comment every 21 rounds.
\<close>

theorem step_event_exactly_on_change:
  assumes "json_scalar (dump_RunStatusResponse r)" and "json_scalar (dump_RunStatusResponse r')"
  shows "fst (idle_round (dump_RunStatusResponse r')
      (Some (dumps (sort_keys (dump_RunStatusResponse r)))) False ticks)
    = (if r' = r then (if ticks mod 21 = 0 then [keepalive] else [])
       else [sse (lit ''step'') (dump_RunStatusResponse r')])"
proof -
  have "dumps (sort_keys (dump_RunStatusResponse r')) = dumps (sort_keys (dump_RunStatusResponse r))
      \<longleftrightarrow> r' = r"
    using dumps_inject assms json_scalar_sort_keys tells_apartD [OF tells_apart_RunStatusResponse] by metis
  then show ?thesis by (simp add: idle_round_def Let_def)
qed

text \<open>
  C20. An event carries its data to the client: the text of an event reads back as its name and one
  line of data, and that line, read as JSON, is the value that was dumped, with every text in it,
  quotes, line breaks and characters beyond the basic plane included.
\<close>

theorem event_data_reads_back:
  assumes "json_scalar data" and "10 \<notin> set (lit e)"
  shows "\<exists>line. read_stream (sse (lit e) data) = Some [Event (lit e) line] \<and> read_json line = Some data"
proof -
  have "read_stream (concat (map frame_text [sse_frame e data])) = Some [sse_frame e data]"
    by (rule read_stream_frames) (simp add: good_sse_frame assms(2))
  then show ?thesis
    using read_json_dumps [OF assms(1)] by (simp add: sse_text) (simp add: sse_frame_def)
qed

theorem event_data_reads_back_witness:
  "\<exists>line. read_stream (sse (lit ''step'') (JObj [(lit ''detail'', JStr [10, 34, 0x1F600])])) = Some [Event (lit ''step'') line]
     \<and> read_json line = Some (JObj [(lit ''detail'', JStr [10, 34, 0x1F600])])"
  by (rule event_data_reads_back) (simp_all add: is_scalar_def lit_Cons)

definition sample_response :: "pystr \<Rightarrow> RunStatusResponse" where
  "sample_response stage =
     \<lparr>rsr_run_id = lit ''demo:1'', rsr_status = lit ''RUNNING'', rsr_stage = stage,
      rsr_current_step = Some stage, rsr_completed_steps = [], rsr_steps = [], rsr_result = None,
      rsr_error = None\<rparr>"

theorem step_event_exactly_on_change_witness:
  "fst (idle_round (dump_RunStatusResponse (sample_response (lit ''run_sandbox'')))
      (Some (dumps (sort_keys (dump_RunStatusResponse (sample_response (lit ''plan'')))))) False 7)
    = [sse (lit ''step'') (dump_RunStatusResponse (sample_response (lit ''run_sandbox'')))]"
proof -
  have s: "json_scalar (dump_RunStatusResponse (sample_response (lit ''plan'')))"
    "json_scalar (dump_RunStatusResponse (sample_response (lit ''run_sandbox'')))"
    by (simp_all add: dump_RunStatusResponse_def sample_response_def JOpt_def is_scalar_def lit_Cons)
  have "sample_response (lit ''run_sandbox'') \<noteq> sample_response (lit ''plan'')"
    by (simp add: sample_response_def)
  with step_event_exactly_on_change [OF s, of 7] show ?thesis by simp
qed

end
