(* ===== verification/Observability.thy ===== *)
theory Observability
  imports RunsApi JsonRead "HOL-Library.AList"
begin

text \<open>
  Structured logs and the set-up of telemetry (\<^verbatim>\<open>app/observability/logging.py\<close>, \<^verbatim>\<open>setup_tracing\<close>
  of \<^verbatim>\<open>app/observability/tracing.py\<close>): the construction of a record, the correlation filter,
  the JSON formatter, and the two idempotent initialisations with the state they change.
\<close>

section \<open>Records\<close>

text \<open>The attributes that every record of Python 3.12 has, and the two more of \<^verbatim>\<open>_RESERVED\<close>.\<close>

definition LOG_RECORD_ATTRS :: "pystr list" where
  "LOG_RECORD_ATTRS =
     [lit ''name'', lit ''msg'', lit ''args'', lit ''levelname'', lit ''levelno'', lit ''pathname'',
      lit ''filename'', lit ''module'', lit ''exc_info'', lit ''exc_text'', lit ''stack_info'',
      lit ''lineno'', lit ''funcName'', lit ''created'', lit ''msecs'', lit ''relativeCreated'',
      lit ''thread'', lit ''threadName'', lit ''processName'', lit ''process'', lit ''taskName'']"

definition RESERVED :: "pystr list" where
  "RESERVED = LOG_RECORD_ATTRS @ [lit ''message'', lit ''asctime'']"

text \<open>A record: the time and message as texts, and the attributes beyond the standard ones, in the
  order of the record's dictionary.\<close>

record LogRecord =
  lr_ts :: pystr
  lr_level :: pystr
  lr_logger :: pystr
  lr_message :: pystr
  lr_extra :: "(pystr \<times> json) list"
  lr_exc :: "pystr option"

text \<open>\<^verbatim>\<open>extra\<close> becomes attributes; a name that a record has already is an error.\<close>

definition make_record ::
  "pystr \<Rightarrow> pystr \<Rightarrow> pystr \<Rightarrow> pystr \<Rightarrow> (pystr \<times> json) list \<Rightarrow> pystr option \<Rightarrow> LogRecord result" where
  "make_record ts level logger message extra exc =
     (case filter (\<lambda>(k, v). k \<in> set RESERVED) extra of
        (k, v) # _ \<Rightarrow> Inl (KeyError (lit ''Attempt to overwrite '' @ k @ lit '' in LogRecord''))
      | [] \<Rightarrow> Inr \<lparr>lr_ts = ts, lr_level = level, lr_logger = logger, lr_message = message,
                   lr_extra = AList.updates (map fst extra) (map snd extra) [], lr_exc = exc\<rparr>)"

section \<open>The filter and the formatter\<close>

text \<open>The context of a record: the two context variables and the identifiers of a valid span, as
  their formatted texts.\<close>

record log_context =
  cx_run_id :: "pystr option"
  cx_tenant_id :: "pystr option"
  cx_span :: "(pystr \<times> pystr) option"

definition correlate :: "log_context \<Rightarrow> LogRecord \<Rightarrow> LogRecord" where
  "correlate cx r =
     r\<lparr>lr_extra :=
        AList.update (lit ''span_id'') (JOpt (\<lambda>(t, sp). JStr sp) (cx_span cx))
         (AList.update (lit ''trace_id'') (JOpt (\<lambda>(t, sp). JStr t) (cx_span cx))
           (AList.update (lit ''tenant_id'') (JOpt JStr (cx_tenant_id cx))
             (AList.update (lit ''run_id'') (JOpt JStr (cx_run_id cx)) (lr_extra r))))\<rparr>"

text \<open>\<^verbatim>\<open>getattr(record, key, None)\<close>.\<close>

definition attr_or_null :: "LogRecord \<Rightarrow> string \<Rightarrow> json" where
  "attr_or_null r k = (case map_of (lr_extra r) (lit k) of None \<Rightarrow> JNull | Some v \<Rightarrow> v)"

definition base_payload :: "pystr \<Rightarrow> LogRecord \<Rightarrow> (pystr \<times> json) list" where
  "base_payload service r =
     [(lit ''ts'', JStr (lr_ts r)), (lit ''level'', JStr (lr_level r)),
      (lit ''service'', JStr service), (lit ''logger'', JStr (lr_logger r)),
      (lit ''msg'', JStr (lr_message r)), (lit ''run_id'', attr_or_null r ''run_id''),
      (lit ''tenant_id'', attr_or_null r ''tenant_id''),
      (lit ''trace_id'', attr_or_null r ''trace_id''),
      (lit ''span_id'', attr_or_null r ''span_id'')]"

text \<open>The loop over the attributes promotes those that are neither reserved nor present.\<close>

definition promote :: "(pystr \<times> json) list \<Rightarrow> pystr \<times> json \<Rightarrow> (pystr \<times> json) list" where
  "promote payload kv =
     (if fst kv \<notin> set RESERVED \<and> map_of payload (fst kv) = None then payload @ [kv] else payload)"

definition json_payload :: "pystr \<Rightarrow> LogRecord \<Rightarrow> (pystr \<times> json) list" where
  "json_payload service r =
     (let payload = foldl promote (base_payload service r) (lr_extra r) in
      case lr_exc r of None \<Rightarrow> payload | Some t \<Rightarrow> AList.update (lit ''exc'') (JStr t) payload)"

definition format_record :: "pystr \<Rightarrow> LogRecord \<Rightarrow> pystr" where
  "format_record service r = dumps (JObj (json_payload service r))"

section \<open>Initialisation\<close>

text \<open>The handlers of the root logger and of \<^verbatim>\<open>uvicorn.access\<close>: one of the service's own, with the
  formatter's service, or another.\<close>

datatype handler =
    Json_handler pystr
  | Other_handler nat

record log_state =
  root_level :: pystr
  root_handlers :: "handler list"
  uvicorn_access_handlers :: "handler list"

definition LEVELS :: "pystr list" where
  "LEVELS = [lit ''CRITICAL'', lit ''FATAL'', lit ''ERROR'', lit ''WARN'', lit ''WARNING'',
             lit ''INFO'', lit ''DEBUG'', lit ''NOTSET'']"

text \<open>\<open>upper\<close> is the interpreter's \<^verbatim>\<open>str.upper\<close>.  An unknown level raises before any handler is
  touched.\<close>

definition configure_logging ::
  "(pystr \<Rightarrow> pystr) \<Rightarrow> pystr \<Rightarrow> pystr \<Rightarrow> log_state \<Rightarrow> log_state result" where
  "configure_logging upper service level st =
     (if upper level \<notin> set LEVELS then Inl ValueError
      else Inr \<lparr>root_level = upper level, root_handlers = [Json_handler service],
                uvicorn_access_handlers = []\<rparr>)"

record tracing_state =
  initialized :: bool
  provider :: "(pystr \<times> pystr) option"

definition setup_tracing :: "pystr \<Rightarrow> pystr \<Rightarrow> tracing_state \<Rightarrow> tracing_state" where
  "setup_tracing service_name otlp_endpoint st =
     (if initialized st then st
      else \<lparr>initialized = True, provider = Some (service_name, otlp_endpoint)\<rparr>)"

section \<open>Facts\<close>

lemma map_of_foldl_promote:
  "map_of (foldl promote payload kvs) k =
     (case map_of payload k of
        Some v \<Rightarrow> Some v
      | None \<Rightarrow> if k \<in> set RESERVED then None else map_of kvs k)"
proof (induction kvs arbitrary: payload)
  case (Cons kv kvs)
  obtain k' v where kv: "kv = (k', v)" by (cases kv)
  show ?case
    unfolding foldl_Cons Cons.IH
    by (auto simp: kv promote_def map_add_def split: option.splits)
qed (simp split: option.split)

lemma distinct_foldl_promote:
  "distinct (map fst payload) \<Longrightarrow> distinct (map fst (foldl promote payload kvs))"
proof (induction kvs arbitrary: payload)
  case (Cons kv kvs)
  have "distinct (map fst (promote payload kv))"
    using Cons.prems by (auto simp: promote_def map_of_eq_None_iff)
  then show ?case by (simp add: Cons.IH)
qed simp

lemma correlate_extra:
  "map_of (lr_extra (correlate cx r)) (lit ''run_id'') = Some (JOpt JStr (cx_run_id cx))"
  "map_of (lr_extra (correlate cx r)) (lit ''tenant_id'') = Some (JOpt JStr (cx_tenant_id cx))"
  by (simp_all add: correlate_def update_conv')

lemma map_of_json_payload:
  "map_of (json_payload service r) k =
     (case lr_exc r of
        None \<Rightarrow> map_of (foldl promote (base_payload service r) (lr_extra r)) k
      | Some t \<Rightarrow> if k = lit ''exc'' then Some (JStr t)
                  else map_of (foldl promote (base_payload service r) (lr_extra r)) k)"
  by (simp add: json_payload_def Let_def update_conv' split: option.split)

lemma distinct_json_payload: "distinct (map fst (json_payload service r))"
proof -
  have "distinct (map fst (foldl promote (base_payload service r) (lr_extra r)))"
    by (rule distinct_foldl_promote) (simp add: base_payload_def)
  then show ?thesis by (simp add: json_payload_def Let_def distinct_update split: option.split)
qed

lemma json_payload_context:
  "map_of (json_payload service (correlate cx r)) (lit ''run_id'') = Some (JOpt JStr (cx_run_id cx))"
  "map_of (json_payload service (correlate cx r)) (lit ''tenant_id'') = Some (JOpt JStr (cx_tenant_id cx))"
  by (simp_all add: map_of_json_payload map_of_foldl_promote base_payload_def attr_or_null_def
      correlate_extra split: option.split)

text \<open>
  C36. A log record is one line of JSON with one value per key, also when it carries an exception:
  whatever the message, the traceback, the extras and the context are, the formatted text has no
  line break, and a collector that reads it as JSON gets an object with distinct keys, whose run
  and tenant are those of the context variables, whose \<^verbatim>\<open>exc\<close> is the traceback of the record if
  there is one, and in which every extra under a name that is neither reserved nor one of the
  formatter's own keys has its value.  The texts are assumed to have no lone surrogates, and the
  names of the extras, which are the keys of a dictionary, to be distinct.
\<close>

theorem log_line_of_context:
  assumes "distinct (map fst (lr_extra r))"
    and "json_scalar (JObj (json_payload service (correlate cx r)))"
  shows "10 \<notin> set (format_record service (correlate cx r))
    \<and> (\<exists>entries. read_json (format_record service (correlate cx r)) = Some (JObj entries)
       \<and> distinct (map fst entries)
       \<and> map_of entries (lit ''run_id'') = Some (JOpt JStr (cx_run_id cx))
       \<and> map_of entries (lit ''tenant_id'') = Some (JOpt JStr (cx_tenant_id cx))
       \<and> (\<forall>t. lr_exc r = Some t \<longrightarrow> map_of entries (lit ''exc'') = Some (JStr t))
       \<and> (\<forall>k v. (k, v) \<in> set (lr_extra r) \<longrightarrow> k \<notin> set RESERVED
            \<longrightarrow> k \<notin> set (map fst (base_payload service r)) \<longrightarrow> lr_exc r = None \<or> k \<noteq> lit ''exc''
            \<longrightarrow> map_of entries k = Some v))"
proof -
  let ?r = "correlate cx r"
  have exc: "lr_exc ?r = lr_exc r" by (simp add: correlate_def)
  have "read_json (format_record service ?r) = Some (JObj (json_payload service ?r))"
    unfolding format_record_def by (rule read_json_dumps [OF assms(2)])
  moreover have "10 \<notin> set (format_record service ?r)"
    using dumps_printable [of 10 "JObj (json_payload service ?r)"] by (auto simp: format_record_def)
  moreover note distinct_json_payload [of service ?r] json_payload_context [of service cx r]
  moreover have "map_of (json_payload service ?r) (lit ''exc'') = Some (JStr t)" if "lr_exc r = Some t" for t
    using that by (simp add: map_of_json_payload exc)
  moreover have "map_of (json_payload service ?r) k = Some v"
    if "(k, v) \<in> set (lr_extra r)" "k \<notin> set RESERVED" "k \<notin> set (map fst (base_payload service r))"
      and "lr_exc r = None \<or> k \<noteq> lit ''exc''" for k v
  proof -
    have "map_of (lr_extra r) k = Some v" using assms(1) that(1) by (rule map_of_is_SomeI)
    then have "map_of (lr_extra ?r) k = Some v"
      using that(3) by (simp add: correlate_def update_conv' base_payload_def)
    moreover have "map_of (base_payload service ?r) k = None"
      using that(3) by (simp add: base_payload_def)
    ultimately show ?thesis
      using that(2,4) by (auto simp: map_of_json_payload map_of_foldl_promote exc split: option.split)
  qed
  ultimately show ?thesis by blast
qed

theorem log_line_of_context_witness:
  "\<exists>entries. read_json (format_record (lit ''svc'')
      (correlate \<lparr>cx_run_id = Some (lit ''demo:1''), cx_tenant_id = None, cx_span = None\<rparr>
        \<lparr>lr_ts = [], lr_level = lit ''ERROR'', lr_logger = [], lr_message = [10, 128512],
         lr_extra = [(lit ''step'', JInt 1)], lr_exc = Some [84, 10, 34]\<rparr>)) = Some (JObj entries)
    \<and> map_of entries (lit ''step'') = Some (JInt 1)
    \<and> map_of entries (lit ''exc'') = Some (JStr [84, 10, 34])
    \<and> map_of entries (lit ''run_id'') = Some (JStr (lit ''demo:1''))"
proof -
  let ?cx = "\<lparr>cx_run_id = Some (lit ''demo:1''), cx_tenant_id = None, cx_span = None\<rparr>"
  let ?r = "\<lparr>lr_ts = [], lr_level = lit ''ERROR'', lr_logger = [], lr_message = [10, 128512],
         lr_extra = [(lit ''step'', JInt 1)], lr_exc = Some [84, 10, 34]\<rparr>"
  have "json_scalar (JObj (json_payload (lit ''svc'') (correlate ?cx ?r)))"
    by (simp add: json_payload_def Let_def base_payload_def attr_or_null_def promote_def correlate_def
        RESERVED_def LOG_RECORD_ATTRS_def JOpt_def is_scalar_def lit_Cons)
  from log_line_of_context [OF _ this] show ?thesis
    by (auto simp: RESERVED_def LOG_RECORD_ATTRS_def base_payload_def JOpt_def)
qed

text \<open>The value of an extra as it is printed.\<close>

fun attr_json :: "attr \<Rightarrow> json" where
  "attr_json (AStr t) = JStr t"
| "attr_json (AInt i) = JInt i"
| "attr_json (ABool b) = JBool b"
| "attr_json ANone = JNull"

lemma no_telemetry [simp]:
  "Telemetry t \<notin> set (fst (handle_already_started I c req wid))"
  "Telemetry t \<notin> set (fst (start_run I s c req wid))"
  by (auto simp: handle_already_started_def eff_unfold split: outcome.splits sum.splits)
    (auto simp: start_run_def eff_unfold snd_lift_res rmap_def split: sum.splits)

lemma create_run_telemetry:
  assumes "Telemetry t \<in> set (fst (create_run I s c req))"
  shows "\<exists>wid. workflow_id I req = Inr wid
    \<and> (t \<in> set (set_attrs (lit ''agent.run'')
              [(lit ''run.id'', AStr wid), (lit ''tenant.id'', AStr (rq_tenant_id req))])
       \<or> t = Log (lit ''INFO'') (lit ''run started'')
              [(lit ''step'', AStr (lit ''api.create_run'')), (lit ''run_id'', AStr wid)])"
  using assms
  by (auto simp: create_run_def eff_unfold snd_lift_res split: outcome.splits sum.splits exn.splits if_splits)

lemma create_run_log:
  assumes "Telemetry (Log l m ex) \<in> set (fst (create_run I s c req))"
  shows "\<exists>wid. workflow_id I req = Inr wid
    \<and> ex = [(lit ''step'', AStr (lit ''api.create_run'')), (lit ''run_id'', AStr wid)]"
  using create_run_telemetry [OF assms] by (auto simp: set_attrs_def)

lemma create_run_sets_no_context: "Telemetry (Set_run_id x) \<notin> set (fst (create_run I s c req))"
  using create_run_telemetry [of "Set_run_id x" I s c req] by (auto simp: set_attrs_def)

text \<open>
  C40. The identifier in the API's own log record is lost: the record that a successful creation
  writes carries the run's identifier as an extra, but the filter, which runs after the extras
  are attached, overwrites it with the context variable, which the API never sets; so the line
  that is printed has a null run identifier.
\<close>

theorem api_log_loses_run_id:
  assumes "Telemetry (Log l m ex) \<in> set (fst (create_run I s c req))"
    and "make_record ts l logger m (map (\<lambda>(k, a). (k, attr_json a)) ex) None = Inr r"
    and "cx_run_id cx = None"
  shows "(\<exists>wid. workflow_id I req = Inr wid \<and> map_of (lr_extra r) (lit ''run_id'') = Some (JStr wid))
    \<and> (\<forall>x. Telemetry (Set_run_id x) \<notin> set (fst (create_run I s c req)))
    \<and> map_of (json_payload service (correlate cx r)) (lit ''run_id'') = Some JNull"
proof -
  from create_run_log [OF assms(1)] obtain wid where w: "workflow_id I req = Inr wid"
    and ex: "ex = [(lit ''step'', AStr (lit ''api.create_run'')), (lit ''run_id'', AStr wid)]" by blast
  from assms(2) have r: "lr_extra r = [(lit ''step'', JStr (lit ''api.create_run'')), (lit ''run_id'', JStr wid)]"
    by (auto simp: make_record_def ex split: list.splits)
  have "map_of (json_payload service (correlate cx r)) (lit ''run_id'') = Some JNull"
    using json_payload_context(1) [of service cx r] assms(3) by (simp add: JOpt_def)
  with w r create_run_sets_no_context show ?thesis by simp
qed

theorem api_log_loses_run_id_witness:
  "\<forall>I d. \<exists>l m ex r. Telemetry (Log l m ex) \<in> set (fst (create_run I default_settings
        (sample_client (Inr ()) d) (sample_request None (Some (lit ''k'')))))
     \<and> map_of (lr_extra r) (lit ''run_id'') = Some (JStr (lit ''demo:k''))
     \<and> map_of (json_payload (lit ''svc'') (correlate \<lparr>cx_run_id = None, cx_tenant_id = None, cx_span = None\<rparr> r))
         (lit ''run_id'') = Some JNull"
proof (intro allI)
  fix I d
  show "\<exists>l m ex r. Telemetry (Log l m ex) \<in> set (fst (create_run I default_settings
        (sample_client (Inr ()) d) (sample_request None (Some (lit ''k'')))))
     \<and> map_of (lr_extra r) (lit ''run_id'') = Some (JStr (lit ''demo:k''))
     \<and> map_of (json_payload (lit ''svc'') (correlate \<lparr>cx_run_id = None, cx_tenant_id = None, cx_span = None\<rparr> r))
         (lit ''run_id'') = Some JNull"
  proof -
    let ?req = "sample_request None (Some (lit ''k''))"
    let ?ex = "[(lit ''step'', AStr (lit ''api.create_run'')), (lit ''run_id'', AStr (lit ''demo:k''))]"
    let ?kv = "map (\<lambda>(k, a). (k, attr_json a)) ?ex"
    obtain b where b: "admissible I default_settings ?req (lit ''demo:k'') b"
      using sample_admissible by blast
    then have l: "Telemetry (Log (lit ''INFO'') (lit ''run started'') ?ex)
        \<in> set (fst (create_run I default_settings (sample_client (Inr ()) d) ?req))"
      by (auto simp: admissible_def create_run_def start_run_def eff_unfold snd_lift_res not_less)
    have "\<exists>r. make_record [] (lit ''INFO'') [] (lit ''run started'') ?kv None = Inr r"
      by (simp add: make_record_def RESERVED_def LOG_RECORD_ATTRS_def)
    then obtain r where r: "make_record [] (lit ''INFO'') [] (lit ''run started'') ?kv None = Inr r" ..
    have "workflow_id I ?req = Inr (lit ''demo:k'')" using b by (simp add: admissible_def)
    with api_log_loses_run_id [OF l r, of "\<lparr>cx_run_id = None, cx_tenant_id = None, cx_span = None\<rparr>"] l
    show ?thesis by auto
  qed
qed

section \<open>Idempotent initialisation\<close>

lemma setup_tracing_again: "initialized st \<Longrightarrow> foldl (\<lambda>st (n, e). setup_tracing n e st) st calls = st"
  by (induction calls) (auto simp: setup_tracing_def)

lemma setup_tracing_calls:
  assumes "\<not> initialized st"
  shows "foldl (\<lambda>st (n, e). setup_tracing n e st) st ((n, e) # calls) = \<lparr>initialized = True, provider = Some (n, e)\<rparr>"
  using assms setup_tracing_again [of "\<lparr>initialized = True, provider = Some (n, e)\<rparr>" calls]
  by (simp add: setup_tracing_def [of n e st])

lemma configure_logging_again:
  "configure_logging upper service level st = Inr st' \<Longrightarrow>
     configure_logging upper service level st' = Inr st'"
  by (auto simp: configure_logging_def split: if_splits)

end
