(* ===== verification/Processes.thy ===== *)
theory Processes
  imports Observability SandboxActivity
begin

text \<open>
  The start of the three processes: the worker (\<^verbatim>\<open>app/temporal/worker.py\<close>), the API's lifespan
  (\<^verbatim>\<open>app/api/main.py\<close>), the client that both connect (\<^verbatim>\<open>app/temporal/client.py\<close>), and the
  program that runs inside a container (\<^verbatim>\<open>app/sandbox/runtime/entrypoint.py\<close>).
\<close>

section \<open>The worker and the API\<close>

datatype boot_event =
    Configure_logging pystr pystr
  | Setup_tracing pystr pystr
  | Boot_sbx event
  | Boot_log pystr pystr "(pystr \<times> attr) list"
  | Connect pystr pystr
  | Run_worker pystr
  | Serve

text \<open>What the set-up answers: the two initialisations and the connection may raise.\<close>

record boot_env =
  be_logging :: "unit result"
  be_tracing :: "unit result"
  be_connect :: "unit result"
  be_run :: "unit result"

definition boot :: "boot_event \<Rightarrow> unit result \<Rightarrow> (boot_event, unit) eff" where
  "boot ev r = eseq (emit ev) (lift_res r)"

definition create_client :: "Settings \<Rightarrow> boot_env \<Rightarrow> (boot_event, unit) eff" where
  "create_client s be = boot (Connect (temporal_host s) (temporal_namespace s)) (be_connect be)"

definition telemetry_setup :: "Settings \<Rightarrow> string \<Rightarrow> boot_env \<Rightarrow> (boot_event, unit) eff" where
  "telemetry_setup s role be =
     eseq (boot (Configure_logging (otel_service_name s @ lit role) (log_level s)) (be_logging be))
       (boot (Setup_tracing (otel_service_name s @ lit role) (otel_exporter_otlp_endpoint s)) (be_tracing be))"

text \<open>The worker's own check of the runtime: a policy violation is logged, and the worker goes on.\<close>

definition check_runtime ::
  "interp \<Rightarrow> Settings \<Rightarrow> run_env \<Rightarrow> (boot_event, unit) eff" where
  "check_runtime I s env =
     catch
       (ebind (lift_res (get_runner I (sandbox_runtime s))) (\<lambda>runner.
          eseq (map_eff Boot_sbx (runner_preflight I runner env))
            (emit (Boot_log (lit ''INFO'') (lit ''sandbox runtime available'')
                     [(lit ''sandbox_runtime'', AStr (sandbox_runtime s))]))))
       (\<lambda>e. case e of
            SandboxPolicyViolation m \<Rightarrow>
              emit (Boot_log (lit ''ERROR'')
                (lit ''sandbox execution unavailable; run_sandbox will fail closed until resolved: '' @ m)
                [(lit ''sandbox_runtime'', AStr (sandbox_runtime s))])
          | _ \<Rightarrow> throw e)"

definition worker_main :: "interp \<Rightarrow> Settings \<Rightarrow> run_env \<Rightarrow> boot_env \<Rightarrow> (boot_event, unit) eff" where
  "worker_main I s env be =
     eseq (telemetry_setup s ''-worker'' be)
      (eseq (check_runtime I s env)
        (eseq (create_client s be)
          (eseq (emit (Boot_log (lit ''INFO'') (lit ''worker starting'')
                   [(lit ''task_queue'', AStr (task_queue s)),
                    (lit ''sandbox_runtime'', AStr (sandbox_runtime s))]))
            (boot (Run_worker (task_queue s)) (be_run be)))))"

definition lifespan :: "Settings \<Rightarrow> boot_env \<Rightarrow> (boot_event, unit) eff" where
  "lifespan s be =
     eseq (telemetry_setup s ''-api'' be) (eseq (create_client s be) (emit Serve))"

definition boot_launches :: "(boot_event, 'a) eff \<Rightarrow> pystr list list" where
  "boot_launches m =
     launches (concat (map (\<lambda>e. case e of Boot_sbx x \<Rightarrow> [x] | _ \<Rightarrow> []) (fst m)))"

lemma launches_map_Boot_sbx:
  "launches (concat (map ((\<lambda>e. case e of Boot_sbx x \<Rightarrow> [x] | _ \<Rightarrow> []) \<circ> Boot_sbx) es)) = launches es"
  by (induction es) (auto simp: launches_def)

text \<open>
  C37. The worker starts without its runtime: when the configured runtime is unknown, or its check
  ends in a policy violation, the worker neither stops nor falls back, but connects and polls
  the queue all the same, and it has launched nothing; the runs that it then takes fail closed
  in the activity.
\<close>

theorem worker_starts_without_runtime:
  assumes "be_logging be = Inr ()" and "be_tracing be = Inr ()" and "be_connect be = Inr ()"
    and "(\<exists>m. get_runner I (sandbox_runtime s) = Inl (SandboxPolicyViolation m))
      \<or> (\<exists>q m. get_runner I (sandbox_runtime s) = Inr q
           \<and> snd (runner_preflight I q env) = Raise (SandboxPolicyViolation m))"
  shows "last (fst (worker_main I s env be)) = Run_worker (task_queue s)
    \<and> boot_launches (worker_main I s env be) = []
    \<and> (rs_runtime args = sandbox_runtime s \<longrightarrow> act_launches (run_sandbox I s' attempt env args) = [])"
proof -
  obtain es m where c: "check_runtime I s env = (es, Return ())"
    "boot_launches (check_runtime I s env) = []"
  proof -
    have "snd (check_runtime I s env) = Return () \<and> boot_launches (check_runtime I s env) = []"
      using assms(4) dispatch.preflight_launches [of I _ env]
      by (auto simp: check_runtime_def boot_launches_def eff_unfold snd_lift_res launches_map_Boot_sbx)
    then show ?thesis using that by (metis prod.collapse)
  qed
  have "last (fst (worker_main I s env be)) = Run_worker (task_queue s)"
    and "boot_launches (worker_main I s env be) = []"
    using c assms(1-3)
    by (simp_all add: worker_main_def telemetry_setup_def create_client_def boot_def boot_launches_def
        eff_unfold)
  moreover have "act_launches (run_sandbox I s' attempt env args) = []"
    if "rs_runtime args = sandbox_runtime s"
  proof (cases "\<exists>q. admitted I s' args q")
    case True
    then obtain q where q: "admitted I s' args q" by blast
    with assms(4) that have "snd (runner_preflight I q env) \<noteq> Return ()"
      by (auto simp: admitted_def)
    then show ?thesis
      using dispatch.guarded_run_launches [of I q s' env args attempt]
      by (simp add: act_launches_def sbx_run_sandbox [OF q])
  next
    case False
    then show ?thesis using run_sandbox_not_admitted by (simp add: act_launches_def)
  qed
  ultimately show ?thesis by blast
qed

theorem worker_starts_without_runtime_witness:
  "\<forall>I. last (fst (worker_main I (default_settings\<lparr>sandbox_runtime := lit ''firecracker''\<rparr>) (sample_env [] [] [])
      \<lparr>be_logging = Inr (), be_tracing = Inr (), be_connect = Inr (), be_run = Inr ()\<rparr>))
    = Run_worker (lit ''agent-pipeline'')"
proof (intro allI)
  fix I
  show "last (fst (worker_main I (default_settings\<lparr>sandbox_runtime := lit ''firecracker''\<rparr>) (sample_env [] [] [])
      \<lparr>be_logging = Inr (), be_tracing = Inr (), be_connect = Inr (), be_run = Inr ()\<rparr>))
    = Run_worker (lit ''agent-pipeline'')"
  proof -
    let ?s = "default_settings\<lparr>sandbox_runtime := lit ''firecracker''\<rparr>"
    let ?be = "\<lparr>be_logging = Inr (), be_tracing = Inr (), be_connect = Inr (), be_run = Inr ()\<rparr>"
    have "\<exists>q m. get_runner I (sandbox_runtime ?s) = Inr q
        \<and> snd (runner_preflight I q (sample_env [] [] [])) = Raise (SandboxPolicyViolation m)"
      by (simp add: get_runner_def runner_preflight_def firecracker_preflight_def)
    then have "last (fst (worker_main I ?s (sample_env [] [] []) ?be)) = Run_worker (task_queue ?s)"
      using worker_starts_without_runtime [of ?be I ?s "sample_env [] [] []"] by simp
    then show ?thesis by (simp add: default_settings_def)
  qed
qed

section \<open>The entrypoint\<close>

text \<open>How the program at \<^verbatim>\<open>/sandbox/code.py\<close> ends, and the exit status of the interpreter.  The
  status of a \<^verbatim>\<open>SystemExit\<close> is 0 for none, its number modulo 256, and 1 for anything else.\<close>

datatype exit_arg =
    Exit_none
  | Exit_int int
  | Exit_other pystr

datatype program_end =
    Falls_off
  | Raises_SystemExit exit_arg
  | Raises_other exn

fun exit_status :: "exit_arg \<Rightarrow> int" where
  "exit_status Exit_none = 0"
| "exit_status (Exit_int n) = n mod 256"
| "exit_status (Exit_other t) = 1"

fun entrypoint :: "program_end \<Rightarrow> int" where
  "entrypoint Falls_off = 0"
| "entrypoint (Raises_SystemExit a) = exit_status a"
| "entrypoint (Raises_other e) = exit_status (Exit_int 1)"

end
