(* ===== verification/Spec2Isabelle.thy ===== *)
theory Spec2Isabelle
  imports Streams Settling Replay Telemetry Attempts StreamData Processes
begin

text \<open>
  Verification of an execution service for untrusted code.  An HTTP API accepts a task and starts
  a durable workflow, whose activities plan the task, generate a program, run the program in a
  container sandbox and summarise its result; the API reads the workflow's status back, as a
  response or as an event stream.  The theories model the code under \<^verbatim>\<open>src/app\<close>, component by
  component, with the names of the code; a name that would clash has a suffix or a prefix.

  \<^bold>\<open>Parts and theories.\<close>

  \<^item> The language.  \<open>Prelude\<close>: texts as lists of code points, the exceptions as one datatype, and
    results \<open>exn + 'a\<close>.  \<open>PyText\<close>, \<open>PyBytes\<close>, \<open>PyJson\<close>, \<open>PyFloat\<close>: the text methods, UTF-8 with
    the handler \<^verbatim>\<open>replace\<close>, \<^verbatim>\<open>json.dumps\<close>, and doubles with their rounding.  \<open>Effects\<close>: a
    computation is the list of the calls that it issues and its end, which is a value, an
    exception, or pending where the given environment ends; \<open>ends\<close> states a postcondition of both
    ends, with its equations.  The record \<open>interp\<close> holds what is taken from the interpreter's tables
    and from the hash functions.  \<open>JsonRead\<close> is a reader of JSON that reads every dump back.
  \<^item> Data and pure code.  \<open>Contracts\<close> (\<^verbatim>\<open>contracts.py\<close>), \<open>Config\<close> (\<^verbatim>\<open>config.py\<close>), \<open>Codegen\<close> and
    \<open>Pipeline\<close> (\<^verbatim>\<open>agents/codegen.py\<close>, \<^verbatim>\<open>agents/pipeline.py\<close>).
  \<^item> The sandbox.  \<open>Runner\<close> (\<^verbatim>\<open>sandbox/runner.py\<close>, \<^verbatim>\<open>sandbox/firecracker.py\<close>) has the interface of
    a runner as the locale \<open>sandbox_runner\<close>.  \<open>Gvisor\<close> (\<^verbatim>\<open>sandbox/gvisor.py\<close>) has the runner:
    \<open>gvisor_run\<close> is \<^verbatim>\<open>GvisorRunner.run\<close>, cut at its blocks (\<open>in_staging\<close>, \<open>watch\<close>, \<open>poll_loop\<close>,
    \<open>deadline_result\<close>, \<open>exit_result\<close>), \<open>read_capped\<close>, \<open>preflight\<close>, \<open>docker_run_cmd\<close>,
    \<open>classify_infra\<close> and \<open>kill\<close> are the functions of those names.  \<open>Containment\<close> reads a command
    line back and states the isolation policy.  \<open>Sandbox\<close> has what a run promises, \<open>Dispatch\<close> the
    interpretations of the locale for both runners and for the dispatch over them.
  \<^item> The activities.  \<open>Tracing\<close> (\<^verbatim>\<open>observability/tracing.py\<close>, the span helpers), \<open>SandboxActivity\<close>
    (\<^verbatim>\<open>activities/sandbox.py\<close>), \<open>AgentActivities\<close> (\<^verbatim>\<open>activities/agents.py\<close>).
  \<^item> The workflow.  \<open>Policies\<close> (\<^verbatim>\<open>temporal/policies.py\<close>), \<open>Workflow\<close> (\<^verbatim>\<open>temporal/workflows.py\<close>):
    the record \<open>Workflow\<close> is \<^verbatim>\<open>self._stage\<close> and \<^verbatim>\<open>self._steps\<close>; \<open>workflow_run\<close> is the body with the
    activities' answers as an argument, \<open>wf_step\<close> the same workflow from await to await.
    \<open>WorkflowRuns\<close> has their agreement and the invariants.  \<open>Attempts\<close> puts the sandbox activity under
    the retry policy that the workflow passes.  \<open>Replay\<close> runs the body again with recorded answers.
    \<open>Execution\<close> joins the workflow's steps with the activities that answer them.
  \<^item> The API.  \<open>Schemas\<close> (\<^verbatim>\<open>api/schemas.py\<close>), \<open>Api\<close> (\<^verbatim>\<open>api/auth.py\<close>, \<^verbatim>\<open>api/errors.py\<close>, the
    functions of \<^verbatim>\<open>api/main.py\<close>), \<open>Routes\<close> (\<^verbatim>\<open>api/routes_runs.py\<close>), with \<open>RunsApi\<close> for what
    holds of the endpoints and \<open>RunStream\<close> for the event stream.  \<open>App\<close> composes them as
    \<^verbatim>\<open>create_app\<close> does: path templates, token check, handlers, exception handlers, middleware.
  \<^item> The API beside the workflow.  \<open>Lifecycle\<close> orders the states of a run in phases and has the
    responses of a reader whose answers tell its states; \<open>StreamDelivery\<close> follows one run with the
    event stream, and \<open>StreamData\<close> reads its events back; \<open>Submissions\<close> puts requests one after
    another.
  \<^item> The whole service.  \<open>Replies\<close>: what \<open>app\<close> calls and replies for a read and a submission.
    \<open>Service\<close>: the orchestration service's table of runs, in which a run is a \<open>job\<close> with the
    state of its workflow; \<open>exchanges\<close> is one request with its reply, \<open>move\<close> a workflow step of some
    run, and \<open>served\<close> any interleaving of both from the empty table; the invariant \<open>table_ok\<close> holds
    of every table reached.  A timeout or a termination by the service is an exception at the
    await where the workflow is.  \<open>Reads\<close>: what clients are told by responses.  \<open>Streams\<close>: what
    they are told by the events of a stream; \<open>streamed\<close> interleaves its rounds with the rest of the
    service.  \<open>Settling\<close>: that accepted work is done.  \<open>Progress\<close> has the contract of a step
    relation with a rank as the locale \<open>terminating\<close>, and shows that a table of such systems meets it
    again (\<open>terminating_entries\<close>); the workflow and the table of jobs are its instances.
  \<^item> \<open>Observability\<close> (\<^verbatim>\<open>observability/logging.py\<close>, \<^verbatim>\<open>setup_tracing\<close>) and \<open>Processes\<close>
    (\<^verbatim>\<open>temporal/worker.py\<close>, \<^verbatim>\<open>temporal/client.py\<close>, \<^verbatim>\<open>lifespan\<close> of \<^verbatim>\<open>api/main.py\<close>,
    \<^verbatim>\<open>sandbox/runtime/entrypoint.py\<close>).  \<open>Telemetry\<close>: what the spans and log records of the four
    activities depend on.

  \<^bold>\<open>The environment.\<close>  What is not code of the repository is an argument: the answers of the
  container tool, of the file system and of the clock (\<open>run_env\<close>), of the orchestration service to
  a handler (\<open>client\<close>, \<open>tick\<close>) and to the workflow (\<open>Activities\<close>), of the start-up (\<open>boot_env\<close>),
  and the tables of \<open>interp\<close>.  They are arbitrary: properties quantify over all of them, and name
  what they rely on as hypotheses: \<open>delivers\<close> (an activity's value comes from an attempt of it),
  \<open>obeys_policy\<close> (attempts follow their retry policy, and the service's own timeouts are retried
  whatever an attempt raises), \<open>reflects\<close> and \<open>watches\<close> (a description tells a run's state, and a
  query after it the same or a later one), \<open>documented_service\<close> (identifiers are unique, memos are
  kept), \<open>task_fits\<close> and \<open>sandbox_returns\<close> (the limits fit, and the sandbox returns a result),
  \<open>foreign_errors\<close> (the service does not raise the API's own errors), and in \<open>Service\<close>
  \<open>describes\<close> and \<open>answers\<close> (a description is of a state of the run, and what the handler asks for
  next of the same or a later one: a read and a round of a stream are not atomic; any call may
  fail, also with not found for a run that the service no longer knows).  A run of the table is
  never replaced: a history and an operation are within the time for which the service retains its
  runs, after which an identifier may be used again.  The loops of the code run
  over the list of the environment's answers, so no fuel is chosen: a loop that has not ended where
  the list ends is \<open>Pending\<close>, and the termination theorems of \<open>Sandbox\<close> and \<open>RunStream\<close> show how
  many rounds are enough.

  \<^bold>\<open>What is shown.\<close>

  \<^item> Isolation: a container is launched at most once, after a passed preflight check, with a
    command line that satisfies the policy, carries the name of its run and attempt and does not
    depend on the code; over all attempts of a run the containers are bounded in number and have
    different names; a cancelled activity removes its container; the staging directory is removed;
    the buffer of the output's reader is bounded at every moment of its loop.
  \<^item> Truth of results: what the exit code and the two flags of a verdict mean, the bounds of the
    outputs, the tail that is kept, the classification of faults and which of them are retried, the
    workflow's outcome, and the response that reports it.
  \<^item> The workflow as a state machine: its body refines it, every queried status is well formed,
    it ends after at most five steps.
  \<^item> The API: a request to a route is answered with a status of that route and the envelope of
    errors, of which the readiness probe and undecodable bodies are the two exceptions, or fails for
    a reason from outside; no run is touched without the token; what a request may start, replay
    and conflict, identifiers and tenants; whatever the sequence of submissions, an accepted one
    names its own run, with its own work unless the memo of a reused key cannot be read.
  \<^item> What a client sees of a run: reads never go back, the stream's text, order and length, a step
    exactly for a change, the result at its end, and its data read back as JSON.
  \<^item> The service as a whole, over every sequence of requests by anyone and of workflow steps of all
    runs: every response to a read is true of a submitted run, down to the sandbox run that produced
    its result; so is every event of a stream; reads of a run and the events of a stream never go
    back; and a run that has not ended can go on, through its own activities' answers and in at most
    five steps, to the result that its sandbox run gives, which every later answered read reports.
  \<^item> Replay: with the recorded answers the body issues the recorded commands, under any settings.
  \<^item> Telemetry: the spans and log records of a successful run depend on lengths, digests, the
    directive and the verdict alone; those of a launch failure carry the program's error output.
  \<^item> This theory: an accepted task fits the sandbox, and a whole run from request to response.

  \<^bold>\<open>Where the code does not do what it says.\<close>  Some theorems state behaviour that differs from a
  comment, a document or the evident intention: the runs with a slash in their idempotency key,
  which no path reaches, a conflict of idempotency keys that is not seen
  when the memo is not a mapping, the container that ends a tenth of a second past its limit
  unflagged, the errors of another shape, the run identifier that the API's own log line loses, the
  generated program that cannot encode a task beyond the basic plane, the first heartbeat that
  comes when its timeout is over, the launch failure that a program can forge and by which its
  output reaches the telemetry, the token comparison that raises, and the worker that starts
  without its runtime.

  \<^bold>\<open>Not modelled.\<close>  The frameworks' own code: the reading of a request from the network and the
  texts of validation errors, paths of no route, the persistence and the schedule of the
  orchestration service beyond the hypotheses above (so a run that the service ends before a
  worker has taken up its first line, and a run that is forgotten after its retention),
  a failure of removing the staging directory, the signal to a control command that has timed out,
  span contexts and exporters, and the reading
  of settings from the environment.  Overflow of doubles to infinity is left out.
  The tests, the images and the deployment files have no program logic.
\<close>

section \<open>From an accepted request to the sandbox\<close>

text \<open>
  C26. An accepted task always reaches the sandbox: when the code limit is at least six times the
  task limit and 514 more, as in the default settings, every run that the API starts gets a
  plan and a program from the agent activities, whatever its task is, and the program is
  encodable and within the limit of the sandbox activity, so that the activity never refuses it
  for its size.
\<close>

theorem accepted_task_fits:
  assumes "Start_workflow sc \<in> set (fst (create_run I s c req))"
    and "6 * max_task_bytes s + 514 \<le> max_code_bytes s"
  shows "\<exists>p code bs. snd (plan_act I wid attempt (ri_task (sc_input sc))) = Return p
    \<and> snd (generate_code_act I s wid attempt p) = Return code
    \<and> utf8_encode code = Inr bs \<and> int (length code) \<le> max_code_bytes s"
proof -
  from create_run_start_call [OF assms(1)] obtain b where
    b: "utf8_encode (ri_task (sc_input sc)) = Inr b" "int (length b) \<le> max_task_bytes s"
    by (auto simp: run_input_def)
  from plan_code [OF b(1), of "case_tab I"] obtain code where
    "generate_code (plan (case_tab I) (ri_task (sc_input sc))) = Inr code" "is_ascii code"
    "int (length code) \<le> 6 * int (length b) + 514" by blast
  with b assms(2) agent_activity_results show ?thesis
    by (fastforce simp: utf8_encode_ascii)
qed

theorem accepted_task_fits_witness:
  "\<forall>I d. \<exists>sc p code. Start_workflow sc \<in> set (fst (create_run I default_settings (sample_client (Inr ()) d)
        (sample_request None (Some (lit ''k'')))))
     \<and> snd (plan_act I (lit ''demo:k'') 1 (ri_task (sc_input sc))) = Return p
     \<and> snd (generate_code_act I default_settings (lit ''demo:k'') 1 p) = Return code
     \<and> int (length code) \<le> max_code_bytes default_settings"
proof (intro allI)
  fix I d
  show "\<exists>sc p code. Start_workflow sc \<in> set (fst (create_run I default_settings (sample_client (Inr ()) d)
        (sample_request None (Some (lit ''k'')))))
     \<and> snd (plan_act I (lit ''demo:k'') 1 (ri_task (sc_input sc))) = Return p
     \<and> snd (generate_code_act I default_settings (lit ''demo:k'') 1 p) = Return code
     \<and> int (length code) \<le> max_code_bytes default_settings"
  proof -
    obtain sc where sc: "Start_workflow sc \<in> set (fst (create_run I default_settings
        (sample_client (Inr ()) d) (sample_request None (Some (lit ''k'')))))"
      using sample_starts by blast
    have "6 * max_task_bytes default_settings + 514 \<le> max_code_bytes default_settings"
      by (simp add: default_settings_def)
    from accepted_task_fits [OF sc this] sc show ?thesis by blast
  qed
qed

section \<open>A whole run\<close>

text \<open>
  What the workflow gets from the orchestration service: an activity's value is one that the
  activity returned for that argument in some attempt.  Nothing is said of how often it is tried
  or of the exceptions.
\<close>

definition delivers :: "interp \<Rightarrow> Settings \<Rightarrow> Activities \<Rightarrow> bool" where
  "delivers I s acts \<longleftrightarrow>
     (\<forall>t p. a_plan acts t = Inr p \<longrightarrow>
        (\<exists>wid k. snd (plan_act I wid k t) = Return p))
     \<and> (\<forall>p code. a_generate_code acts p = Inr code \<longrightarrow>
        (\<exists>wid k. snd (generate_code_act I s wid k p) = Return code))
     \<and> (\<forall>args r. a_run_sandbox acts args = Inr r \<longrightarrow>
        (\<exists>env k. snd (run_sandbox I s k env args) = Return r))
     \<and> (\<forall>args m. a_summarize acts args = Inr m \<longrightarrow>
        (\<exists>wid k. snd (summarize_act wid k args) = Return m))"

lemma delivers_plan:
  assumes "delivers I s acts" and "a_plan acts t = Inr p"
  shows "p = plan (case_tab I) t"
proof -
  obtain wid k where "snd (plan_act I wid k t) = Return p"
    using assms unfolding delivers_def by blast
  then show ?thesis by (simp add: agent_activity_results split: sum.splits)
qed

lemma delivers_code:
  assumes "delivers I s acts" and "a_generate_code acts p = Inr code"
  shows "generate_code p = Inr code"
proof -
  obtain wid k where "snd (generate_code_act I s wid k p) = Return code"
    using assms unfolding delivers_def by blast
  then show ?thesis by (simp add: agent_activity_results split: sum.splits)
qed

lemma delivers_sandbox:
  assumes "delivers I s acts" and "a_run_sandbox acts args = Inr r"
  obtains env k where "snd (preflight I (rs_runtime args) (re_preflight env)) = Return ()"
    and "snd (gvisor_run I s (rs_runtime args) env args k True) = Return r"
  using assms activity_result_cases [of I s _ _ args r] unfolding delivers_def by metis

lemma delivers_summary:
  assumes "delivers I s acts" and "a_summarize acts args = Inr m"
  shows "m = summarize args"
proof -
  obtain wid k where "snd (summarize_act wid k args) = Return m"
    using assms unfolding delivers_def by blast
  then show ?thesis by (simp add: agent_activity_results)
qed

lemma completed_model:
  "rsr_result (completed run_id res) = Some
     \<lparr>rm_summary = rr_summary res, rm_code = rr_code res,
      rm_sandbox = map_option sandbox_model (rr_sandbox res)\<rparr>"
  by (simp add: completed_def Let_def)

text \<open>
  A whole run, from the request to the response: if the API started the run and its workflow
  returned, then the code in the response is the program of the directive that the task names;
  it was run under the configured runtime in a sandbox whose preflight check had passed, with
  the limits of the request; the response is completed exactly when that program exited with 0
  and was neither killed for memory nor for time, and then carries the summary of that
  result; and each captured output is within the configured bound.
\<close>

theorem end_to_end_run:
  assumes "Start_workflow sc \<in> set (fst (create_run I s c req))"
    and "delivers I s acts"
    and "snd (snd (workflow_run s acts (sc_input sc) init_workflow)) = Inr res"
  shows "\<exists>code sb env k args m.
    generate_program (parse_directive (case_tab I) (rq_task req)) (rq_task req) = Inr code
    \<and> args = sandbox_args (sc_input sc) code
    \<and> snd (preflight I (sandbox_runtime s) (re_preflight env)) = Return ()
    \<and> snd (gvisor_run I s (sandbox_runtime s) env args k True) = Return sb
    \<and> wall_clock_s (rs_limits args) \<le> sandbox_wall_clock_s s
    \<and> length (stdout_tail sb) \<le> nat (sandbox_output_max_bytes s)
    \<and> length (stderr_tail sb) \<le> nat (sandbox_output_max_bytes s)
    \<and> rsr_result (completed (sc_id sc) res) = Some m
    \<and> rm_code m = Some code \<and> rm_sandbox m = Some (sandbox_model sb)
    \<and> (rsr_status (completed (sc_id sc) res) = lit ''COMPLETED'')
        = (exit_code sb = 0 \<and> \<not> oom_killed sb \<and> \<not> wall_clock_exceeded sb)
    \<and> (ok sb \<longrightarrow> rm_summary m =
         Some (summarize \<lparr>sa_plan = plan (case_tab I) (rq_task req), sa_sandbox = sb\<rparr>))"
proof -
  from create_run_start_call [OF assms(1)] obtain wid where
    inp: "sc_input sc = run_input s req wid" by auto
  from assms(3) obtain p code r where
    p: "a_plan acts (rq_task req) = Inr p" and code: "a_generate_code acts p = Inr code"
    and r: "a_run_sandbox acts (sandbox_args (sc_input sc) code) = Inr r"
    and res: "if ok r then \<exists>m. a_summarize acts \<lparr>sa_plan = p, sa_sandbox = r\<rparr> = Inr m
          \<and> res = RunResult_completed (ri_run_id (sc_input sc)) m code r
        else res = failed_result (sc_input sc) code r"
    unfolding workflow_result by (auto simp: rbind_eq_Inr rmap_eq_Inr inp run_input_def split: if_splits)
  have pl: "p = plan (case_tab I) (rq_task req)" using delivers_plan assms(2) p by blast
  have g: "generate_program (parse_directive (case_tab I) (rq_task req)) (rq_task req) = Inr code"
    using delivers_code [OF assms(2) code] by (simp add: pl generate_code_def)
  let ?args = "sandbox_args (sc_input sc) code"
  have a: "rs_runtime ?args = sandbox_runtime s" "rs_limits ?args = request_limits s req"
    by (simp_all add: sandbox_args_def inp run_input_def)
  obtain env k where e: "snd (preflight I (sandbox_runtime s) (re_preflight env)) = Return ()"
    "snd (gvisor_run I s (sandbox_runtime s) env ?args k True) = Return r"
    by (rule delivers_sandbox [OF assms(2) r, unfolded a])
  have lim: "wall_clock_s (rs_limits ?args) \<le> sandbox_wall_clock_s s"
    "output_max_bytes (rs_limits ?args) = sandbox_output_max_bytes s"
    by (simp_all add: a request_limits_def resource_limits_def split: option.split)
  have m: "rr_code res = Some code" "rr_sandbox res = Some r"
    "(rsr_status (completed (sc_id sc) res) = lit ''COMPLETED'') = ok r"
    "ok r \<longrightarrow> rr_summary res = Some (summarize \<lparr>sa_plan = p, sa_sandbox = r\<rparr>)"
    using res delivers_summary [OF assms(2)]
    by (auto simp: failed_result_def RunResult_completed_def RunResult_failed_def split: if_splits)
  show ?thesis
    using g e lim m run_result_fields [OF e(2)]
    by (intro exI [of _ code] exI [of _ r] exI [of _ env] exI [of _ k] exI [of _ ?args]
        exI [of _ "\<lparr>rm_summary = rr_summary res, rm_code = rr_code res,
            rm_sandbox = map_option sandbox_model (rr_sandbox res)\<rparr>"])
      (simp add: completed_model ok_def pl)
qed

text \<open>The activities with one attempt each, in an environment where the container exits with 3.\<close>

fun value_of :: "'a outcome \<Rightarrow> 'a result" where
  "value_of (Return x) = Inr x"
| "value_of (Raise e) = Inl e"
| "value_of Pending = Inl CancelledError"

definition sample_activities :: "interp \<Rightarrow> Activities" where
  "sample_activities I =
     \<lparr>a_plan = (\<lambda>t. value_of (snd (plan_act I (lit ''demo:1'') 1 t))),
      a_generate_code = (\<lambda>p. value_of (snd (generate_code_act I default_settings (lit ''demo:1'') 1 p))),
      a_run_sandbox = (\<lambda>args. value_of (snd (run_sandbox I default_settings 1
         (sample_env [exit_poll 3] [] []) args))),
      a_summarize = (\<lambda>args. value_of (snd (summarize_act (lit ''demo:1'') 1 args)))\<rparr>"

lemma value_of_Inr: "value_of x = Inr y \<longleftrightarrow> x = Return y"
  by (cases x) auto

lemma sample_delivers: "delivers I default_settings (sample_activities I)"
  by (auto simp: delivers_def sample_activities_def value_of_Inr)

theorem end_to_end_run_witness:
  "\<forall>I d. \<exists>sc res sb. Start_workflow sc \<in> set (fst (create_run I default_settings (sample_client (Inr ()) d)
        (sample_request None (Some (lit ''1'')))))
     \<and> snd (snd (workflow_run default_settings (sample_activities I) (sc_input sc) init_workflow)) = Inr res
     \<and> rsr_status (completed (sc_id sc) res) = lit ''FAILED'' \<and> rr_sandbox res = Some sb
     \<and> exit_code sb = 3 \<and> length (stdout_tail sb) \<le> 1048576"
proof (intro allI)
  fix I d
  show "\<exists>sc res sb. Start_workflow sc \<in> set (fst (create_run I default_settings (sample_client (Inr ()) d)
        (sample_request None (Some (lit ''1'')))))
     \<and> snd (snd (workflow_run default_settings (sample_activities I) (sc_input sc) init_workflow)) = Inr res
     \<and> rsr_status (completed (sc_id sc) res) = lit ''FAILED'' \<and> rr_sandbox res = Some sb
     \<and> exit_code sb = 3 \<and> length (stdout_tail sb) \<le> 1048576"
  proof -
    let ?req = "sample_request None (Some (lit ''1''))" and ?s = default_settings
    let ?acts = "sample_activities I"
    obtain pb where pb: "payload_bytes ?req = Inr pb" using sample_payload by blast
    have enc: "utf8_encode (lit ''count words'') = Inr (map word_of_nat (lit ''count words''))"
      by (simp add: utf8_encode_ascii)
    have "admissible I ?s ?req (lit ''demo:1'') pb"
      using pb enc by (simp add: admissible_def workflow_id_def lit_Cons default_settings_def)
    from admissible_starts [OF this, of "sample_client (Inr ()) d"] obtain sc where
      sc: "Start_workflow sc \<in> set (fst (create_run I ?s (sample_client (Inr ()) d) ?req))"
      "sc_input sc = run_input ?s ?req (lit ''demo:1'')" "sc_id sc = lit ''demo:1''"
      by fastforce
    let ?p = "plan (case_tab I) (lit ''count words'')"
    from plan_code [OF enc, of "case_tab I"] obtain code where
      code: "generate_code ?p = Inr code" "is_ascii code" "int (length code) \<le> 6 * 11 + 514"
      by auto
    let ?args = "sandbox_args (sc_input sc) code"
    have args: "?args = \<lparr>rs_run_id = lit ''demo:1'', rs_tenant_id = lit ''demo'', rs_code = code,
        rs_limits = request_limits ?s ?req, rs_runtime = lit ''runsc''\<rparr>"
      by (simp add: sc(2) run_input_def sandbox_args_def default_settings_def)
    have "wall_clock_s (request_limits ?s ?req) = 30"
      by (simp add: request_limits_def resource_limits_def default_settings_def)
    then obtain r where r: "snd (run_sandbox I ?s 1 (sample_env [exit_poll 3] [] []) ?args) = Return r"
      "exit_code r = 3"
      using sample_sandbox_activity [of code "request_limits ?s ?req" 3 I] code unfolding args by auto
    have res: "snd (snd (workflow_run ?s ?acts (sc_input sc) init_workflow))
        = Inr (failed_result (sc_input sc) code r)"
      using enc code r
      by (simp add: workflow_result sample_activities_def agent_activity_results sc(2) run_input_def ok_def)
    have fr: "rr_sandbox (failed_result (sc_input sc) code r) = Some r"
      "rsr_status (completed (sc_id sc) (failed_result (sc_input sc) code r)) = lit ''FAILED''"
      by (simp_all add: failed_result_def RunResult_failed_def)
    from end_to_end_run [OF sc(1) sample_delivers res] obtain sb m where
      "rsr_result (completed (sc_id sc) (failed_result (sc_input sc) code r)) = Some m"
      "rm_sandbox m = Some (sandbox_model sb)" "length (stdout_tail sb) \<le> nat (sandbox_output_max_bytes ?s)"
      by blast
    then have "sandbox_model sb = sandbox_model r \<and> length (stdout_tail sb) \<le> 1048576"
      by (auto simp: completed_model fr default_settings_def)
    moreover from this have "stdout_tail sb = stdout_tail r" by (simp add: sandbox_model_def)
    ultimately have "length (stdout_tail r) \<le> 1048576" by metis
    with sc(1) res fr r show ?thesis by blast
  qed
qed

end
